(* ===== verification/Prelude.thy ===== *)
theory Prelude
  imports Main "HOL-Library.Word"
begin

text \<open>
  What every component of the module shares: the ways a Rust function of this repository can
  come back (a value, an error, a panic, or never), the operations of the Rust standard library
  on strings that the sources call, and the lemmas on lists and strings the components use.

  A Rust \<open>String\<close> is its sequence of UTF-8 bytes, one HOL character per byte.  A
  \<open>Result\<close> is a sum (\<open>Inl\<close> the error), and a function that may also panic or wait for
  ever returns an \<open>outcome\<close>.
\<close>

named_theorems outcome_simps "how results are threaded through the steps of a function"
named_theorems str_simps "facts on the string operations of the standard library"

section \<open>Results of Rust functions\<close>

datatype ('e, 'a) outcome =
    Ok 'a
  | Err 'e
  | Panic   \<comment> \<open>the task panics\<close>
  | Stuck   \<comment> \<open>the task waits for a wake-up that no other task will send\<close>

text \<open>The \<open>?\<close> operator of Rust, on a computation that also changes a state.\<close>

fun and_then ::
  "('e, 'a) outcome \<times> 's \<Rightarrow> ('a \<Rightarrow> 's \<Rightarrow> ('e, 'b) outcome \<times> 's) \<Rightarrow> ('e, 'b) outcome \<times> 's"
where
  "and_then (Ok a, s) k = k a s"
| "and_then (Err e, s) k = (Err e, s)"
| "and_then (Panic, s) k = (Panic, s)"
| "and_then (Stuck, s) k = (Stuck, s)"

fun of_result :: "'e + 'a \<Rightarrow> ('e, 'a) outcome" where
  "of_result (Inl e) = Err e"
| "of_result (Inr a) = Ok a"

definition result_of :: "('e + 'a) \<times> 's \<Rightarrow> ('e, 'a) outcome \<times> 's" where
  "result_of r = (of_result (fst r), snd r)"

lemma result_of_simps [simp, outcome_simps]:
  "result_of (Inl e, s) = (Err e, s)"
  "result_of (Inr a, s) = (Ok a, s)"
  by (simp_all add: result_of_def)

lemma of_result_eq [simp]:
  "of_result r = Ok a \<longleftrightarrow> r = Inr a"
  "of_result r = Err e \<longleftrightarrow> r = Inl e"
  "of_result r \<noteq> Panic" "of_result r \<noteq> Stuck"
  by (cases r; auto)+

lemma and_then_Ok_iff [outcome_simps]:
  "and_then p k = (Ok b, s') \<longleftrightarrow> (\<exists>a s. p = (Ok a, s) \<and> k a s = (Ok b, s'))"
  by (cases "(p, k)" rule: and_then.cases) auto

text \<open>The same for functions that return a \<open>Result\<close> and cannot panic.\<close>

fun try_then ::
  "('e + 'a) \<times> 's \<Rightarrow> ('a \<Rightarrow> 's \<Rightarrow> ('e + 'b) \<times> 's) \<Rightarrow> ('e + 'b) \<times> 's"
where
  "try_then (Inl e, s) k = (Inl e, s)"
| "try_then (Inr a, s) k = k a s"

lemma try_then_Inr_iff [outcome_simps]:
  "try_then p k = (Inr b, s') \<longleftrightarrow> (\<exists>a s. p = (Inr a, s) \<and> k a s = (Inr b, s'))"
  by (cases "(p, k)" rule: try_then.cases) auto

lemma try_then_Inl_iff [outcome_simps]:
  "try_then p k = (Inl e, s') \<longleftrightarrow> p = (Inl e, s') \<or> (\<exists>a s. p = (Inr a, s) \<and> k a s = (Inl e, s'))"
  by (cases "(p, k)" rule: try_then.cases) auto

lemma and_then_not_Stuck:
  "fst p \<noteq> Stuck \<Longrightarrow> (\<And>a s. fst (k a s) \<noteq> Stuck) \<Longrightarrow> fst (and_then p k) \<noteq> Stuck"
  by (cases "(p, k)" rule: and_then.cases) auto

lemma and_then_not_Panic:
  "fst p \<noteq> Panic \<Longrightarrow> (\<And>a s. fst (k a s) \<noteq> Panic) \<Longrightarrow> fst (and_then p k) \<noteq> Panic"
  by (cases "(p, k)" rule: and_then.cases) auto

lemma result_of_Ok [simp]: "result_of p = (Ok a, s) \<longleftrightarrow> p = (Inr a, s)"
  by (cases p) (auto simp: result_of_def)

lemma result_of_not [simp]: "fst (result_of r) \<noteq> Stuck" "fst (result_of r) \<noteq> Panic"
  by (simp_all add: result_of_def)

fun is_returned :: "('e, 'a) outcome \<Rightarrow> bool" where
  "is_returned (Ok _) = True"
| "is_returned (Err _) = True"
| "is_returned Panic = False"
| "is_returned Stuck = False"

lemma is_returned_of_result [simp]: "is_returned (of_result r)"
  by (cases r) auto

section \<open>A \<open>loop\<close> with \<open>continue\<close> and \<open>return\<close>\<close>

text \<open>
  The body of an endless \<open>loop\<close> either continues with a new state (\<open>Inl\<close>) or returns
  (\<open>Inr\<close>).  The loop's value is \<open>None\<close> when the loop never returns.
\<close>

partial_function (option) loop :: "('s \<Rightarrow> 's + 'r) \<Rightarrow> 's \<Rightarrow> 'r option" where
  "loop body s = (case body s of Inl s' \<Rightarrow> loop body s' | Inr r \<Rightarrow> Some r)"

lemma loop_partial:
  assumes "loop body s = Some r"
    and "\<And>s r. body s = Inr r \<Longrightarrow> Q s r"
    and "\<And>s s' r. body s = Inl s' \<Longrightarrow> Q s' r \<Longrightarrow> Q s r"
  shows "Q s r"
  using assms(1)
  by (rule loop.raw_induct [where P = "\<lambda>b s r. b = body \<longrightarrow> Q s r", rule_format, rotated])
    (auto intro: assms(2,3) split: sum.splits)

text \<open>
  The contract of a loop that comes back: a state invariant that every \<open>continue\<close> keeps and a
  natural number that every \<open>continue\<close> makes smaller.
\<close>

locale terminating_loop =
  fixes body :: "'s \<Rightarrow> 's + 'r"
    and inv :: "'s \<Rightarrow> bool"
    and variant :: "'s \<Rightarrow> nat"
  assumes continue_inv: "inv s \<Longrightarrow> body s = Inl s' \<Longrightarrow> inv s'"
    and continue_less: "inv s \<Longrightarrow> body s = Inl s' \<Longrightarrow> variant s' < variant s"
begin

lemma loop_induct [consumes 1, case_names return continue]:
  assumes "inv s"
    and "\<And>s r. inv s \<Longrightarrow> body s = Inr r \<Longrightarrow> P s"
    and "\<And>s s'. inv s \<Longrightarrow> body s = Inl s' \<Longrightarrow> inv s' \<Longrightarrow> P s' \<Longrightarrow> P s"
  shows "P s"
  using \<open>inv s\<close>
proof (induction "variant s" arbitrary: s rule: less_induct)
  case less
  show ?case
  proof (cases "body s")
    case (Inl s')
    with less show ?thesis
      by (blast intro: assms(3) continue_inv continue_less)
  next
    case (Inr r)
    with less show ?thesis by (blast intro: assms(2))
  qed
qed

lemma loop_returns: "inv s \<Longrightarrow> \<exists>r. loop body s = Some r"
  by (induction rule: loop_induct) (simp_all add: loop.simps)

lemma loop_rule:
  assumes "inv s"
    and "\<And>s r. inv s \<Longrightarrow> body s = Inr r \<Longrightarrow> Q s r"
    and "\<And>s s' r. inv s \<Longrightarrow> body s = Inl s' \<Longrightarrow> inv s' \<Longrightarrow> Q s' r \<Longrightarrow> Q s r"
  shows "\<exists>r. loop body s = Some r \<and> Q s r"
  using \<open>inv s\<close>
  by (induction rule: loop_induct) (auto simp: loop.simps intro: assms)

end

section \<open>Strings of the Rust standard library\<close>

text \<open>\<open>str::contains\<close>, \<open>str::starts_with\<close>, \<open>str::replace('\0', "")\<close>.\<close>

fun str_starts_with :: "string \<Rightarrow> string \<Rightarrow> bool" where
  "str_starts_with s [] = True"
| "str_starts_with [] (p # ps) = False"
| "str_starts_with (c # cs) (p # ps) = (c = p \<and> str_starts_with cs ps)"

fun str_contains :: "string \<Rightarrow> string \<Rightarrow> bool" where
  "str_contains [] p = (p = [])"
| "str_contains (c # cs) p = (str_starts_with (c # cs) p \<or> str_contains cs p)"

definition remove_char :: "char \<Rightarrow> string \<Rightarrow> string" where
  "remove_char c s = filter (\<lambda>x. x \<noteq> c) s"

abbreviation nul :: char where
  "nul \<equiv> CHR 0x00"

lemma str_starts_with_iff: "str_starts_with s p \<longleftrightarrow> (\<exists>v. s = p @ v)"
  by (induction s p rule: str_starts_with.induct) auto

lemma str_contains_iff: "str_contains s p \<longleftrightarrow> (\<exists>u v. s = u @ p @ v)"
proof (induction s p rule: str_contains.induct)
  case (1 p)
  then show ?case by auto
next
  case (2 c cs p)
  have "(\<exists>u v. c # cs = u @ p @ v) \<longleftrightarrow> (\<exists>v. c # cs = p @ v) \<or> (\<exists>u v. cs = u @ p @ v)"
    by (metis append_Cons append_Nil list.exhaust list.inject)
  with 2 show ?case by (auto simp: str_starts_with_iff)
qed

lemma remove_char_append [simp]: "remove_char c (s @ t) = remove_char c s @ remove_char c t"
  by (simp add: remove_char_def)

lemma not_in_remove_char [simp]: "c \<notin> set (remove_char c s)"
  by (simp add: remove_char_def)

lemma remove_char_idem [simp]: "remove_char c (remove_char c s) = remove_char c s"
  by (simp add: remove_char_def)

lemma remove_char_id: "c \<notin> set s \<Longrightarrow> remove_char c s = s"
  by (auto simp: remove_char_def filter_id_conv)

text \<open>
  \<open>str::to_lowercase\<close> on ASCII letters.  The sources only search its result for ASCII
  patterns with none of the letters \<open>k\<close> and \<open>i\<close>, the two that a non-ASCII character can lower to.
\<close>

definition ascii_lower :: "char \<Rightarrow> char" where
  "ascii_lower c =
     (if 65 \<le> (of_char c :: nat) \<and> (of_char c :: nat) \<le> 90 then char_of ((of_char c :: nat) + 32) else c)"

definition to_lowercase :: "string \<Rightarrow> string" where
  "to_lowercase s = map ascii_lower s"

text \<open>\<open>str::split(c)\<close>: the parts between the separators, empty ones included.\<close>

fun split_on :: "char \<Rightarrow> string \<Rightarrow> string list" where
  "split_on d [] = [[]]"
| "split_on d (c # cs) =
     (if c = d then [] # split_on d cs
      else case split_on d cs of [] \<Rightarrow> [[c]] | w # ws \<Rightarrow> (c # w) # ws)"

fun join_with :: "char \<Rightarrow> string list \<Rightarrow> string" where
  "join_with d [] = []"
| "join_with d [w] = w"
| "join_with d (w # ws) = w @ d # join_with d ws"

lemma split_on_not_Nil [simp]: "split_on d s \<noteq> []"
  by (induction s) (auto split: list.splits)

lemma split_on_no_sep: "w \<in> set (split_on d s) \<Longrightarrow> d \<notin> set w"
  by (induction s arbitrary: w) (fastforce split: if_splits list.splits)+

lemma split_on_single: "d \<notin> set w \<Longrightarrow> split_on d w = [w]"
  by (induction w) auto

lemma split_on_Cons: "d \<notin> set w \<Longrightarrow> split_on d (w @ d # s) = w # split_on d s"
  by (induction w) auto

lemma split_on_join:
  "ws \<noteq> [] \<Longrightarrow> (\<And>w. w \<in> set ws \<Longrightarrow> d \<notin> set w) \<Longrightarrow> split_on d (join_with d ws) = ws"
  by (induction d ws rule: join_with.induct) (auto simp: split_on_single split_on_Cons)

section \<open>Updating one position of a list\<close>

text \<open>How many elements with a property there are before and after an update.\<close>

lemma filter_update_length:
  "i < length xs \<Longrightarrow>
   length (filter P (xs[i := y])) + (if P (xs ! i) then 1 else 0) =
   length (filter P xs) + (if P y then 1 else 0)"
proof (induction xs arbitrary: i)
  case (Cons x xs)
  then show ?case
  proof (cases i)
    case (Suc j)
    with Cons.IH [of j] Cons.prems show ?thesis by (simp split: if_splits)
  qed simp
qed simp

lemma in_set_update_iff:
  "i < length xs \<Longrightarrow> x \<in> set (xs[i := y]) \<longleftrightarrow> x = y \<or> (\<exists>j < length xs. j \<noteq> i \<and> xs ! j = x)"
  by (auto simp: in_set_conv_nth nth_list_update split: if_splits)

section \<open>First occurrences\<close>

text \<open>
  A list with every element kept where it first occurs.  \<open>remember\<close> is one round of the usual loop:
  push the element on the result when the set of the elements seen did not hold it.
\<close>

definition first_occurrences :: "'a list \<Rightarrow> 'a list" where
  "first_occurrences xs = rev (remdups (rev xs))"

definition remember :: "'a \<Rightarrow> 'a list \<times> 'a set \<Rightarrow> 'a list \<times> 'a set" where
  "remember x acc = (if x \<in> snd acc then acc else (fst acc @ [x], insert x (snd acc)))"

lemma first_occurrences_Nil [simp]: "first_occurrences [] = []"
  by (simp add: first_occurrences_def)

lemma first_occurrences_snoc:
  "first_occurrences (xs @ [x]) =
     (if x \<in> set xs then first_occurrences xs else first_occurrences xs @ [x])"
  by (simp add: first_occurrences_def)

lemma set_first_occurrences [simp]: "set (first_occurrences xs) = set xs"
  by (simp add: first_occurrences_def)

lemma distinct_first_occurrences [simp]: "distinct (first_occurrences xs)"
  by (simp add: first_occurrences_def)

lemma fold_remember: "fold remember xs ([], {}) = (first_occurrences xs, set xs)"
  by (induction xs rule: rev_induct) (auto simp: remember_def first_occurrences_snoc)

end
