(* ===== verification/Text.thy ===== *)
theory Text
  imports Prelude
begin

text \<open>
  Text processing of the standard library that needs more than a prefix test: the Unicode white
  space of \<open>split_whitespace\<close> and \<open>trim\<close> on UTF-8 bytes, and decimal numerals.
\<close>

section \<open>White space\<close>

text \<open>
  The number of bytes of the white space character at the start of a UTF-8 string, 0 if it starts
  with no white space: U+0009 to U+000D and U+0020 (one byte), U+0085 and U+00A0 (two), U+1680,
  U+2000 to U+200A, U+2028, U+2029, U+202F, U+205F and U+3000 (three).
\<close>

definition ws_len :: "string \<Rightarrow> nat" where
  "ws_len s = (case map of_char (take 3 s) :: nat list of
      [] \<Rightarrow> 0
    | x # xs \<Rightarrow>
        if (9 \<le> x \<and> x \<le> 13) \<or> x = 32 then 1
        else (case xs of
            [] \<Rightarrow> 0
          | y # ys \<Rightarrow>
              if x = 194 \<and> (y = 133 \<or> y = 160) then 2
              else (case ys of
                  [] \<Rightarrow> 0
                | z # _ \<Rightarrow>
                    if (x = 225 \<and> y = 154 \<and> z = 128)
                     \<or> (x = 226 \<and> y = 128 \<and> ((128 \<le> z \<and> z \<le> 138) \<or> z = 168 \<or> z = 169 \<or> z = 175))
                     \<or> (x = 226 \<and> y = 129 \<and> z = 159)
                     \<or> (x = 227 \<and> y = 128 \<and> z = 128)
                    then 3 else 0)))"

lemma ws_len_Nil [simp]: "ws_len [] = 0"
  by (simp add: ws_len_def)

lemma ws_len_le: "ws_len s \<le> length s"
proof (cases s rule: remdups_adj.cases)
  case (3 x y xs)
  then show ?thesis
    by (cases xs) (auto simp: ws_len_def)
qed (auto simp: ws_len_def)

lemma ws_len_append: "0 < ws_len s \<Longrightarrow> ws_len (s @ t) = ws_len s"
proof (cases s rule: remdups_adj.cases)
  case (2 x)
  assume "0 < ws_len s"
  with 2 show ?thesis
    by (auto simp: ws_len_def split: if_splits)
next
  case (3 x y xs)
  assume "0 < ws_len s"
  with 3 show ?thesis
    by (cases xs) (auto simp: ws_len_def split: if_splits list.splits)
qed simp

text \<open>
  \<open>str::split_whitespace\<close>: the maximal runs of other characters.  The first argument counts the
  bytes of the current white space character still to be skipped, the second is the current run.
\<close>

definition flush :: "string \<Rightarrow> string list" where
  "flush cur = (if cur = [] then [] else [cur])"

fun split_ws :: "nat \<Rightarrow> string \<Rightarrow> string \<Rightarrow> string list" where
  "split_ws k cur [] = flush cur"
| "split_ws (Suc k) cur (c # cs) = split_ws k cur cs"
| "split_ws 0 cur (c # cs) =
     (case ws_len (c # cs) of
        0 \<Rightarrow> split_ws 0 (cur @ [c]) cs
      | Suc k \<Rightarrow> flush cur @ split_ws k [] cs)"

definition split_whitespace :: "string \<Rightarrow> string list" where
  "split_whitespace s = split_ws 0 [] s"

text \<open>\<open>str::trim\<close>: white space removed at both ends.\<close>

fun trim_start_from :: "nat \<Rightarrow> string \<Rightarrow> string" where
  "trim_start_from k [] = []"
| "trim_start_from (Suc k) (c # cs) = trim_start_from k cs"
| "trim_start_from 0 (c # cs) =
     (case ws_len (c # cs) of 0 \<Rightarrow> c # cs | Suc k \<Rightarrow> trim_start_from k cs)"

definition ends_in_ws :: "nat \<Rightarrow> string \<Rightarrow> bool" where
  "ends_in_ws k s \<longleftrightarrow> 0 < k \<and> k \<le> length s \<and> ws_len (drop (length s - k) s) = k"

function trim_end :: "string \<Rightarrow> string" where
  "trim_end s =
     (if ends_in_ws 1 s then trim_end (take (length s - 1) s)
      else if ends_in_ws 2 s then trim_end (take (length s - 2) s)
      else if ends_in_ws 3 s then trim_end (take (length s - 3) s)
      else s)"
  by pat_completeness auto
termination
  by (relation "measure length") (auto simp: ends_in_ws_def)

declare trim_end.simps [simp del]

definition trim :: "string \<Rightarrow> string" where
  "trim s = trim_end (trim_start_from 0 s)"

text \<open>A text without white space: none starts at any of its positions.\<close>

definition ws_free :: "string \<Rightarrow> bool" where
  "ws_free s \<longleftrightarrow> (\<forall>i < length s. ws_len (drop i s) = 0)"

lemma ws_free_trim: "ws_free s \<Longrightarrow> trim s = s"
proof -
  assume free: "ws_free s"
  then have "trim_start_from 0 s = s"
    by (cases s) (auto simp: ws_free_def)
  moreover have "\<not> ends_in_ws k s" for k
    using free by (auto simp: ws_free_def ends_in_ws_def)
  ultimately show ?thesis
    by (simp add: trim_def trim_end.simps)
qed

lemma flush_set: "t \<in> set (flush cur) \<longleftrightarrow> t = cur \<and> cur \<noteq> []"
  by (auto simp: flush_def)

text \<open>
  The run being collected stays free of white space, read together with the bytes that follow it.
\<close>

lemma split_ws_free:
  assumes "t \<in> set (split_ws k cur s)"
    and "\<And>i. i < length cur \<Longrightarrow> ws_len (drop i cur @ s) = 0" and "0 < k \<Longrightarrow> cur = []"
  shows "t \<noteq> [] \<and> ws_free t"
  using assms
proof (induction k cur s rule: split_ws.induct)
  case (1 k cur)
  then show ?case by (auto simp: flush_set ws_free_def)
next
  case (2 k cur c cs)
  then show ?case by simp
next
  case (3 cur c cs)
  have cur_free: "ws_free cur"
    unfolding ws_free_def
  proof (intro allI impI)
    fix i assume "i < length cur"
    then have "ws_len (drop i cur @ c # cs) = 0" by (rule 3(4))
    then show "ws_len (drop i cur) = 0" using ws_len_append by force
  qed
  show ?case
  proof (cases "ws_len (c # cs)")
    case 0
    have "ws_len (drop i (cur @ [c]) @ cs) = 0" if "i < length (cur @ [c])" for i
      using that 0 3(4) [of i] by (cases "i < length cur") (auto simp: less_Suc_eq)
    with 0 3 show ?thesis by simp
  next
    case (Suc k)
    with 3 cur_free show ?thesis by (auto simp: flush_set)
  qed
qed

lemma split_whitespace_token: "t \<in> set (split_whitespace s) \<Longrightarrow> t \<noteq> [] \<and> ws_free t"
  unfolding split_whitespace_def by (erule split_ws_free) auto

lemma split_whitespace_trim [str_simps]: "t \<in> set (split_whitespace s) \<Longrightarrow> trim t = t"
  using split_whitespace_token ws_free_trim by blast

section \<open>Decimal numerals\<close>

text \<open>\<open>u64::to_string\<close> and its kin.\<close>

definition digit_char :: "nat \<Rightarrow> char" where
  "digit_char d = char_of (48 + d)"

fun show_nat :: "nat \<Rightarrow> string" where
  "show_nat n = (if n < 10 then [digit_char n] else show_nat (n div 10) @ [digit_char (n mod 10)])"

declare show_nat.simps [simp del]

definition is_digit :: "char \<Rightarrow> bool" where
  "is_digit c \<longleftrightarrow> 48 \<le> (of_char c :: nat) \<and> (of_char c :: nat) \<le> 57"

text \<open>The value of a non-empty run of digits, \<open>None\<close> for any other text.\<close>

fun digits_value :: "nat \<Rightarrow> string \<Rightarrow> nat option" where
  "digits_value acc [] = Some acc"
| "digits_value acc (c # cs) =
     (if is_digit c then digits_value (10 * acc + (of_char c - 48)) cs else None)"

definition parse_nat :: "string \<Rightarrow> nat option" where
  "parse_nat s = (if s = [] then None else digits_value 0 s)"

lemma of_char_digit_char [simp]: "d < 10 \<Longrightarrow> (of_char (digit_char d) :: nat) = 48 + d"
  by (simp add: digit_char_def)

lemma is_digit_digit_char [simp]: "d < 10 \<Longrightarrow> is_digit (digit_char d)"
  by (simp add: is_digit_def)

lemma digits_value_append:
  "digits_value acc (s @ t) =
     (case digits_value acc s of None \<Rightarrow> None | Some v \<Rightarrow> digits_value v t)"
  by (induction acc s rule: digits_value.induct) auto

lemma show_nat_not_Nil [simp]: "show_nat n \<noteq> []"
  by (subst show_nat.simps) simp

lemma show_nat_digits: "c \<in> set (show_nat n) \<Longrightarrow> is_digit c"
  by (induction n rule: show_nat.induct) (subst (asm) (2) show_nat.simps, auto split: if_splits)

lemma show_nat_no_nul: "nul \<notin> set (show_nat n)"
proof
  assume "nul \<in> set (show_nat n)"
  then have "is_digit nul" by (rule show_nat_digits)
  then show False by (simp add: is_digit_def)
qed

lemma digits_value_show_nat: "digits_value 0 (show_nat n) = Some n"
proof (induction n rule: show_nat.induct)
  case (1 n)
  then show ?case
    by (subst show_nat.simps) (auto simp: digits_value_append)
qed

lemma parse_show_nat [str_simps]: "parse_nat (show_nat n) = Some n"
  by (simp add: parse_nat_def digits_value_show_nat)

end
