(* ===== verification/Errors.thy ===== *)
theory Errors
  imports Text
begin

text \<open>
  The errors of the module (\<open>src/src/vkldap/errors.rs\<close>): the variants, the two predicates the
  authentication callback decides by, the messages, and the macro that turns the outcome of an
  LDAP request into a result.

  The error values of other crates are opaque to the sources but for their printed form, which
  their constructors carry here, and, for \<open>ldap3::LdapError\<close>, the variants
  \<open>is_ldap_connection_error\<close> and \<open>is_user_not_found\<close> match on; every other variant (input and
  output, timeouts, end of stream, ...) is \<open>OtherLdapError\<close>.
\<close>

section \<open>The error types\<close>

datatype LdapError =
    LdapResultError (res_rc: "32 word") (err_text: string)
  | FilterParsing (err_text: string)
  | DecodingUTF8 (err_text: string)
  | InvalidScopeString (err_text: string)
  | AddNoValues (err_text: string)
  | AdapterInit (err_text: string)
  | OtherLdapError (err_text: string)

type_synonym io_error = string
type_synonym tls_error = string

datatype VkLdapError =
    IOError string io_error
  | NoTLSKeyPathSet
  | TLSError string tls_error
  | LdapBindError LdapError
  | LdapAdminBindError LdapError
  | LdapSearchError LdapError
  | LdapConnectionError LdapError
  | LdapServerPingError LdapError
  | NoLdapEntryFound string
  | MultipleEntryFound string
  | InvalidDNAttribute string
  | NoServerConfigured
  | NoHealthyServerAvailable
  | FailedToStopFailuredDetectorThread
  | FailedToShutdownJobScheduler
  | FailedToSendJobToScheduler string
  | SchedulerNotReady

type_synonym 'a result = "VkLdapError + 'a"

definition ldap_error_to_string :: "LdapError \<Rightarrow> string" where
  "ldap_error_to_string e = remove_char nul (err_text e)"

section \<open>Classification\<close>

definition is_user_not_found :: "VkLdapError \<Rightarrow> bool" where
  "is_user_not_found e = (case e of
      NoLdapEntryFound _ \<Rightarrow> True
    | LdapBindError ldap_err \<Rightarrow>
        (case ldap_err of
           LdapResultError rc _ \<Rightarrow>
             if rc = 32 then True
             else if rc = 49 then
               (let err_text = to_lowercase (ldap_error_to_string ldap_err) in
                str_contains err_text '' data 525''
                \<or> str_contains err_text ''user not found''
                \<or> str_contains err_text ''no such object'')
             else False
         | _ \<Rightarrow> False)
    | _ \<Rightarrow> False)"

definition is_server_unavailable :: "VkLdapError \<Rightarrow> bool" where
  "is_server_unavailable e = (case e of
      NoHealthyServerAvailable \<Rightarrow> True
    | LdapConnectionError _ \<Rightarrow> True
    | NoServerConfigured \<Rightarrow> True
    | SchedulerNotReady \<Rightarrow> True
    | _ \<Rightarrow> False)"

definition is_ldap_connection_error :: "LdapError \<Rightarrow> bool" where
  "is_ldap_connection_error err = (case err of
      LdapResultError _ _ \<Rightarrow> False
    | FilterParsing _ \<Rightarrow> False
    | DecodingUTF8 _ \<Rightarrow> False
    | InvalidScopeString _ \<Rightarrow> False
    | AddNoValues _ \<Rightarrow> False
    | AdapterInit _ \<Rightarrow> False
    | _ \<Rightarrow> True)"

section \<open>Messages\<close>

abbreviation sq :: char where
  "sq \<equiv> CHR 0x27"

definition VkLdapError_fmt :: "VkLdapError \<Rightarrow> string" where
  "VkLdapError_fmt e = (case e of
      NoTLSKeyPathSet \<Rightarrow>
        ''no TLS key path specified. Please set the path for ldap.tls_key_path config''
    | IOError msg ioerr \<Rightarrow> msg @ '': '' @ ioerr
    | TLSError msg tlserr \<Rightarrow> msg @ '': '' @ tlserr
    | LdapBindError ldaperr \<Rightarrow> ''error in bind operation: '' @ ldap_error_to_string ldaperr
    | LdapAdminBindError ldaperr \<Rightarrow>
        ''error in binding admin user: '' @ ldap_error_to_string ldaperr
    | LdapSearchError ldaperr \<Rightarrow> ''failed to search ldap user: '' @ ldap_error_to_string ldaperr
    | LdapConnectionError ldaperr \<Rightarrow>
        ''LDAP connection failure: '' @ ldap_error_to_string ldaperr
    | LdapServerPingError ldaperr \<Rightarrow>
        ''failed to run WhoAmI command on the ldap server: '' @ ldap_error_to_string ldaperr
    | NoLdapEntryFound sfilter \<Rightarrow>
        ''search filter '' @ sq # sfilter @ sq # '' returned no entries''
    | MultipleEntryFound sfilter \<Rightarrow>
        ''search filter '' @ sq # sfilter @ sq # '' returned multiple entries''
    | InvalidDNAttribute attribute \<Rightarrow>
        ''the user entry does not have the '' @ sq # attribute @ sq #
        '' attribute to get the user DN''
    | NoServerConfigured \<Rightarrow>
        ''no server set in configuration. Please set ldap.servers config option''
    | NoHealthyServerAvailable \<Rightarrow>
        ''all servers set in configuration are unhealthy. Please check the logs for more information''
    | FailedToStopFailuredDetectorThread \<Rightarrow>
        ''failed to wait for the failure detector thread to finish''
    | FailedToShutdownJobScheduler \<Rightarrow>
        ''failed to shutdown job scheduler. Please check the logs for more information''
    | FailedToSendJobToScheduler errmsg \<Rightarrow> ''failed to send job to scheduler: '' @ errmsg
    | SchedulerNotReady \<Rightarrow> ''LDAP scheduler is not ready. Module may still be initializing'')"

text \<open>
  The conversion into the server's own error type calls \<open>err.into()\<close>, which is resolved to the
  conversion itself.
\<close>

datatype ValkeyError = ValkeyStr string | ValkeyString string

partial_function (option) ValkeyError_from :: "VkLdapError \<Rightarrow> ValkeyError option" where
  "ValkeyError_from err = ValkeyError_from err"

section \<open>The macros that return early\<close>

definition handle_io_error :: "io_error + 'a \<Rightarrow> string \<Rightarrow> 'a result" where
  "handle_io_error r errmsg = (case r of Inr res \<Rightarrow> Inr res | Inl err \<Rightarrow> Inl (IOError errmsg err))"

definition handle_tls_error :: "tls_error + 'a \<Rightarrow> string \<Rightarrow> 'a result" where
  "handle_tls_error r errmsg = (case r of Inr res \<Rightarrow> Inr res | Inl err \<Rightarrow> Inl (TLSError errmsg err))"

text \<open>
  The value of an LDAP request: an error of the client library (\<open>Inl\<close>), or the server's answer,
  read with \<open>success()\<close>, which is an error when its result code is not that of success.
\<close>

type_synonym 'a ldap_reply = "LdapError + (LdapError + 'a)"

definition handle_ldap_error :: "'a ldap_reply \<Rightarrow> (LdapError \<Rightarrow> VkLdapError) \<Rightarrow> 'a result" where
  "handle_ldap_error expr errtype = (case expr of
      Inr res \<Rightarrow> (case res of Inr a \<Rightarrow> Inr a | Inl err \<Rightarrow> Inl (errtype err))
    | Inl err \<Rightarrow>
        if is_ldap_connection_error err then Inl (LdapConnectionError err)
        else Inl (errtype err))"

section \<open>Facts used by the components\<close>

lemma handle_io_error_Inr [simp]: "handle_io_error r msg = Inr a \<longleftrightarrow> r = Inr a"
  by (cases r) (auto simp: handle_io_error_def)

lemma handle_tls_error_Inr [simp]: "handle_tls_error r msg = Inr a \<longleftrightarrow> r = Inr a"
  by (cases r) (auto simp: handle_tls_error_def)

lemma handle_ldap_error_Inr [simp]:
  "handle_ldap_error expr errtype = Inr a \<longleftrightarrow> expr = Inr (Inr a)"
  by (auto simp: handle_ldap_error_def split: sum.splits)

lemma handle_ldap_error_connection:
  assumes "\<And>err. errtype err \<noteq> LdapConnectionError e"
  shows "handle_ldap_error expr errtype = Inl (LdapConnectionError e) \<longleftrightarrow>
    expr = Inl e \<and> is_ldap_connection_error e"
  using assms by (auto simp: handle_ldap_error_def split: sum.splits)

lemma ldap_error_to_string_no_nul [simp]: "nul \<notin> set (ldap_error_to_string e)"
  by (simp add: ldap_error_to_string_def)

lemma handle_ldap_error_cases:
  "(\<exists>a. handle_ldap_error expr errtype = Inr a)
   \<or> (\<exists>err. handle_ldap_error expr errtype = Inl (errtype err))
   \<or> (\<exists>err. handle_ldap_error expr errtype = Inl (LdapConnectionError err))"
  by (auto simp: handle_ldap_error_def split: sum.splits)

section \<open>Properties\<close>

text \<open>No error is both "user not found", on which the callback deletes the user, and "server
  unavailable", on which it may fall back to the local password: the order in which
  \<open>auth_reply_callback\<close> asks does not matter, and an outage never deletes a user by that path.
\<close>

theorem not_found_and_unavailable_disjoint: "\<not> (is_user_not_found e \<and> is_server_unavailable e)"
  by (cases e) (simp_all add: is_user_not_found_def is_server_unavailable_def)

text \<open>A rejected bind whose diagnostic text carries stray null characters, as some directory
  servers send, is classified as if they were not there, wherever they stand in the text.\<close>

theorem is_user_not_found_ignores_nul:
  "is_user_not_found (LdapBindError (LdapResultError rc text)) =
   is_user_not_found (LdapBindError (LdapResultError rc (remove_char nul text)))"
  by (simp add: is_user_not_found_def ldap_error_to_string_def)

text \<open>The message of an error that carries an LDAP error never holds a null character, so that
  it can be handed to the C logging function.\<close>

theorem VkLdapError_fmt_no_nul:
  assumes "e \<in> {LdapBindError l, LdapAdminBindError l, LdapSearchError l, LdapConnectionError l,
     LdapServerPingError l}"
  shows "nul \<notin> set (VkLdapError_fmt e)"
  using assms by (auto simp: VkLdapError_fmt_def)

theorem VkLdapError_fmt_no_nul_witness:
  "nul \<notin> set (VkLdapError_fmt (LdapBindError (LdapResultError 49 [CHR ''x'', nul])))"
  using VkLdapError_fmt_no_nul
    [of "LdapBindError (LdapResultError 49 [CHR ''x'', nul])" "LdapResultError 49 [CHR ''x'', nul]"]
  by simp

text \<open>Converting an error into the server's error type never returns: the conversion calls
  itself with the same argument.\<close>

theorem ValkeyError_from_diverges: "ValkeyError_from err = None"
proof (rule ccontr)
  assume "ValkeyError_from err \<noteq> None"
  then obtain v where "ValkeyError_from err = Some v" by blast
  then show False
    by (rule ValkeyError_from.raw_induct [where P = "\<lambda>_ _. False", rotated]) blast
qed

end
