(* ===== verification/Version.thy ===== *)
theory Version
  imports Text "HOL-Library.Product_Lexorder"
begin

text \<open>
  The module version (\<open>src/src/version.rs\<close>): the package version string, parsed while the module
  is compiled, encoded in a 32-bit integer.  A panic of the constant evaluation is \<open>None\<close>.  The
  integer parser of the crate \<open>const_str\<close> is the parameter \<open>parse\<close>; on decimal numerals that fit
  it returns their value, which is the hypothesis \<open>parses_numerals\<close> of the properties.
\<close>

unbundle bit_operations_syntax

type_synonym i32 = "32 word"

section \<open>The encoder\<close>

text \<open>\<open>(major << 24) | (minor << 16) | (patch << 8) | dev\<close>\<close>

definition encode_parts :: "i32 \<Rightarrow> i32 \<Rightarrow> i32 \<Rightarrow> i32 \<Rightarrow> i32" where
  "encode_parts major minor patch dev =
     push_bit 24 major OR push_bit 16 minor OR push_bit 8 patch OR dev"

text \<open>The addition of 1 to the number of a release candidate is checked for overflow.\<close>

definition dev_part :: "(string \<Rightarrow> i32 option) \<Rightarrow> string \<Rightarrow> i32 option" where
  "dev_part parse s =
     (if s = ''dev'' then Some 1
      else if str_starts_with s ''rc'' then
        (case parse (drop 2 s) of
           None \<Rightarrow> None
         | Some n \<Rightarrow> if n = 0x7FFFFFFF then None else Some (n + 1))
      else None)"

definition patch_and_dev :: "(string \<Rightarrow> i32 option) \<Rightarrow> string \<Rightarrow> (i32 \<times> i32) option" where
  "patch_and_dev parse s =
     (if str_contains s ''-'' then
        (case split_on (CHR ''-'') s of
           p # d # _ \<Rightarrow>
             (case (parse p, dev_part parse d) of
                (Some patch, Some dev) \<Rightarrow> Some (patch, dev)
              | _ \<Rightarrow> None)
         | _ \<Rightarrow> None)
      else (case parse s of Some patch \<Rightarrow> Some (patch, 0xFF) | None \<Rightarrow> None))"

definition module_version :: "(string \<Rightarrow> i32 option) \<Rightarrow> string \<Rightarrow> i32 option" where
  "module_version parse s =
     (case split_on (CHR ''.'') s of
        [p0, p1, p2] \<Rightarrow>
          (case (parse p0, parse p1, patch_and_dev parse p2) of
             (Some major, Some minor, Some (patch, dev)) \<Rightarrow> Some (encode_parts major minor patch dev)
           | _ \<Rightarrow> None)
      | _ \<Rightarrow> None)"

section \<open>Versions and what they should be encoded as\<close>

datatype phase = Dev | Rc nat | Ga

datatype version = Version (major: nat) (minor: nat) (patch: nat) (ph: phase)

fun show_phase :: "phase \<Rightarrow> string" where
  "show_phase Dev = ''-dev''"
| "show_phase (Rc n) = ''-rc'' @ show_nat n"
| "show_phase Ga = []"

definition show_version :: "version \<Rightarrow> string" where
  "show_version v =
     show_nat (major v) @ ''.'' @ show_nat (minor v) @ ''.'' @ show_nat (patch v) @ show_phase (ph v)"

fun dev_code :: "phase \<Rightarrow> nat" where
  "dev_code Dev = 1"
| "dev_code (Rc n) = Suc n"
| "dev_code Ga = 255"

text \<open>The versions the scheme has room for.\<close>

definition wf_version :: "version \<Rightarrow> bool" where
  "wf_version v \<longleftrightarrow> major v < 256 \<and> minor v < 256 \<and> patch v < 256 \<and>
     (case ph v of Rc n \<Rightarrow> 1 \<le> n \<and> n < 254 | _ \<Rightarrow> True)"

definition version_number :: "version \<Rightarrow> nat" where
  "version_number v = ((major v * 256 + minor v) * 256 + patch v) * 256 + dev_code (ph v)"

text \<open>Semantic version order: a development version precedes its candidates, they the release.\<close>

fun phase_rank :: "phase \<Rightarrow> nat \<times> nat" where
  "phase_rank Dev = (0, 0)"
| "phase_rank (Rc n) = (1, n)"
| "phase_rank Ga = (2, 0)"

definition version_key :: "version \<Rightarrow> nat \<times> nat \<times> nat \<times> nat \<times> nat" where
  "version_key v = (major v, minor v, patch v, phase_rank (ph v))"

lemma phase_rank_inj: "phase_rank p = phase_rank q \<Longrightarrow> p = q"
  by (cases p; cases q) auto

lemma version_key_inj: "version_key v = version_key w \<Longrightarrow> v = w"
  by (cases v; cases w) (auto simp: version_key_def dest: phase_rank_inj)

instantiation version :: linorder
begin

definition less_eq_version :: "version \<Rightarrow> version \<Rightarrow> bool" where
  "less_eq_version v w \<longleftrightarrow> version_key v \<le> version_key w"

definition less_version :: "version \<Rightarrow> version \<Rightarrow> bool" where
  "less_version v w \<longleftrightarrow> version_key v < version_key w"

instance
  by standard (auto simp: less_eq_version_def less_version_def intro: version_key_inj)

end

section \<open>Arithmetic of the encoding\<close>

lemma bit_nat_less: "bit (m :: nat) i \<Longrightarrow> m < 2 ^ k \<Longrightarrow> i < k"
  by (metis bit_take_bit_iff take_bit_nat_eq_self)

lemma or_push_bit_of_nat:
  assumes "b < 2 ^ k"
  shows "push_bit k (of_nat a :: i32) OR of_nat b = of_nat (a * 2 ^ k + b)"
proof -
  have "push_bit k (of_nat a :: i32) OR of_nat b = push_bit k (of_nat a) + of_nat b"
    by (rule disjunctive_add [symmetric])
      (auto simp: bit_push_bit_iff bit_of_nat_iff dest: bit_nat_less [OF _ assms])
  then show ?thesis by (simp add: push_bit_eq_mult)
qed

lemma encode_parts_of_nat:
  assumes "mi < 256" "pa < 256" "d < 256"
  shows "encode_parts (of_nat ma) (of_nat mi) (of_nat pa) (of_nat d) =
    of_nat (((ma * 256 + mi) * 256 + pa) * 256 + d)"
proof -
  have "push_bit 8 (of_nat pa :: i32) OR of_nat d = of_nat (pa * 2 ^ 8 + d)"
    using assms by (intro or_push_bit_of_nat) simp
  moreover have "push_bit 16 (of_nat mi :: i32) OR of_nat (pa * 2 ^ 8 + d) =
      of_nat (mi * 2 ^ 16 + (pa * 2 ^ 8 + d))"
    using assms by (intro or_push_bit_of_nat) simp
  moreover have "push_bit 24 (of_nat ma :: i32) OR of_nat (mi * 2 ^ 16 + (pa * 2 ^ 8 + d)) =
      of_nat (ma * 2 ^ 24 + (mi * 2 ^ 16 + (pa * 2 ^ 8 + d)))"
    using assms by (intro or_push_bit_of_nat) simp
  ultimately show ?thesis
    by (simp add: encode_parts_def or.assoc algebra_simps)
qed

lemma lex_step:
  fixes a b a' b' :: nat
  assumes "b < B" "b' < B"
  shows "a * B + b \<le> a' * B + b' \<longleftrightarrow> a < a' \<or> a = a' \<and> b \<le> b'"
proof -
  have *: "x * B + y < x' * B + y'" if "x < x'" "y < B" for x x' y y' :: nat
  proof -
    have "x * B + y < Suc x * B" using that by simp
    also have "\<dots> \<le> x' * B" using that by (intro mult_le_mono1) simp
    finally show ?thesis by simp
  qed
  show ?thesis
    using assms * [of a a' b b'] * [of a' a b' b] by (cases a a' rule: linorder_cases) auto
qed

lemma base256_digits:
  fixes a b c d :: nat
  assumes "b < 256" "c < 256" "d < 256" and n: "n = ((a * 256 + b) * 256 + c) * 256 + d"
  shows "n div 2 ^ 24 = a" "n div 2 ^ 16 mod 256 = b" "n div 2 ^ 8 mod 256 = c" "n mod 256 = d"
proof -
  define m where "m = (a * 256 + b) * 256 + c"
  have 1: "n div 256 = (a * 256 + b) * 256 + c" "n mod 256 = d"
    unfolding n m_def [symmetric] using assms(3) by simp_all
  have "n div 256 mod 256 = c"
    unfolding 1 using assms(2) by (metis mod_less mod_mult_self3)
  have 2: "n div 256 div 256 = a * 256 + b" "n div 256 div 256 div 256 = a"
    using assms(1,2) by (auto simp: 1)
  have "n div 2 ^ 24 = n div 256 div 256 div 256" "n div 2 ^ 16 = n div 256 div 256"
    by (simp_all flip: div_mult2_eq)
  with 1(2) 2 \<open>n div 256 mod 256 = c\<close>
  show "n div 2 ^ 24 = a" "n div 2 ^ 16 mod 256 = b" "n div 2 ^ 8 mod 256 = c" "n mod 256 = d"
    using assms(1) by simp_all
qed

lemma dev_code_bounds: "wf_version v \<Longrightarrow> dev_code (ph v) < 256"
  by (auto simp: wf_version_def split: phase.splits)

lemma dev_code_le:
  assumes "wf_version v" "wf_version w"
  shows "dev_code (ph v) \<le> dev_code (ph w) \<longleftrightarrow> phase_rank (ph v) \<le> phase_rank (ph w)"
  using assms by (auto simp: wf_version_def split: phase.splits)

lemma version_number_le:
  assumes "wf_version v" "wf_version w"
  shows "version_number v \<le> version_number w \<longleftrightarrow> v \<le> w"
  using assms dev_code_le [OF assms] dev_code_bounds [OF assms(1)] dev_code_bounds [OF assms(2)]
  by (auto simp: version_number_def lex_step wf_version_def less_eq_version_def version_key_def
      simp del: phase_rank.simps dev_code.simps)

lemma version_number_bound: "wf_version v \<Longrightarrow> version_number v < 2 ^ 32"
  using dev_code_bounds [of v] by (simp add: wf_version_def version_number_def)

section \<open>Parsing a printed version\<close>

definition parses_numerals :: "(string \<Rightarrow> i32 option) \<Rightarrow> bool" where
  "parses_numerals parse \<longleftrightarrow> (\<forall>n < 256. parse (show_nat n) = Some (of_nat n))"

lemma show_nat_no:
  assumes "\<not> is_digit c"
  shows "c \<notin> set (show_nat n)"
  using assms show_nat_digits by blast

lemma sep_not_digit [simp]: "\<not> is_digit (CHR ''.'')" "\<not> is_digit (CHR ''-'')"
  by (simp_all add: is_digit_def)

lemma show_nat_no_sep [simp]: "CHR ''.'' \<notin> set (show_nat n)" "CHR ''-'' \<notin> set (show_nat n)"
  by (simp_all add: show_nat_no)

lemma contains_char: "str_contains s [c] \<longleftrightarrow> c \<in> set s"
  unfolding str_contains_iff by (metis append_Cons append_Nil in_set_conv_decomp)

lemma split_dots:
  assumes "CHR ''.'' \<notin> set p"
  shows "split_on (CHR ''.'') (show_nat a @ ''.'' @ show_nat b @ ''.'' @ p) =
    [show_nat a, show_nat b, p]"
  using assms by (simp add: split_on_Cons split_on_single)

lemma patch_and_dev_show:
  assumes "parses_numerals parse" "wf_version v"
  shows "patch_and_dev parse (show_nat (patch v) @ show_phase (ph v)) =
    Some (of_nat (patch v), of_nat (dev_code (ph v)))"
proof -
  have p: "parse (show_nat n) = Some (of_nat n)" if "n < 256" for n
    using assms(1) that by (simp add: parses_numerals_def)
  show ?thesis
  proof (cases "ph v")
    case Ga
    with assms(2) p show ?thesis
      by (simp add: patch_and_dev_def contains_char wf_version_def)
  next
    case Dev
    with assms(2) p show ?thesis
      by (simp add: patch_and_dev_def contains_char wf_version_def split_on_Cons dev_part_def)
  next
    case (Rc n)
    have "of_nat n \<noteq> (0x7FFFFFFF :: i32)"
    proof
      assume "of_nat n = (0x7FFFFFFF :: i32)"
      then have "unat (of_nat n :: i32) = unat (0x7FFFFFFF :: i32)" by simp
      with Rc assms(2) show False by (simp add: wf_version_def unat_of_nat)
    qed
    with Rc assms(2) p show ?thesis
      by (simp add: patch_and_dev_def contains_char wf_version_def split_on_Cons split_on_single
          dev_part_def add.commute)
  qed
qed

lemma module_version_show:
  assumes "parses_numerals parse" "wf_version v"
  shows "module_version parse (show_version v) = Some (of_nat (version_number v))"
proof -
  have p: "parse (show_nat n) = Some (of_nat n)" if "n < 256" for n
    using assms(1) that by (simp add: parses_numerals_def)
  have "CHR ''.'' \<notin> set (show_nat (patch v) @ show_phase (ph v))"
    by (cases "ph v") simp_all
  then have "split_on (CHR ''.'') (show_version v) =
      [show_nat (major v), show_nat (minor v), show_nat (patch v) @ show_phase (ph v)]"
    unfolding show_version_def by (rule split_dots)
  then show ?thesis
    using assms(2) p dev_code_bounds [OF assms(2)] patch_and_dev_show [OF assms]
    by (simp add: module_version_def wf_version_def encode_parts_of_nat version_number_def)
qed

section \<open>Properties\<close>

text \<open>The numeral parser the witnesses run with.\<close>

definition parse_i32 :: "string \<Rightarrow> i32 option" where
  "parse_i32 s = map_option of_nat (parse_nat s)"

lemma parses_numerals_parse_i32: "parses_numerals parse_i32"
  by (simp add: parses_numerals_def parse_i32_def parse_show_nat)

text \<open>The version string of every version with components below 256 compiles, and the four
  bytes of the encoded integer are its major, minor and patch numbers and its phase: 1 for a
  development version, one more than its number for a release candidate, and 0xFF for a
  release.\<close>

theorem module_version_bytes:
  assumes "parses_numerals parse" "wf_version v"
  shows "\<exists>w. module_version parse (show_version v) = Some w
    \<and> unat (drop_bit 24 w) = major v
    \<and> unat (drop_bit 16 w AND 0xFF) = minor v
    \<and> unat (drop_bit 8 w AND 0xFF) = patch v
    \<and> unat (w AND 0xFF) = dev_code (ph v)"
proof (intro exI conjI)
  let ?n = "version_number v"
  show "module_version parse (show_version v) = Some (of_nat ?n)"
    using assms by (rule module_version_show)
  have lt: "?n < 2 ^ 32" using assms(2) by (rule version_number_bound)
  have b: "minor v < 256" "patch v < 256" "dev_code (ph v) < 256"
    using assms(2) dev_code_bounds by (simp_all add: wf_version_def)
  have n: "unat (of_nat ?n :: i32) = ?n"
    using lt by (simp add: unat_of_nat)
  have mask: "unat (x AND 0xFF) = unat x mod 256" for x :: i32
  proof -
    have "x AND 0xFF = take_bit 8 x" by (simp add: take_bit_eq_mask mask_eq_decr_exp)
    then have "unat (x AND 0xFF) = take_bit 8 (unat x)" by (simp only: unsigned_take_bit_eq)
    then show ?thesis by (simp add: take_bit_eq_mod)
  qed
  have drop: "unat (drop_bit k (of_nat ?n :: i32)) = ?n div 2 ^ k" for k
    using lt by (simp only: unsigned_drop_bit_eq) (simp add: drop_bit_eq_div unat_of_nat take_bit_eq_mod)
  show "unat (drop_bit 24 (of_nat ?n :: i32)) = major v"
    "unat (drop_bit 16 (of_nat ?n :: i32) AND 0xFF) = minor v"
    "unat (drop_bit 8 (of_nat ?n :: i32) AND 0xFF) = patch v"
    "unat ((of_nat ?n :: i32) AND 0xFF) = dev_code (ph v)"
    using base256_digits [OF b version_number_def] by (simp_all only: mask drop n)
qed

theorem module_version_bytes_witness:
  "\<exists>w. module_version parse_i32 ''1.1.0-dev'' = Some w \<and> unat (drop_bit 24 w) = 1
     \<and> unat (w AND 0xFF) = 1"
proof -
  have "wf_version (Version 1 1 0 Dev)" by (simp add: wf_version_def)
  moreover have "show_version (Version 1 1 0 Dev) = ''1.1.0-dev''" by code_simp
  ultimately show ?thesis
    using module_version_bytes [OF parses_numerals_parse_i32, of "Version 1 1 0 Dev"] by auto
qed

text \<open>C40. The encoding keeps the order of versions, also when the integer is read as the signed
  \<open>i32\<close> the module reports, as long as the major number stays below 128: a newer version has a
  larger number, and two versions with the same number are equal.\<close>

theorem module_version_ordered:
  assumes "parses_numerals parse" "wf_version v" "wf_version w" "major v < 128" "major w < 128"
    and "module_version parse (show_version v) = Some a"
    and "module_version parse (show_version w) = Some b"
  shows "sint a \<le> sint b \<longleftrightarrow> v \<le> w"
proof -
  have small: "version_number u < 2 ^ 31" if "wf_version u" "major u < 128" for u
    using that dev_code_bounds [OF that(1)] by (simp add: wf_version_def version_number_def)
  have "sint (of_nat n :: i32) = int n" if "n < 2 ^ 31" for n
    using that by (simp add: signed_of_nat signed_take_bit_int_eq_self)
  moreover have "a = of_nat (version_number v)" "b = of_nat (version_number w)"
    using assms by (simp_all add: module_version_show)
  ultimately show ?thesis
    using assms(2-5) small [of v] small [of w] by (simp add: version_number_le [symmetric])
qed

theorem module_version_ordered_witness:
  "sint (0x01000002 :: i32) \<le> sint (0x010000FF :: i32) \<longleftrightarrow> Version 1 0 0 (Rc 1) \<le> Version 1 0 0 Ga"
proof (rule module_version_ordered [OF parses_numerals_parse_i32])
  show wf: "wf_version (Version 1 0 0 (Rc 1))" "wf_version (Version 1 0 0 Ga)"
    by (simp_all add: wf_version_def)
  show "module_version parse_i32 (show_version (Version 1 0 0 (Rc 1))) = Some 0x01000002"
    "module_version parse_i32 (show_version (Version 1 0 0 Ga)) = Some 0x010000FF"
    using wf by (simp_all add: module_version_show parses_numerals_parse_i32 version_number_def)
qed simp_all

end
