(* ===== verification/Settings.thy ===== *)
theory Settings
  imports Errors
begin

text \<open>
  The settings snapshots handed to the LDAP side (\<open>src/src/vkldap/settings.rs\<close>) and the two
  enumerations of the configuration they are built from (the macro \<open>enum_configuration2\<close> and its
  two uses in \<open>src/src/configs.rs\<close>).  A \<open>Duration\<close> is its number of nanoseconds; \<open>usize\<close>, on the
  64-bit targets the module is built for, and \<open>u64\<close> are 64-bit words.
\<close>

type_synonym duration = nat
type_synonym u64 = "64 word"

definition from_secs :: "u64 \<Rightarrow> duration" where
  "from_secs s = unat s * 1000000000"

section \<open>Enumerations of the configuration\<close>

datatype LdapAuthMode = Bind | SearchAndBind

datatype LdapSearchScope = Base | OneLevel | SubTree

text \<open>
  The macro gives every enumeration a table of names and values.  \<open>get_options\<close> returns the two
  columns, \<open>From\<close> the value of a variant, and \<open>TryFrom\<close> the first variant with a given value.
\<close>

type_synonym 'e enum_table = "('e \<times> string \<times> 32 word) list"

definition LdapAuthMode_table :: "LdapAuthMode enum_table" where
  "LdapAuthMode_table = [(Bind, ''bind'', 1), (SearchAndBind, ''search+bind'', 2)]"

definition LdapSearchScope_table :: "LdapSearchScope enum_table" where
  "LdapSearchScope_table = [(Base, ''base'', 1), (OneLevel, ''one'', 2), (SubTree, ''sub'', 3)]"

fun enum_try_from :: "'e enum_table \<Rightarrow> 32 word \<Rightarrow> ValkeyError + 'e" where
  "enum_try_from [] v = Inl (ValkeyStr ''Value is not supported'')"
| "enum_try_from ((e, _, x) # t) v = (if v = x then Inr e else enum_try_from t v)"

fun LdapAuthMode_to_i32 :: "LdapAuthMode \<Rightarrow> 32 word" where
  "LdapAuthMode_to_i32 Bind = 1"
| "LdapAuthMode_to_i32 SearchAndBind = 2"

fun LdapSearchScope_to_i32 :: "LdapSearchScope \<Rightarrow> 32 word" where
  "LdapSearchScope_to_i32 Base = 1"
| "LdapSearchScope_to_i32 OneLevel = 2"
| "LdapSearchScope_to_i32 SubTree = 3"

definition enum_get_options :: "'e enum_table \<Rightarrow> string list \<times> 32 word list" where
  "enum_get_options t = (map (fst \<circ> snd) t, map (snd \<circ> snd) t)"

section \<open>LDAP settings\<close>

text \<open>The search scopes of the client library that the module uses.\<close>

datatype Scope = ScopeBase | ScopeOneLevel | ScopeSubtree

fun Scope_from :: "LdapSearchScope \<Rightarrow> Scope" where
  "Scope_from Base = ScopeBase"
| "Scope_from OneLevel = ScopeOneLevel"
| "Scope_from SubTree = ScopeSubtree"

record VkLdapSettings =
  bind_db_prefix :: string
  bind_db_suffix :: string
  search_base :: "string option"
  search_scope :: Scope
  search_filter :: "string option"
  search_attribute :: "string option"
  search_bind_dn :: "string option"
  search_bind_passwd :: "string option"
  search_dn_attribute :: string
  timeout_ldap_operation :: duration
  groups_search_base :: "string option"
  groups_filter :: "string option"
  groups_member_attribute :: string
  groups_name_attribute :: string
  groups_rules_attribute :: string

definition VkLdapSettings_new ::
  "string \<Rightarrow> string \<Rightarrow> string option \<Rightarrow> LdapSearchScope \<Rightarrow> string option \<Rightarrow> string option
   \<Rightarrow> string option \<Rightarrow> string option \<Rightarrow> string \<Rightarrow> duration \<Rightarrow> string option \<Rightarrow> string option
   \<Rightarrow> string \<Rightarrow> string \<Rightarrow> string \<Rightarrow> VkLdapSettings"
where
  "VkLdapSettings_new prefix suffix sbase scope sfilter sattr bdn bpass dnattr timeout
     gbase gfilter gmember gname grules =
   \<lparr> bind_db_prefix = prefix, bind_db_suffix = suffix, search_base = sbase,
     search_scope = Scope_from scope, search_filter = sfilter, search_attribute = sattr,
     search_bind_dn = bdn, search_bind_passwd = bpass, search_dn_attribute = dnattr,
     timeout_ldap_operation = timeout, groups_search_base = gbase, groups_filter = gfilter,
     groups_member_attribute = gmember, groups_name_attribute = gname,
     groups_rules_attribute = grules \<rparr>"

definition VkLdapSettings_default :: VkLdapSettings where
  "VkLdapSettings_default =
   \<lparr> bind_db_prefix = [], bind_db_suffix = [], search_base = None,
     search_scope = ScopeSubtree, search_filter = None, search_attribute = None,
     search_bind_dn = None, search_bind_passwd = None, search_dn_attribute = [],
     timeout_ldap_operation = 0, groups_search_base = None, groups_filter = None,
     groups_member_attribute = ''member'', groups_name_attribute = ''cn'',
     groups_rules_attribute = ''valkeyACL'' \<rparr>"

section \<open>Connection settings\<close>

record VkConnectionSettings =
  use_starttls :: bool
  ca_cert_path :: "string option"
  client_cert_path :: "string option"
  client_key_path :: "string option"
  connection_pool_size :: u64
  timeout_connection :: duration

definition VkConnectionSettings_new ::
  "bool \<Rightarrow> string option \<Rightarrow> string option \<Rightarrow> string option \<Rightarrow> u64 \<Rightarrow> duration
   \<Rightarrow> VkConnectionSettings"
where
  "VkConnectionSettings_new starttls ca cert key pool_size timeout =
   \<lparr> use_starttls = starttls, ca_cert_path = ca, client_cert_path = cert,
     client_key_path = key, connection_pool_size = pool_size, timeout_connection = timeout \<rparr>"

definition VkConnectionSettings_default :: VkConnectionSettings where
  "VkConnectionSettings_default =
   \<lparr> use_starttls = False, ca_cert_path = None, client_cert_path = None,
     client_key_path = None, connection_pool_size = 0, timeout_connection = 0 \<rparr>"

section \<open>The enumerations are coded without loss\<close>

text \<open>What the server relies on: decoding the code of a variant gives the variant back.\<close>

locale enum_coding =
  fixes table :: "'e enum_table" and to_i32 :: "'e \<Rightarrow> 32 word"
  assumes decode_encode: "enum_try_from table (to_i32 e) = Inr e"
    and names_distinct: "distinct (fst (enum_get_options table))"
    and values_match: "snd (enum_get_options table) = map (to_i32 \<circ> fst) table"
begin

lemma to_i32_inj: "to_i32 e = to_i32 e' \<Longrightarrow> e = e'"
  by (metis decode_encode sum.inject(2))

lemma in_table: "e \<in> fst ` set table"
proof -
  have "enum_try_from t v = Inr e \<Longrightarrow> e \<in> fst ` set t" for t v
    by (induction t v rule: enum_try_from.induct) (auto split: if_splits)
  with decode_encode show ?thesis by blast
qed

lemma decode_some: "enum_try_from t v = Inr e \<Longrightarrow> v \<in> set (map (snd \<circ> snd) t)"
  by (induction t v rule: enum_try_from.induct) (auto split: if_splits)

lemma decode_only_values:
  assumes "enum_try_from table v = Inr e"
  shows "v = to_i32 e"
proof -
  have *: "map (snd \<circ> snd) t = map (to_i32 \<circ> fst) t \<Longrightarrow> enum_try_from t v = Inr e \<Longrightarrow> v = to_i32 e" for t
    by (induction t v rule: enum_try_from.induct) (auto split: if_splits)
  show ?thesis
    using values_match by (intro * [OF _ assms]) (simp add: enum_get_options_def)
qed

end

interpretation auth_mode: enum_coding LdapAuthMode_table LdapAuthMode_to_i32
proof
  fix e show "enum_try_from LdapAuthMode_table (LdapAuthMode_to_i32 e) = Inr e"
    by (cases e) (simp_all add: LdapAuthMode_table_def)
qed (simp_all add: LdapAuthMode_table_def enum_get_options_def)

interpretation scope: enum_coding LdapSearchScope_table LdapSearchScope_to_i32
proof
  fix e show "enum_try_from LdapSearchScope_table (LdapSearchScope_to_i32 e) = Inr e"
    by (cases e) (simp_all add: LdapSearchScope_table_def)
qed (simp_all add: LdapSearchScope_table_def enum_get_options_def)

text \<open>C38. The enumerations survive the trip through the server's integer form: every variant is
  read back from its own value, and every value that is accepted at all is the value of the
  variant it is read as, so no integer is silently taken for another setting.\<close>

theorem enum_roundtrip:
  "(enum_try_from LdapAuthMode_table v = Inr m \<longleftrightarrow> v = LdapAuthMode_to_i32 m)
   \<and> (enum_try_from LdapSearchScope_table v = Inr s \<longleftrightarrow> v = LdapSearchScope_to_i32 s)"
  using auth_mode.decode_encode auth_mode.decode_only_values
    scope.decode_encode scope.decode_only_values by blast

end
