(* ===== verification/Server.thy ===== *)
theory Server
  imports Settings
begin

text \<open>
  An LDAP server of the configured list (\<open>src/src/vkldap/server.rs\<close>).  The type of URLs is that of
  the crate \<open>url\<close>, a type parameter \<open>'u\<close> here; its accessors are parameters of the functions that
  call them.
\<close>

datatype VkLdapServerStatus = HEALTHY | UNHEALTHY string

fun VkLdapServerStatus_fmt :: "VkLdapServerStatus \<Rightarrow> string" where
  "VkLdapServerStatus_fmt HEALTHY = ''HEALTHY''"
| "VkLdapServerStatus_fmt (UNHEALTHY msg) = ''UNHEALTHY: ['' @ msg @ '']''"

text \<open>\<open>PartialEq\<close> compares the discriminants only: two unhealthy states are equal whatever their
  messages.\<close>

fun discriminant :: "VkLdapServerStatus \<Rightarrow> nat" where
  "discriminant HEALTHY = 0"
| "discriminant (UNHEALTHY _) = 1"

definition VkLdapServerStatus_eq :: "VkLdapServerStatus \<Rightarrow> VkLdapServerStatus \<Rightarrow> bool" where
  "VkLdapServerStatus_eq s t \<longleftrightarrow> discriminant s = discriminant t"

record 'u VkLdapServer =
  srv_url :: 'u
  srv_id :: nat
  srv_status :: VkLdapServerStatus
  srv_ping_time :: "duration option"

definition VkLdapServer_new :: "'u \<Rightarrow> nat \<Rightarrow> VkLdapServerStatus \<Rightarrow> 'u VkLdapServer" where
  "VkLdapServer_new url i status =
     \<lparr> srv_url = url, srv_id = i, srv_status = status, srv_ping_time = None \<rparr>"

definition get_url_ref :: "'u VkLdapServer \<Rightarrow> 'u" where
  "get_url_ref s = srv_url s"

definition get_id :: "'u VkLdapServer \<Rightarrow> nat" where
  "get_id s = srv_id s"

definition is_healthy :: "'u VkLdapServer \<Rightarrow> bool" where
  "is_healthy s \<longleftrightarrow> VkLdapServerStatus_eq (srv_status s) HEALTHY"

definition get_status :: "'u VkLdapServer \<Rightarrow> VkLdapServerStatus" where
  "get_status s = srv_status s"

definition set_status :: "VkLdapServerStatus \<Rightarrow> 'u VkLdapServer \<Rightarrow> 'u VkLdapServer" where
  "set_status status s = s\<lparr>srv_status := status\<rparr>"

definition set_ping_time :: "duration option \<Rightarrow> 'u VkLdapServer \<Rightarrow> 'u VkLdapServer" where
  "set_ping_time t s = s\<lparr>srv_ping_time := t\<rparr>"

definition get_ping_time :: "'u VkLdapServer \<Rightarrow> duration option" where
  "get_ping_time s = srv_ping_time s"

text \<open>\<open>Url::host\<close> (as text) and \<open>Url\<close>'s own text are parameters.\<close>

definition get_host_string ::
  "('u \<Rightarrow> string option) \<Rightarrow> ('u \<Rightarrow> string) \<Rightarrow> 'u VkLdapServer \<Rightarrow> string"
where
  "get_host_string url_host url_text s =
     (case url_host (srv_url s) of Some host \<Rightarrow> host | None \<Rightarrow> url_text (srv_url s))"

lemmas server_defs = VkLdapServer_new_def get_url_ref_def get_id_def is_healthy_def get_status_def
  set_status_def set_ping_time_def get_ping_time_def VkLdapServerStatus_eq_def

lemma is_healthy_iff [simp]: "is_healthy s \<longleftrightarrow> srv_status s = HEALTHY"
  by (cases "srv_status s") (simp_all add: server_defs)

end
