(* ===== verification/Logging.thy ===== *)
theory Logging
  imports Text
begin

text \<open>
  The logger (\<open>src/src/logging.rs\<close>): the levels, the call into the server's C logging function,
  which takes C strings, and the global logger, which owns a detached thread-safe context of the
  server.

  The server's side is its live contexts and the lines it was given.  A context pointer is a
  number, and \<open>None\<close> is the null pointer.  Freeing or using a context that is not live is
  undefined behaviour of the server, which \<open>Undefined\<close> stands for.
\<close>

datatype Level = LevelError | LevelWarn | LevelInfo | LevelDebug | LevelTrace

datatype ValkeyLogLevel = Debug | Notice | Verbose | Warning

fun ValkeyLogLevel_from :: "Level \<Rightarrow> ValkeyLogLevel" where
  "ValkeyLogLevel_from LevelError = Warning"
| "ValkeyLogLevel_from LevelWarn = Warning"
| "ValkeyLogLevel_from LevelInfo = Notice"
| "ValkeyLogLevel_from LevelDebug = Verbose"
| "ValkeyLogLevel_from LevelTrace = Debug"

fun ValkeyLogLevel_as_ref :: "ValkeyLogLevel \<Rightarrow> string" where
  "ValkeyLogLevel_as_ref Debug = ''debug''"
| "ValkeyLogLevel_as_ref Notice = ''notice''"
| "ValkeyLogLevel_as_ref Verbose = ''verbose''"
| "ValkeyLogLevel_as_ref Warning = ''warning''"

record log_server =
  live :: "nat list"                              \<comment> \<open>contexts handed out and not freed\<close>
  lines :: "(nat \<times> string \<times> string) list"        \<comment> \<open>context, level and message of each line\<close>

datatype log_error = Undefined

type_synonym 'a logged = "(log_error, 'a) outcome"

text \<open>\<open>CString::new\<close> fails on a null character, and its \<open>unwrap\<close> then panics.\<close>

definition CString_new :: "string \<Rightarrow> string option" where
  "CString_new s = (if nul \<in> set s then None else Some s)"

definition log_internal ::
  "nat \<Rightarrow> ValkeyLogLevel \<Rightarrow> string \<Rightarrow> log_server \<Rightarrow> unit logged \<times> log_server"
where
  "log_internal ctx level message srv =
     (case CString_new (ValkeyLogLevel_as_ref level) of
        None \<Rightarrow> (Panic, srv)
      | Some lvl \<Rightarrow>
          (case CString_new message of
             None \<Rightarrow> (Panic, srv)
           | Some fmt \<Rightarrow>
               if ctx \<in> set (live srv) then (Ok (), srv\<lparr>lines := lines srv @ [(ctx, lvl, fmt)]\<rparr>)
               else (Err Undefined, srv)))"

section \<open>The global logger\<close>

record logger =
  log_context :: "nat option"
  log_poisoned :: bool         \<comment> \<open>a panic has happened with the mutex on the context held\<close>
  log_installed :: bool        \<comment> \<open>\<open>log::set_logger\<close> has succeeded\<close>
  log_max_level :: bool        \<comment> \<open>the maximal level has been raised to \<open>Trace\<close>\<close>

definition ValkeyGlobalLogger_new :: logger where
  "ValkeyGlobalLogger_new = \<lparr>log_context = None, log_poisoned = False, log_installed = False, log_max_level = False\<rparr>"

definition free_context :: "nat \<Rightarrow> log_server \<Rightarrow> unit logged \<times> log_server" where
  "free_context c srv =
     (if c \<in> set (live srv) then (Ok (), srv\<lparr>live := remove1 c (live srv)\<rparr>) else (Err Undefined, srv))"

text \<open>The server answers the request for a detached context with the pointer \<open>p\<close>.\<close>

definition detached_context :: "nat \<Rightarrow> log_server \<Rightarrow> log_server" where
  "detached_context p srv = srv\<lparr>live := p # live srv\<rparr>"

definition logger_init :: "nat \<Rightarrow> logger \<Rightarrow> log_server \<Rightarrow> unit logged \<times> logger \<times> log_server" where
  "logger_init p lg srv =
     (if log_poisoned lg then (Panic, lg, srv) else case log_context lg of
        Some c \<Rightarrow>
          (case free_context c srv of
             (Ok _, srv') \<Rightarrow> (Ok (), lg\<lparr>log_context := Some p\<rparr>, detached_context p srv')
           | (r, srv') \<Rightarrow> (r, lg, srv'))
      | None \<Rightarrow> (Ok (), lg\<lparr>log_context := Some p\<rparr>, detached_context p srv))"

definition logger_deinit :: "logger \<Rightarrow> log_server \<Rightarrow> unit logged \<times> logger \<times> log_server" where
  "logger_deinit lg srv =
     (if log_poisoned lg then (Panic, lg, srv) else case log_context lg of
        Some c \<Rightarrow>
          (case free_context c srv of
             (Ok _, srv') \<Rightarrow> (Ok (), lg\<lparr>log_context := None\<rparr>, srv')
           | (r, srv') \<Rightarrow> (r, lg, srv'))
      | None \<Rightarrow> (Ok (), lg, srv))"

text \<open>
  \<open>setup_for_context\<close>: the result \<open>False\<close> is the error of \<open>log::set_logger\<close>, which only the first
  call in a process can avoid; the level is raised after a success only.
\<close>

definition setup_for_context ::
  "nat \<Rightarrow> logger \<Rightarrow> log_server \<Rightarrow> bool logged \<times> logger \<times> log_server"
where
  "setup_for_context p lg srv =
     (case logger_init p lg srv of
        (Ok _, lg', srv') \<Rightarrow>
          if log_installed lg' then (Ok False, lg', srv')
          else (Ok True, lg'\<lparr>log_installed := True, log_max_level := True\<rparr>, srv')
      | (Err e, lg', srv') \<Rightarrow> (Err e, lg', srv')
      | (_, lg', srv') \<Rightarrow> (Panic, lg', srv'))"

definition teardown :: "logger \<Rightarrow> log_server \<Rightarrow> unit logged \<times> logger \<times> log_server" where
  "teardown lg srv = logger_deinit lg srv"

text \<open>A record: its level, the place it was written (module, file, line) and its text.\<close>

record log_record =
  rec_level :: Level
  rec_module :: "string option"
  rec_file :: "string option"
  rec_line :: "nat option"
  rec_args :: string

definition verbose_message :: "log_record \<Rightarrow> string" where
  "verbose_message r =
     CHR 0x27 # (case rec_module r of Some m \<Rightarrow> m | None \<Rightarrow> []) @ CHR 0x27 # '' '' @
     (case rec_file r of Some f \<Rightarrow> f | None \<Rightarrow> ''Unknown'') @ '':'' @
     show_nat (case rec_line r of Some n \<Rightarrow> n | None \<Rightarrow> 0) @ '': '' @ rec_args r"

definition log_message :: "log_record \<Rightarrow> string" where
  "log_message r =
     (case rec_level r of
        LevelDebug \<Rightarrow> verbose_message r
      | LevelTrace \<Rightarrow> verbose_message r
      | _ \<Rightarrow> rec_args r)"

text \<open>The guard of the mutex is still held in the call of \<open>log_internal\<close>, whose panic poisons it.\<close>

definition logger_log ::
  "logger \<Rightarrow> log_record \<Rightarrow> log_server \<Rightarrow> unit logged \<times> logger \<times> log_server"
where
  "logger_log lg r srv =
     (let message = log_message r
      in if log_poisoned lg then (Panic, lg, srv)
      else (case log_context lg of
              Some c \<Rightarrow>
                (case log_internal c (ValkeyLogLevel_from (rec_level r)) message srv of
                   (Panic, srv) \<Rightarrow> (Panic, lg\<lparr>log_poisoned := True\<rparr>, srv)
                 | (x, srv) \<Rightarrow> (x, lg, srv))
            | None \<Rightarrow> (Ok (), lg, srv)))"

section \<open>The life of the context\<close>

text \<open>
  What the module does with the logger, in any order: it sets it up when it is loaded, tears it
  down when it is unloaded, and logs at any time, before, between and after.
\<close>

datatype log_event = Setup nat | Teardown | Log log_record

fun log_step :: "log_event \<Rightarrow> logger \<times> log_server \<Rightarrow> bool logged \<times> logger \<times> log_server" where
  "log_step (Setup p) (lg, srv) = setup_for_context p lg srv"
| "log_step Teardown (lg, srv) =
     (case teardown lg srv of (Ok _, s) \<Rightarrow> (Ok True, s) | (Err e, s) \<Rightarrow> (Err e, s) | (_, s) \<Rightarrow> (Panic, s))"
| "log_step (Log r) (lg, srv) =
     (case logger_log lg r srv of
        (Ok _, s) \<Rightarrow> (Ok True, s)
      | (Err e, s) \<Rightarrow> (Err e, s)
      | (_, s) \<Rightarrow> (Panic, s))"

text \<open>A panic ends the calling task, but the logger and the server live on.\<close>

fun log_run :: "log_event list \<Rightarrow> logger \<times> log_server \<Rightarrow> bool logged list \<times> logger \<times> log_server" where
  "log_run [] s = ([], s)"
| "log_run (e # es) s =
     (let (r, s') = log_step e s; (rs, s'') = log_run es s' in (r # rs, s''))"

text \<open>The logger's context, if it has one, is the only one of the logger's that is live.\<close>

definition log_inv :: "nat list \<Rightarrow> logger \<times> log_server \<Rightarrow> bool" where
  "log_inv others = (\<lambda>(lg, srv). live srv = (case log_context lg of Some c \<Rightarrow> c # others | None \<Rightarrow> others))"

lemma log_run_Cons:
  "fst (log_run (e # es) s) = fst (log_step e s) # fst (log_run es (snd (log_step e s)))"
  "snd (log_run (e # es) s) = snd (log_run es (snd (log_step e s)))"
  by (simp_all add: Let_def split_def)

declare log_run.simps(2) [simp del] log_run_Cons [simp]

lemma log_run_append: "snd (log_run (xs @ ys) s) = snd (log_run ys (snd (log_run xs s)))"
  by (induction xs arbitrary: s) simp_all

lemma level_name_no_nul: "nul \<notin> set (ValkeyLogLevel_as_ref l)"
  by (cases l) simp_all

lemma log_step_inv:
  assumes "log_inv others s"
  shows "log_inv others (snd (log_step e s)) \<and> fst (log_step e s) \<noteq> Err Undefined"
  using assms
  by (cases e; cases s; cases "log_context (fst s)")
    (auto simp: log_inv_def setup_for_context_def logger_init_def teardown_def logger_deinit_def
      free_context_def detached_context_def logger_log_def log_internal_def
      split: option.splits)

lemma log_run_inv:
  "log_inv others s \<Longrightarrow> log_inv others (snd (log_run es s)) \<and> Err Undefined \<notin> set (fst (log_run es s))"
proof (induction es arbitrary: s)
  case (Cons e es)
  show ?case
    using log_step_inv [OF Cons.prems, of e] Cons.IH [of "snd (log_step e s)"] by auto
qed simp

lemma teardown_frees:
  "log_inv others s \<Longrightarrow> \<not> log_poisoned (fst s) \<Longrightarrow> live (snd (snd (log_step Teardown s))) = others"
  by (cases s; cases "log_context (fst s)")
    (auto simp: log_inv_def teardown_def logger_deinit_def free_context_def)

lemma poisoned_step:
  "log_poisoned (fst s) \<Longrightarrow> log_step e s = (Panic, s)"
  by (cases e; cases s)
    (auto simp: setup_for_context_def logger_init_def teardown_def logger_deinit_def logger_log_def)

lemma poisoned_run: "log_poisoned (fst s) \<Longrightarrow> log_run es s = (replicate (length es) Panic, s)"
  by (induction es) (simp_all add: prod_eq_iff poisoned_step del: log_step.simps)

lemma logger_log_Panic:
  "fst (logger_log lg r srv) = Panic \<longleftrightarrow>
    log_poisoned lg \<or> (log_context lg \<noteq> None \<and> nul \<in> set (log_message r))"
  by (auto simp: logger_log_def log_internal_def CString_new_def level_name_no_nul Let_def
      split: option.splits)

lemma logger_log_poisons:
  "fst (logger_log lg r srv) = Panic \<Longrightarrow> log_poisoned (fst (snd (logger_log lg r srv)))"
  by (auto simp: logger_log_def log_internal_def CString_new_def level_name_no_nul Let_def
      split: option.splits if_splits)

text \<open>
  The \<open>log\<close> crate passes a record on only when a logger is installed and the maximal level allows it.
  The logger's own state makes no difference before that: it has no context and is not poisoned.
\<close>

definition log_ready :: "logger \<Rightarrow> bool" where
  "log_ready lg \<longleftrightarrow> (log_installed lg \<longrightarrow> log_max_level lg)
     \<and> (log_context lg \<noteq> None \<or> log_poisoned lg \<longrightarrow> log_installed lg)"

lemma log_ready_step: "log_ready (fst s) \<Longrightarrow> log_ready (fst (snd (log_step e s)))"
  by (cases e; cases s)
    (auto simp: log_ready_def setup_for_context_def logger_init_def teardown_def logger_deinit_def
      free_context_def logger_log_def log_internal_def Let_def split: option.splits if_splits)

lemma log_ready_run: "log_ready (fst s) \<Longrightarrow> log_ready (fst (snd (log_run es s)))"
  by (induction es arbitrary: s) (simp_all add: log_ready_step del: log_step.simps)

lemma log_ready_always: "log_ready (fst (snd (log_run es (ValkeyGlobalLogger_new, srv))))"
  by (rule log_ready_run) (simp add: log_ready_def ValkeyGlobalLogger_new_def)

lemma logger_log_filtered:
  assumes "log_ready lg" "\<not> (log_installed lg \<and> log_max_level lg)"
  shows "logger_log lg r srv = (Ok (), lg, srv)"
  using assms by (auto simp: log_ready_def logger_log_def)

text \<open>C33. However the module is loaded, unloaded and used, the logger never frees a context twice
  and never uses one that was freed, and it holds at most one live context, which the last
  \<open>teardown\<close> gives back, unless the logger has been poisoned: after it only the contexts of others
  are live.\<close>

theorem logger_context_safe:
  "Err Undefined \<notin> set (fst (log_run es (ValkeyGlobalLogger_new, \<lparr>live = others, lines = []\<rparr>)))
   \<and> (log_poisoned (fst (snd (log_run es (ValkeyGlobalLogger_new, \<lparr>live = others, lines = []\<rparr>))))
      \<or> live (snd (snd (log_run (es @ [Teardown]) (ValkeyGlobalLogger_new, \<lparr>live = others, lines = []\<rparr>))))
        = others)"
proof -
  let ?s = "(ValkeyGlobalLogger_new, \<lparr>live = others, lines = []\<rparr>)"
  have "log_inv others ?s"
    by (simp add: log_inv_def ValkeyGlobalLogger_new_def)
  from log_run_inv [OF this, of es] show ?thesis
    by (cases "log_poisoned (fst (snd (log_run es ?s)))")
      (simp_all add: log_run_append teardown_frees del: log_step.simps)
qed

text \<open>A text with a null character logged once stops the logger for good: that call panics, and
  so does everything done with the logger afterwards, the next loading and unloading of the module
  included, whose context is never freed.  User names reach the log unchecked.\<close>

theorem nul_stops_logger:
  assumes "log_context lg = Some c" and "nul \<in> set (log_message r)"
  shows "fst (log_run (Log r # es) (lg, srv)) = replicate (Suc (length es)) Panic
    \<and> live (snd (snd (log_run (Log r # es) (lg, srv)))) = live srv"
proof -
  have panic: "fst (logger_log lg r srv) = Panic" using assms by (simp add: logger_log_Panic)
  then have step: "log_step (Log r) (lg, srv) = (Panic, snd (logger_log lg r srv))"
    by (cases "logger_log lg r srv") simp
  have "live (snd (snd (logger_log lg r srv))) = live srv"
    using assms by (simp add: logger_log_def log_internal_def CString_new_def level_name_no_nul)
  with poisoned_run [OF logger_log_poisons [OF panic]] show ?thesis
    by (simp add: step del: log_step.simps)
qed

theorem nul_stops_logger_witness:
  "fst (log_run [Log \<lparr>rec_level = LevelError, rec_module = None, rec_file = None, rec_line = None, rec_args = [nul]\<rparr>, Teardown]
     (ValkeyGlobalLogger_new\<lparr>log_context := Some 7\<rparr>, \<lparr>live = [7], lines = []\<rparr>)) = [Panic, Panic]"
  using nul_stops_logger [of "ValkeyGlobalLogger_new\<lparr>log_context := Some 7\<rparr>" 7
      "\<lparr>rec_level = LevelError, rec_module = None, rec_file = None, rec_line = None, rec_args = [nul]\<rparr>"
      "[Teardown]" "\<lparr>live = [7], lines = []\<rparr>"]
  by (simp add: log_message_def numeral_2_eq_2)

end
