(* ===== verification/Connection.thy ===== *)
theory Connection
  imports Server
begin

text \<open>
  One LDAP connection (\<open>VkLdapConnection\<close> of \<open>src/src/vkldap/connection.rs\<close>): how it is made,
  with or without TLS, and the requests the module sends over it.

  The crates \<open>ldap3\<close>, \<open>native_tls\<close> and \<open>url\<close>, the file system and the directory servers are the
  parameter \<open>env\<close>, a record of the functions the sources call.  They act on a world \<open>'w\<close> that the
  model passes along; \<open>'u\<close> is the type of URLs and \<open>'c\<close> that of connection handles.  Certificates,
  identities and connectors are opaque texts, and an entry of a search result is its attribute
  table.
\<close>

type_synonym entry = "string \<Rightarrow> string list option"

record tls_builder =
  root_certificates :: "string list"
  client_identity :: "string option"

record LdapConnSettings =
  tls_connector :: "string option"
  starttls :: bool
  conn_timeout :: "duration option"

record ('u, 'c, 'w) ldap_env =
  url_scheme :: "'u \<Rightarrow> string"
  fs_read :: "string \<Rightarrow> 'w \<Rightarrow> (io_error + string) \<times> 'w"
  certificate_from_pem :: "string \<Rightarrow> tls_error + string"
  identity_from_pkcs8 :: "string \<Rightarrow> string \<Rightarrow> tls_error + string"
  build_connector :: "tls_builder \<Rightarrow> tls_error + string"
  connect :: "LdapConnSettings \<Rightarrow> 'u \<Rightarrow> 'w \<Rightarrow> (LdapError + 'c) \<times> 'w"
  simple_bind :: "'c \<Rightarrow> duration \<Rightarrow> string \<Rightarrow> string \<Rightarrow> 'w \<Rightarrow> unit ldap_reply \<times> 'w"
  search_request ::
    "'c \<Rightarrow> duration \<Rightarrow> string \<Rightarrow> Scope \<Rightarrow> string \<Rightarrow> string list \<Rightarrow> 'w \<Rightarrow> entry list ldap_reply \<times> 'w"
  who_am_i :: "'c \<Rightarrow> 'w \<Rightarrow> unit ldap_reply \<times> 'w"
  unbind :: "'c \<Rightarrow> 'w \<Rightarrow> 'w"
  ldap_escape :: "string \<Rightarrow> string"

text \<open>A request whose reply the macro \<open>handle_ldap_error\<close> reads.\<close>

definition request ::
  "'a ldap_reply \<times> 'w \<Rightarrow> (LdapError \<Rightarrow> VkLdapError) \<Rightarrow> 'a result \<times> 'w"
where
  "request rw errtype = (handle_ldap_error (fst rw) errtype, snd rw)"

section \<open>Making a connection\<close>

definition LdapConnSettings_new :: LdapConnSettings where
  "LdapConnSettings_new = \<lparr>tls_connector = None, starttls = False, conn_timeout = None\<rparr>"

definition read_file ::
  "('u, 'c, 'w) ldap_env \<Rightarrow> string \<Rightarrow> string \<Rightarrow> 'w \<Rightarrow> string result \<times> 'w"
where
  "read_file env path errmsg w =
     (let (r, w') = fs_read env path w in (handle_io_error r errmsg, w'))"

definition add_ca_certificate ::
  "('u, 'c, 'w) ldap_env \<Rightarrow> VkConnectionSettings \<Rightarrow> tls_builder \<Rightarrow> 'w \<Rightarrow> tls_builder result \<times> 'w"
where
  "add_ca_certificate env settings b w =
     (case ca_cert_path settings of
        None \<Rightarrow> (Inr b, w)
      | Some path \<Rightarrow>
          try_then (read_file env path ''failed to read CA cert file'' w) (\<lambda>ca_cert_bytes w.
          try_then (handle_tls_error (certificate_from_pem env ca_cert_bytes)
            ''failed to load CA certificate'', w) (\<lambda>ca_cert w.
          (Inr (b\<lparr>root_certificates := root_certificates b @ [ca_cert]\<rparr>), w))))"

definition add_client_identity ::
  "('u, 'c, 'w) ldap_env \<Rightarrow> VkConnectionSettings \<Rightarrow> tls_builder \<Rightarrow> 'w \<Rightarrow> tls_builder result \<times> 'w"
where
  "add_client_identity env settings b w =
     (case client_cert_path settings of
        None \<Rightarrow> (Inr b, w)
      | Some cert_path \<Rightarrow>
          (case client_key_path settings of
             None \<Rightarrow> (Inl NoTLSKeyPathSet, w)
           | Some key_path \<Rightarrow>
               try_then (read_file env cert_path ''failed to read client certificate file'' w)
                 (\<lambda>cert_bytes w.
               try_then (read_file env key_path ''failed to read client key file'' w)
                 (\<lambda>key_bytes w.
               try_then (handle_tls_error (identity_from_pkcs8 env cert_bytes key_bytes)
                 ''failed to load client certificate'', w) (\<lambda>client_cert w.
               (Inr (b\<lparr>client_identity := Some client_cert\<rparr>), w))))))"

definition tls_settings ::
  "('u, 'c, 'w) ldap_env \<Rightarrow> VkConnectionSettings \<Rightarrow> 'w \<Rightarrow> LdapConnSettings result \<times> 'w"
where
  "tls_settings env settings w =
     try_then (add_ca_certificate env settings \<lparr>root_certificates = [], client_identity = None\<rparr> w)
       (\<lambda>b w.
     try_then (add_client_identity env settings b w) (\<lambda>b w.
     try_then (handle_tls_error (build_connector env b) ''failed to setup TLS connection'', w)
       (\<lambda>connector w.
     (Inr (LdapConnSettings_new\<lparr>tls_connector := Some connector,
        starttls := use_starttls settings\<rparr>), w))))"

definition requires_tls :: "('u, 'c, 'w) ldap_env \<Rightarrow> VkConnectionSettings \<Rightarrow> 'u \<Rightarrow> bool" where
  "requires_tls env settings server_url \<longleftrightarrow>
     url_scheme env server_url = ''ldaps'' \<or> use_starttls settings"

definition create_ldap_connection ::
  "('u, 'c, 'w) ldap_env \<Rightarrow> VkConnectionSettings \<Rightarrow> 'u \<Rightarrow> 'w \<Rightarrow> 'c result \<times> 'w"
where
  "create_ldap_connection env settings server_url w =
     try_then
       (if requires_tls env settings server_url then tls_settings env settings w
        else (Inr LdapConnSettings_new, w)) (\<lambda>ldap_conn_settings w.
     let (r, w') = connect env
           (ldap_conn_settings\<lparr>conn_timeout := Some (timeout_connection settings)\<rparr>) server_url w
     in (case r of Inr handler \<Rightarrow> Inr handler | Inl err \<Rightarrow> Inl (LdapConnectionError err), w'))"

definition VkLdapConnection_new ::
  "('u, 'c, 'w) ldap_env \<Rightarrow> VkConnectionSettings \<Rightarrow> 'u VkLdapServer \<Rightarrow> 'w \<Rightarrow> 'c result \<times> 'w"
where
  "VkLdapConnection_new env settings server w =
     create_ldap_connection env settings (get_url_ref server) w"

section \<open>Requests\<close>

definition ping :: "('u, 'c, 'w) ldap_env \<Rightarrow> 'c \<Rightarrow> 'w \<Rightarrow> unit result \<times> 'w" where
  "ping env c w = request (who_am_i env c w) LdapServerPingError"

definition bind ::
  "('u, 'c, 'w) ldap_env \<Rightarrow> 'c \<Rightarrow> string \<Rightarrow> string \<Rightarrow> duration \<Rightarrow> 'w \<Rightarrow> unit result \<times> 'w"
where
  "bind env c user_dn password timeout w =
     request (simple_bind env c timeout user_dn password w) LdapBindError"

definition close :: "('u, 'c, 'w) ldap_env \<Rightarrow> 'c \<Rightarrow> 'w \<Rightarrow> 'w" where
  "close env c w = unbind env c w"

text \<open>The bind as the search user, done when both its name and its password are configured.\<close>

definition admin_bind ::
  "('u, 'c, 'w) ldap_env \<Rightarrow> 'c \<Rightarrow> VkLdapSettings \<Rightarrow> duration \<Rightarrow> 'w \<Rightarrow> unit result \<times> 'w"
where
  "admin_bind env c settings timeout w =
     (case search_bind_dn settings of
        Some bind_dn \<Rightarrow>
          (case search_bind_passwd settings of
             Some bind_passwd \<Rightarrow>
               request (simple_bind env c timeout bind_dn bind_passwd w) LdapAdminBindError
           | None \<Rightarrow> (Inr (), w))
      | None \<Rightarrow> (Inr (), w))"

definition and_filter :: "string \<Rightarrow> string \<Rightarrow> string \<Rightarrow> string" where
  "and_filter sfilter attribute val =
     ''(&('' @ sfilter @ '')('' @ attribute @ ''='' @ val @ ''))''"

definition user_filter :: "VkLdapSettings \<Rightarrow> string \<Rightarrow> string" where
  "user_filter settings username =
     and_filter
       (case search_filter settings of Some sfilter \<Rightarrow> sfilter | None \<Rightarrow> ''objectClass=*'')
       (case search_attribute settings of Some sattribute \<Rightarrow> sattribute | None \<Rightarrow> ''uid'')
       username"

text \<open>What becomes of the entries found: exactly one is wanted, with the attribute that names it;
  its first value is taken, and indexing an empty list of values panics.\<close>

definition user_dn_of_entries ::
  "string \<Rightarrow> string \<Rightarrow> entry list \<Rightarrow> (VkLdapError, string) outcome"
where
  "user_dn_of_entries s_filter dn_attribute rs =
     (case rs of
        [] \<Rightarrow> Err (NoLdapEntryFound s_filter)
      | [sentry] \<Rightarrow>
          (case sentry dn_attribute of
             None \<Rightarrow> Err (InvalidDNAttribute dn_attribute)
           | Some [] \<Rightarrow> Panic
           | Some (v # _) \<Rightarrow> Ok v)
      | _ \<Rightarrow> Err (MultipleEntryFound s_filter))"

definition search ::
  "('u, 'c, 'w) ldap_env \<Rightarrow> 'c \<Rightarrow> VkLdapSettings \<Rightarrow> string \<Rightarrow> duration \<Rightarrow> 'w
   \<Rightarrow> (VkLdapError, string) outcome \<times> 'w"
where
  "search env c settings username timeout w =
     and_then (result_of (admin_bind env c settings timeout w)) (\<lambda>_ w.
     let base = (case search_base settings of Some sbase \<Rightarrow> sbase | None \<Rightarrow> []);
         s_filter = user_filter settings username;
         dn_attribute = search_dn_attribute settings
     in and_then (result_of (request
          (search_request env c timeout base (search_scope settings) s_filter [dn_attribute] w)
          LdapSearchError)) (\<lambda>rs w.
     (user_dn_of_entries s_filter dn_attribute rs, w)))"

definition prepare_group_search ::
  "('u, 'c, 'w) ldap_env \<Rightarrow> 'c \<Rightarrow> VkLdapSettings \<Rightarrow> duration \<Rightarrow> 'w \<Rightarrow> (string \<times> string) result \<times> 'w"
where
  "prepare_group_search env c settings timeout w =
     try_then (admin_bind env c settings timeout w) (\<lambda>_ w.
     let base = (case groups_search_base settings of
                   Some b \<Rightarrow> b
                 | None \<Rightarrow> (case search_base settings of Some b \<Rightarrow> b | None \<Rightarrow> []));
         g_filter = (case groups_filter settings of
                     Some f \<Rightarrow> f | None \<Rightarrow> ''objectClass=groupOfNames'')
     in (Inr (base, g_filter), w))"

text \<open>The request both group searches send, for the attribute they want.\<close>

definition group_request ::
  "('u, 'c, 'w) ldap_env \<Rightarrow> 'c \<Rightarrow> VkLdapSettings \<Rightarrow> string \<Rightarrow> string \<Rightarrow> duration \<Rightarrow> 'w
   \<Rightarrow> entry list result \<times> 'w"
where
  "group_request env c settings attr user_dn timeout w =
     try_then (prepare_group_search env c settings timeout w) (\<lambda>(base, g_filter) w.
     let s_filter =
           and_filter g_filter (groups_member_attribute settings) (ldap_escape env user_dn)
     in request
          (search_request env c timeout base (search_scope settings) s_filter [attr] w)
          LdapSearchError)"

fun collect_groups :: "string \<Rightarrow> entry list \<Rightarrow> string list \<Rightarrow> string list" where
  "collect_groups name_attr [] groups = groups"
| "collect_groups name_attr (sentry # rs) groups =
     collect_groups name_attr rs
       (case sentry name_attr of Some vals \<Rightarrow> groups @ vals | None \<Rightarrow> groups)"

definition search_groups ::
  "('u, 'c, 'w) ldap_env \<Rightarrow> 'c \<Rightarrow> VkLdapSettings \<Rightarrow> string \<Rightarrow> duration \<Rightarrow> 'w
   \<Rightarrow> string list result \<times> 'w"
where
  "search_groups env c settings user_dn timeout w =
     try_then (group_request env c settings (groups_name_attribute settings) user_dn timeout w)
       (\<lambda>rs w. (Inr (collect_groups (groups_name_attribute settings) rs []), w))"

text \<open>The loop over the tokens of one value, with the rules so far and the set of those seen.\<close>

definition add_token :: "string \<Rightarrow> string list \<times> string set \<Rightarrow> string list \<times> string set" where
  "add_token tok acc = (let t = trim tok in if t \<noteq> [] then remember t acc else acc)"

fun collect_rules ::
  "string \<Rightarrow> entry list \<Rightarrow> string list \<times> string set \<Rightarrow> string list \<times> string set"
where
  "collect_rules rules_attr [] acc = acc"
| "collect_rules rules_attr (sentry # rs) acc =
     collect_rules rules_attr rs
       (case sentry rules_attr of
          Some vals \<Rightarrow> fold (\<lambda>v. fold add_token (split_whitespace v)) vals acc
        | None \<Rightarrow> acc)"

definition search_groups_rules ::
  "('u, 'c, 'w) ldap_env \<Rightarrow> 'c \<Rightarrow> VkLdapSettings \<Rightarrow> string \<Rightarrow> duration \<Rightarrow> 'w
   \<Rightarrow> string list result \<times> 'w"
where
  "search_groups_rules env c settings user_dn timeout w =
     try_then (group_request env c settings (groups_rules_attribute settings) user_dn timeout w)
       (\<lambda>rs w. (Inr (fst (collect_rules (groups_rules_attribute settings) rs ([], {}))), w))"

section \<open>Lemmas\<close>

text \<open>The values of one attribute over the entries found, in order.\<close>

definition attr_values :: "string \<Rightarrow> entry list \<Rightarrow> string list" where
  "attr_values a rs = concat (map (\<lambda>e. case e a of Some vals \<Rightarrow> vals | None \<Rightarrow> []) rs)"

lemma collect_groups_eq: "collect_groups a rs groups = groups @ attr_values a rs"
  by (induction a rs groups rule: collect_groups.induct)
    (auto simp: attr_values_def split: option.splits)

lemma fold_add_token:
  "fold add_token (split_whitespace v) acc = fold remember (split_whitespace v) acc"
  by (rule fold_cong)
    (auto simp: fun_eq_iff add_token_def str_simps dest: split_whitespace_token)

lemma fold_tokens:
  "fold (\<lambda>v. fold add_token (split_whitespace v)) vals acc =
   fold remember (concat (map split_whitespace vals)) acc"
  by (induction vals arbitrary: acc) (simp_all add: fold_add_token)

lemma collect_rules_eq:
  "collect_rules a rs acc = fold remember (concat (map split_whitespace (attr_values a rs))) acc"
  by (induction a rs acc rule: collect_rules.induct)
    (auto simp: attr_values_def fold_tokens split: option.splits)

lemma request_Inr [simp]: "request rw errtype = (Inr a, w) \<longleftrightarrow> rw = (Inr (Inr a), w)"
  by (cases rw) (auto simp: request_def)

lemma bind_Inr [simp]:
  "bind env c dn pw t w = (Inr (), w') \<longleftrightarrow> simple_bind env c t dn pw w = (Inr (Inr ()), w')"
  by (simp add: bind_def)

lemma search_never_stuck: "fst (search env c settings username t w) \<noteq> Stuck"
  unfolding search_def Let_def
  by (intro and_then_not_Stuck)
    (auto simp: user_dn_of_entries_def split: list.splits option.splits)

section \<open>What a secure connection is made of\<close>

text \<open>The certificates the connector is to trust, and the identity it is to show, according to the
  settings, with the worlds before and after the files were read.\<close>

definition configured_ca ::
  "('u, 'c, 'w) ldap_env \<Rightarrow> VkConnectionSettings \<Rightarrow> 'w \<Rightarrow> string list \<Rightarrow> 'w \<Rightarrow> bool"
where
  "configured_ca env settings w cas w' \<longleftrightarrow>
     (case ca_cert_path settings of
        None \<Rightarrow> cas = [] \<and> w' = w
      | Some path \<Rightarrow> \<exists>bytes ca. fs_read env path w = (Inr bytes, w')
          \<and> certificate_from_pem env bytes = Inr ca \<and> cas = [ca])"

definition configured_identity ::
  "('u, 'c, 'w) ldap_env \<Rightarrow> VkConnectionSettings \<Rightarrow> 'w \<Rightarrow> string option \<Rightarrow> 'w \<Rightarrow> bool"
where
  "configured_identity env settings w ident w' \<longleftrightarrow>
     (case client_cert_path settings of
        None \<Rightarrow> ident = None \<and> w' = w
      | Some cert_path \<Rightarrow> \<exists>key_path cert key i w1. client_key_path settings = Some key_path
          \<and> fs_read env cert_path w = (Inr cert, w1) \<and> fs_read env key_path w1 = (Inr key, w')
          \<and> identity_from_pkcs8 env cert key = Inr i \<and> ident = Some i)"

lemma read_file_iff: "read_file env path msg w = (Inr bytes, w') \<longleftrightarrow> fs_read env path w = (Inr bytes, w')"
  by (cases "fs_read env path w") (auto simp: read_file_def handle_io_error_def split: sum.splits)

lemma handle_tls_iff [simp]: "handle_tls_error r msg = Inr a \<longleftrightarrow> r = Inr a"
  by (cases r) (simp_all add: handle_tls_error_def)

lemma add_ca_iff:
  "add_ca_certificate env settings b w = (Inr b', w') \<longleftrightarrow>
    (\<exists>cas. configured_ca env settings w cas w' \<and> b' = b\<lparr>root_certificates := root_certificates b @ cas\<rparr>)"
  by (auto simp: add_ca_certificate_def configured_ca_def try_then_Inr_iff read_file_iff split: option.splits)

lemma add_identity_iff:
  assumes "client_identity b = None"
  shows "add_client_identity env settings b w = (Inr b', w') \<longleftrightarrow>
    (\<exists>ident. configured_identity env settings w ident w' \<and> b' = b\<lparr>client_identity := ident\<rparr>)"
proof (cases "client_cert_path settings")
  case None
  with assms show ?thesis by (auto simp: add_client_identity_def configured_identity_def)
next
  case (Some path)
  then show ?thesis
    by (cases "client_key_path settings")
      (auto simp: add_client_identity_def configured_identity_def try_then_Inr_iff read_file_iff)
qed

lemma tls_settings_iff:
  "tls_settings env settings w = (Inr cs, w') \<longleftrightarrow>
    (\<exists>cas ident connector w1. configured_ca env settings w cas w1
      \<and> configured_identity env settings w1 ident w'
      \<and> build_connector env \<lparr>root_certificates = cas, client_identity = ident\<rparr> = Inr connector
      \<and> cs = \<lparr>tls_connector = Some connector, starttls = use_starttls settings, conn_timeout = None\<rparr>)"
proof -
  have "add_client_identity env settings \<lparr>root_certificates = cas, client_identity = None\<rparr> w1 = (Inr b, w2) \<longleftrightarrow>
      (\<exists>ident. configured_identity env settings w1 ident w2
        \<and> b = \<lparr>root_certificates = cas, client_identity = ident\<rparr>)" for cas w1 b w2
    using add_identity_iff [of "\<lparr>root_certificates = cas, client_identity = None\<rparr>"] by simp
  then show ?thesis
    by (simp add: tls_settings_def try_then_Inr_iff add_ca_iff LdapConnSettings_new_def
        ex_simps [symmetric] del: ex_simps) blast
qed

lemma connected_iff:
  "(case p of (r, w') \<Rightarrow> (case r of Inl err \<Rightarrow> Inl (LdapConnectionError err) | Inr h \<Rightarrow> Inr h, w')) = (Inr c, w1)
   \<longleftrightarrow> p = (Inr c, w1)"
  by (cases p) (auto split: sum.splits)

section \<open>The clauses of a filter\<close>

text \<open>
  The parts of a conjunction \<open>(&(\<dots>)(\<dots>))\<close>, as a directory reads it: the texts between the
  parentheses of the first level, up to the one that closes the conjunction.
\<close>

fun scan_clauses :: "nat \<Rightarrow> string \<Rightarrow> string \<Rightarrow> string list" where
  "scan_clauses d acc [] = []"
| "scan_clauses d acc (c # cs) =
     (if c = CHR ''('' then (if d = 0 then scan_clauses 1 [] cs else scan_clauses (Suc d) (acc @ [c]) cs)
      else if c = CHR '')'' then
        (if d = 0 then []
         else if d = 1 then acc # scan_clauses 0 [] cs
         else scan_clauses (d - 1) (acc @ [c]) cs)
      else scan_clauses d (acc @ [c]) cs)"

definition clauses :: "string \<Rightarrow> string list" where
  "clauses s = scan_clauses 0 [] (drop 2 s)"

text \<open>Every parenthesis opened is closed, with \<open>d\<close> of them open at the start.\<close>

fun balanced :: "nat \<Rightarrow> string \<Rightarrow> bool" where
  "balanced d [] = (d = 0)"
| "balanced d (c # cs) =
     (if c = CHR ''('' then balanced (Suc d) cs
      else if c = CHR '')'' then d \<noteq> 0 \<and> balanced (d - 1) cs
      else balanced d cs)"

definition paren_free :: "string \<Rightarrow> bool" where
  "paren_free s \<longleftrightarrow> list_all (\<lambda>c. c \<noteq> CHR ''('' \<and> c \<noteq> CHR '')'') s"

lemma paren_free_balanced: "paren_free s \<Longrightarrow> balanced 0 s"
  by (induction s) (simp_all add: paren_free_def)

lemma scan_balanced:
  "balanced d s \<Longrightarrow> scan_clauses (Suc d) acc (s @ '')'' @ cs) = (acc @ s) # scan_clauses 0 [] cs"
  by (induction d s arbitrary: acc rule: balanced.induct) (auto split: if_splits)

lemma scan_clause: "balanced 0 s \<Longrightarrow> scan_clauses 0 acc (''('' @ s @ '')'' @ cs) = s # scan_clauses 0 [] cs"
  using scan_balanced [of 0 s "[]" cs] by simp

lemma clauses_two:
  assumes "balanced 0 f" "balanced 0 g"
  shows "clauses (''(&('' @ f @ '')('' @ g @ ''))'') = [f, g]"
  using scan_clause [OF assms(1), of "[]" "''('' @ g @ ''))''"] scan_clause [OF assms(2), of "[]" "'')''"]
  by (simp add: clauses_def)

lemma clauses_three:
  assumes "balanced 0 f" "balanced 0 g" "balanced 0 h"
  shows "clauses (''(&('' @ f @ '')('' @ g @ '')('' @ h @ ''))'') = [f, g, h]"
  using scan_clause [OF assms(1), of "[]" "''('' @ g @ '')('' @ h @ ''))''"]
    scan_clause [OF assms(2), of "[]" "''('' @ h @ ''))''"] scan_clause [OF assms(3), of "[]" "'')''"]
  by (simp add: clauses_def)

text \<open>The parts of the user filter that are configured.\<close>

abbreviation base_filter :: "VkLdapSettings \<Rightarrow> string" where
  "base_filter settings \<equiv> (case search_filter settings of Some sfilter \<Rightarrow> sfilter | None \<Rightarrow> ''objectClass=*'')"

abbreviation name_attribute :: "VkLdapSettings \<Rightarrow> string" where
  "name_attribute settings \<equiv> (case search_attribute settings of Some sattribute \<Rightarrow> sattribute | None \<Rightarrow> ''uid'')"

lemma search_found:
  assumes "search env c settings username t w = (Ok dn, w')"
  shows "\<exists>e vs w1. search_request env c t (case search_base settings of Some b \<Rightarrow> b | None \<Rightarrow> [])
      (search_scope settings) (user_filter settings username) [search_dn_attribute settings] w1 = (Inr (Inr [e]), w')
    \<and> e (search_dn_attribute settings) = Some (dn # vs)"
proof -
  from assms obtain rs w1 where
    rs: "search_request env c t (case search_base settings of Some b \<Rightarrow> b | None \<Rightarrow> [])
      (search_scope settings) (user_filter settings username) [search_dn_attribute settings] w1 = (Inr (Inr rs), w')"
    and dn: "user_dn_of_entries (user_filter settings username) (search_dn_attribute settings) rs = Ok dn"
    by (auto simp: search_def Let_def and_then_Ok_iff)
  from dn have "\<exists>e vs. rs = [e] \<and> e (search_dn_attribute settings) = Some (dn # vs)"
    by (auto simp: user_dn_of_entries_def split: list.splits option.splits)
  with rs show ?thesis by blast
qed

section \<open>A directory for the witnesses\<close>

text \<open>
  A handle is the URL it was connected to.  A server that is down fails every request; one that is
  up accepts the binds of \<open>creds\<close>, answers every search with \<open>rs\<close> and knows every client.  The
  world counts the requests.
\<close>

definition escape_char :: "char \<Rightarrow> string" where
  "escape_char c =
     (if c = CHR ''*'' then [CHR 0x5C, CHR ''2'', CHR ''a'']
      else if c = CHR ''('' then [CHR 0x5C, CHR ''2'', CHR ''8'']
      else if c = CHR '')'' then [CHR 0x5C, CHR ''2'', CHR ''9'']
      else if c = CHR 0x5C then [CHR 0x5C, CHR ''5'', CHR ''c'']
      else if c = nul then [CHR 0x5C, CHR ''0'', CHR ''0'']
      else [c])"

definition demo_escape :: "string \<Rightarrow> string" where
  "demo_escape s = concat (map escape_char s)"

definition demo_env ::
  "string list \<Rightarrow> (string \<times> string) list \<Rightarrow> entry list \<Rightarrow> (string, string, nat) ldap_env"
where
  "demo_env up creds rs =
   \<lparr> url_scheme = takeWhile (\<lambda>c. c \<noteq> CHR '':''),
     fs_read = (\<lambda>path w. (Inr path, w)),
     certificate_from_pem = Inr,
     identity_from_pkcs8 = (\<lambda>cert key. Inr (cert @ key)),
     build_connector = (\<lambda>b. Inr ''connector''),
     connect = (\<lambda>cs url w.
       (if url \<in> set up then Inr url else Inl (OtherLdapError ''refused''), Suc w)),
     simple_bind = (\<lambda>c t dn pw w.
       (if c \<notin> set up then Inl (OtherLdapError ''timeout'')
        else if (dn, pw) \<in> set creds then Inr (Inr ())
        else Inr (Inl (LdapResultError 49 ''rc=49 (invalidCredentials)'')), Suc w)),
     search_request = (\<lambda>c t base scope f attrs w.
       (if c \<notin> set up then Inl (OtherLdapError ''timeout'') else Inr (Inr rs), Suc w)),
     who_am_i = (\<lambda>c w. (if c \<notin> set up then Inl (OtherLdapError ''timeout'') else Inr (Inr ()), Suc w)),
     unbind = (\<lambda>c w. Suc w),
     ldap_escape = demo_escape \<rparr>"

lemma demo_env_escape: "ldap_escape (demo_env up creds rs) = demo_escape"
  by (simp add: demo_env_def)

text \<open>A plain connection to a server of the directory.\<close>

lemma demo_connect:
  "takeWhile (\<lambda>c. c \<noteq> CHR '':'') (srv_url server) \<noteq> ''ldaps'' \<Longrightarrow> \<not> use_starttls settings \<Longrightarrow>
   VkLdapConnection_new (demo_env up creds rs) settings server w =
     (if srv_url server \<in> set up then Inr (srv_url server)
      else Inl (LdapConnectionError (OtherLdapError ''refused'')), Suc w)"
  by (simp add: VkLdapConnection_new_def create_ldap_connection_def requires_tls_def
      get_url_ref_def demo_env_def)

lemma demo_close: "close (demo_env up creds rs) c w = Suc w"
  by (simp add: close_def demo_env_def)

section \<open>Properties\<close>

text \<open>C9. A connection that must be secure is: when the URL has the scheme \<open>ldaps\<close> or StartTLS is
  switched on, a connection is handed out exactly if the client library made it for that URL with
  the StartTLS setting, the configured timeout and a TLS connector whose trusted certificates are
  those read from the configured CA file (none if no file is configured), and whose client identity is made
  from the configured certificate file and the configured key file, in this order (none if no
  certificate is configured).  A file that cannot be read, a bad certificate, a missing key or a
  connector that cannot be built never ends in a connection, and so not in a plain one.\<close>

theorem tls_never_downgraded:
  assumes "url_scheme env url = ''ldaps'' \<or> use_starttls settings"
  shows "create_ldap_connection env settings url w = (Inr c, w') \<longleftrightarrow>
    (\<exists>cas ident connector w1 w2. configured_ca env settings w cas w1
      \<and> configured_identity env settings w1 ident w2
      \<and> build_connector env \<lparr>root_certificates = cas, client_identity = ident\<rparr> = Inr connector
      \<and> connect env \<lparr>tls_connector = Some connector, starttls = use_starttls settings,
          conn_timeout = Some (timeout_connection settings)\<rparr> url w2 = (Inr c, w'))"
proof -
  have "create_ldap_connection env settings url w = (Inr c, w') \<longleftrightarrow>
    (\<exists>cs w2. tls_settings env settings w = (Inr cs, w2)
      \<and> connect env (cs\<lparr>conn_timeout := Some (timeout_connection settings)\<rparr>) url w2 = (Inr c, w'))"
    using assms by (simp add: create_ldap_connection_def requires_tls_def try_then_Inr_iff connected_iff)
  then show ?thesis unfolding tls_settings_iff by fastforce
qed

theorem tls_never_downgraded_witness:
  "\<exists>connector. connect (demo_env [''ldaps://a''] [] []) \<lparr>tls_connector = Some connector, starttls = False,
      conn_timeout = Some (timeout_connection VkConnectionSettings_default)\<rparr> ''ldaps://a'' 0 = (Inr ''ldaps://a'', 1)"
proof -
  let ?env = "demo_env [''ldaps://a''] [] []"
  let ?s = "VkConnectionSettings_default\<lparr>ca_cert_path := Some ''ca.pem''\<rparr>"
  have secure: "url_scheme ?env ''ldaps://a'' = ''ldaps'' \<or> use_starttls ?s" by (simp add: demo_env_def)
  have "create_ldap_connection ?env ?s ''ldaps://a'' 0 = (Inr ''ldaps://a'', 1)"
    by (simp add: create_ldap_connection_def requires_tls_def demo_env_def tls_settings_def
        add_ca_certificate_def add_client_identity_def read_file_def handle_io_error_def
        handle_tls_error_def VkConnectionSettings_default_def)
  with tls_never_downgraded [OF secure, of 0 "''ldaps://a''" 1] obtain connector w1 w2 where
    "configured_ca ?env ?s 0 [''ca.pem''] w1" "configured_identity ?env ?s w1 None w2"
    "connect ?env \<lparr>tls_connector = Some connector, starttls = use_starttls ?s,
      conn_timeout = Some (timeout_connection ?s)\<rparr> ''ldaps://a'' w2 = (Inr ''ldaps://a'', 1)"
    by (fastforce simp: configured_ca_def configured_identity_def demo_env_def VkConnectionSettings_default_def)
  then show ?thesis
    by (auto simp: configured_ca_def configured_identity_def demo_env_def VkConnectionSettings_default_def)
qed

text \<open>C31. The rules a user is given are the white-space separated tokens of all the values of the
  rules attribute over all the groups found, each once, in the order of first occurrence; none is
  empty or holds white space, so that none can smuggle in a second rule.\<close>

theorem search_groups_rules_result:
  assumes "search_groups_rules env c settings dn t w = (Inr rules, w')"
  shows "(\<exists>rs. group_request env c settings (groups_rules_attribute settings) dn t w = (Inr rs, w')
      \<and> rules = first_occurrences (concat (map split_whitespace
          (attr_values (groups_rules_attribute settings) rs))))
    \<and> distinct rules \<and> list_all (\<lambda>r. r \<noteq> [] \<and> ws_free r) rules"
proof -
  from assms obtain rs where rs:
    "group_request env c settings (groups_rules_attribute settings) dn t w = (Inr rs, w')"
    and "rules = fst (collect_rules (groups_rules_attribute settings) rs ([], {}))"
    by (auto simp: search_groups_rules_def outcome_simps)
  then have rules: "rules = first_occurrences (concat (map split_whitespace
      (attr_values (groups_rules_attribute settings) rs)))"
    by (simp add: collect_rules_eq fold_remember)
  then have "distinct rules" "list_all (\<lambda>r. r \<noteq> [] \<and> ws_free r) rules"
    using split_whitespace_token by (auto simp: list_all_iff)
  with rs rules show ?thesis by blast
qed

theorem search_groups_rules_result_witness:
  "distinct [''+@read'', ''~app:*'']"
proof -
  let ?env = "demo_env [''a''] [] [[''valkeyACL'' \<mapsto> [''+@read ~app:*'', '' +@read'']]]"
  have "split_whitespace ''+@read ~app:*'' = [''+@read'', ''~app:*'']"
    "split_whitespace '' +@read'' = [''+@read'']" by code_simp+
  then have "search_groups_rules ?env ''a'' VkLdapSettings_default ''cn=bob'' 0 0 =
      (Inr [''+@read'', ''~app:*''], Suc 0)"
    by (simp add: search_groups_rules_def group_request_def prepare_group_search_def
        admin_bind_def VkLdapSettings_default_def demo_env_def request_def handle_ldap_error_def
        collect_rules_eq fold_remember attr_values_def first_occurrences_def)
  from search_groups_rules_result [OF this] show ?thesis by blast
qed

text \<open>The group searches escape the user's DN: given that the client library's escaping leaves
  no parenthesis in its result, the filter that is sent has the configured clause and the clause on the
  member attribute, and no other, whatever the DN is.\<close>

theorem group_filter_escaped:
  assumes "paren_free (ldap_escape env dn)" and "balanced 0 f" and "paren_free a"
  shows "clauses (and_filter f a (ldap_escape env dn)) = [f, a @ ''='' @ ldap_escape env dn]"
proof -
  have "balanced 0 (a @ ''='' @ ldap_escape env dn)"
    using assms(1,3) by (intro paren_free_balanced) (simp add: paren_free_def)
  from clauses_two [OF assms(2) this] show ?thesis by (simp add: and_filter_def)
qed

theorem group_filter_escaped_witness:
  "clauses (and_filter ''objectClass=*'' ''member'' (ldap_escape (demo_env [] [] []) ''cn=a)(b*'')) =
    [''objectClass=*'', ''member='' @ demo_escape ''cn=a)(b*'']"
proof -
  have "paren_free (ldap_escape (demo_env [] [] []) ''cn=a)(b*'')"
    unfolding demo_env_escape by code_simp
  moreover have "balanced 0 ''objectClass=*''" "paren_free ''member''" by code_simp+
  ultimately show ?thesis
    using group_filter_escaped [of "demo_env [] [] []" "''cn=a)(b*''" "''objectClass=*''" "''member''"]
    by (simp add: demo_env_escape)
qed

text \<open>C39. The user search does not: it puts the user name of the \<open>AUTH\<close> command into the filter as
  it is, so that a name \<open>v)(x\<close> closes the clause on the user name and adds the clause \<open>x\<close>.  When
  a user of this name is found, the DN that search mode then binds with, and looks for the groups of, is that of the one entry
  that satisfies the configured filter, \<open>attribute=v\<close> and \<open>x\<close>; \<open>v\<close> is any text without
  parentheses, an asterisk included, and \<open>x\<close> any filter in which every parenthesis that is opened is closed.\<close>

theorem user_filter_unescaped:
  assumes "search env c settings (v @ '')('' @ x) t w = (Ok dn, w')"
    and "balanced 0 (base_filter settings)" and "paren_free (name_attribute settings)"
    and "paren_free v" and "balanced 0 x"
  shows "\<exists>s e vs w1. clauses s = [base_filter settings, name_attribute settings @ ''='' @ v, x]
    \<and> search_request env c t (case search_base settings of Some b \<Rightarrow> b | None \<Rightarrow> []) (search_scope settings) s
        [search_dn_attribute settings] w1 = (Inr (Inr [e]), w')
    \<and> e (search_dn_attribute settings) = Some (dn # vs)"
proof -
  let ?s = "user_filter settings (v @ '')('' @ x)"
  have s: "?s = ''(&('' @ base_filter settings @ '')('' @ (name_attribute settings @ ''='' @ v) @ '')('' @ x @ ''))''"
    by (simp add: user_filter_def and_filter_def)
  have "clauses ?s = [base_filter settings, name_attribute settings @ ''='' @ v, x]"
    unfolding s
  proof (rule clauses_three [OF assms(2) _ assms(5)])
    show "balanced 0 (name_attribute settings @ ''='' @ v)"
      using assms(3,4) by (intro paren_free_balanced) (simp add: paren_free_def)
  qed
  moreover have "\<exists>e vs w1. search_request env c t (case search_base settings of Some b \<Rightarrow> b | None \<Rightarrow> [])
      (search_scope settings) ?s [search_dn_attribute settings] w1 = (Inr (Inr [e]), w')
    \<and> e (search_dn_attribute settings) = Some (dn # vs)"
    using search_found [OF assms(1)] .
  ultimately show ?thesis by blast
qed

theorem user_filter_unescaped_witness:
  "\<exists>s e. clauses s = [''objectClass=*'', ''uid=*'', ''cn=admin'']
    \<and> search_request (demo_env [''a''] [] [[''entryDN'' \<mapsto> [''cn=x'']]]) ''a'' 0 []
        (search_scope VkLdapSettings_default) s [''entryDN''] 0 =
        (Inr (Inr [e]), 1)"
proof -
  let ?env = "demo_env [''a''] [] [[''entryDN'' \<mapsto> [''cn=x'']]]"
  let ?s = "VkLdapSettings_default\<lparr>search_dn_attribute := ''entryDN''\<rparr>"
  have "search ?env ''a'' ?s (''*'' @ '')('' @ ''cn=admin'') 0 0 = (Ok ''cn=x'', 1)"
    by (simp add: VkLdapSettings_default_def search_def admin_bind_def demo_env_def request_def
        handle_ldap_error_def user_dn_of_entries_def)
  from user_filter_unescaped [OF this] show ?thesis
    by (auto simp: VkLdapSettings_default_def paren_free_def demo_env_def)
qed

text \<open>Without a configured search user the search is sent with no bind before it, under the
  identity the connection was last bound to: the result does not depend on how the directory
  answers binds at all.\<close>

theorem search_without_bind:
  assumes "search_bind_dn settings = None \<or> search_bind_passwd settings = None"
  shows "search (env\<lparr>simple_bind := f\<rparr>) c settings username t w = search env c settings username t w"
  using assms by (auto simp: search_def admin_bind_def Let_def split: option.splits)

theorem search_without_bind_witness:
  "search ((demo_env [''a''] [] [[''entryDN'' \<mapsto> [''cn=x'']]])\<lparr>simple_bind := (\<lambda>c t dn pw w. (Inr (Inr ()), w))\<rparr>)
     ''a'' (VkLdapSettings_default\<lparr>search_dn_attribute := ''entryDN''\<rparr>) ''x'' 0 0 = (Ok ''cn=x'', 1)"
  by (subst search_without_bind)
    (simp_all add: VkLdapSettings_default_def search_def admin_bind_def demo_env_def request_def
      handle_ldap_error_def user_dn_of_entries_def)

text \<open>The user search finds the one entry or says why it did not: it returns a DN only if the
  directory answered with exactly one entry, and then the first value of the configured attribute;
  it panics only when that one entry has the attribute with no value.\<close>

theorem search_result_iff:
  assumes "admin_bind env c settings t w = (Inr (), w1)"
    and "search_request env c t (case search_base settings of Some b \<Rightarrow> b | None \<Rightarrow> [])
      (search_scope settings) (user_filter settings username) [search_dn_attribute settings] w1 =
      (Inr (Inr rs), w2)"
  shows "(search env c settings username t w = (Ok dn, w2) \<longleftrightarrow>
      (\<exists>e vs. rs = [e] \<and> e (search_dn_attribute settings) = Some (dn # vs)))
    \<and> (search env c settings username t w = (Panic, w2) \<longleftrightarrow>
      (\<exists>e. rs = [e] \<and> e (search_dn_attribute settings) = Some []))"
  using assms
  by (auto simp: search_def request_def handle_ldap_error_def user_dn_of_entries_def Let_def
      split: list.splits option.splits)

theorem search_result_iff_witness:
  "fst (search (demo_env [''a''] [] [[''entryDN'' \<mapsto> []]]) ''a''
     (VkLdapSettings_default\<lparr>search_dn_attribute := ''entryDN''\<rparr>) ''x'' 0 0) = Panic"
proof -
  let ?env = "demo_env [''a''] [] [[''entryDN'' \<mapsto> []]]"
  let ?s = "VkLdapSettings_default\<lparr>search_dn_attribute := ''entryDN''\<rparr>"
  have "admin_bind ?env ''a'' ?s 0 0 = (Inr (), 0)"
    "search_request ?env ''a'' 0 (case search_base ?s of Some b \<Rightarrow> b | None \<Rightarrow> [])
      (search_scope ?s) (user_filter ?s ''x'') [search_dn_attribute ?s] 0 =
      (Inr (Inr [[''entryDN'' \<mapsto> []]]), 1)"
    by (simp_all add: admin_bind_def VkLdapSettings_default_def demo_env_def)
  from search_result_iff [OF this] show ?thesis
    by (simp add: VkLdapSettings_default_def)
qed

end
