(* ===== verification/Pool.thy ===== *)
theory Pool
  imports Connection
begin

text \<open>
  The connection pool of one server (\<open>ConnectionQueue\<close> and \<open>VkConnectionPool\<close> of
  \<open>src/src/vkldap/connection.rs\<close>): the operations, each run under the pool's lock.  What several
  tasks do with one pool, and the waiting, is in \<open>Pool_Sync\<close>.

  A \<open>VecDeque\<close> is the list of its elements from front to back.  The epoch is a 64-bit counter, and
  its increment wraps around, as in a release build.
\<close>

section \<open>The queue\<close>

record 'c ConnectionQueue =
  queue :: "'c list"
  epoch :: u64
  q_size :: nat

definition ConnectionQueue_new :: "'c ConnectionQueue" where
  "ConnectionQueue_new = \<lparr>queue = [], epoch = 0, q_size = 0\<rparr>"

definition close_connections ::
  "('u, 'c, 'w) ldap_env \<Rightarrow> 'c ConnectionQueue \<Rightarrow> 'w \<Rightarrow> 'c ConnectionQueue \<times> 'w"
where
  "close_connections env q w = (q\<lparr>queue := []\<rparr>, fold (close env) (queue q) w)"

fun fill_queue ::
  "('u, 'c, 'w) ldap_env \<Rightarrow> 'u VkLdapServer \<Rightarrow> VkConnectionSettings \<Rightarrow> nat
   \<Rightarrow> 'c ConnectionQueue \<Rightarrow> 'w \<Rightarrow> unit result \<times> 'c ConnectionQueue \<times> 'w"
where
  "fill_queue env server settings 0 q w = (Inr (), q, w)"
| "fill_queue env server settings (Suc n) q w =
     (case VkLdapConnection_new env settings server w of
        (Inr conn, w') \<Rightarrow> fill_queue env server settings n (q\<lparr>queue := conn # queue q\<rparr>) w'
      | (Inl err, w') \<Rightarrow> (Inl err, close_connections env q w'))"

definition reset_connections ::
  "('u, 'c, 'w) ldap_env \<Rightarrow> 'u VkLdapServer \<Rightarrow> VkConnectionSettings
   \<Rightarrow> 'c ConnectionQueue \<Rightarrow> 'w \<Rightarrow> unit result \<times> 'c ConnectionQueue \<times> 'w"
where
  "reset_connections env server settings q w =
     (let (q1, w1) = close_connections env q w;
          q2 = q1\<lparr>epoch := epoch q1 + 1, q_size := unat (connection_pool_size settings)\<rparr>
      in fill_queue env server settings (q_size q2) q2 w1)"

definition queue_is_empty :: "'c ConnectionQueue \<Rightarrow> bool" where
  "queue_is_empty q \<longleftrightarrow> queue q = []"

definition has_all_connections :: "'c ConnectionQueue \<Rightarrow> bool" where
  "has_all_connections q \<longleftrightarrow> length (queue q) = q_size q"

text \<open>\<open>take\<close> asserts that the queue is not empty.\<close>

definition queue_take :: "'c ConnectionQueue \<Rightarrow> (VkLdapError, 'c \<times> u64) outcome \<times> 'c ConnectionQueue" where
  "queue_take q =
     (if queue_is_empty q then (Panic, q)
      else (Ok (last (queue q), epoch q), q\<lparr>queue := butlast (queue q)\<rparr>))"

definition queue_put :: "'c \<Rightarrow> 'c ConnectionQueue \<Rightarrow> 'c ConnectionQueue" where
  "queue_put conn q = q\<lparr>queue := conn # queue q\<rparr>"

definition get_epoch :: "'c ConnectionQueue \<Rightarrow> u64" where
  "get_epoch q = epoch q"

section \<open>The pool\<close>

record ('u, 'c) VkConnectionPool =
  pool_queue :: "'c ConnectionQueue"
  pool_server :: "'u VkLdapServer"

record ('u, 'c) VkLdapPoolConnection =
  conn :: 'c
  conn_server :: "'u VkLdapServer"
  from_epoch :: u64

definition VkConnectionPool_new ::
  "('u, 'c, 'w) ldap_env \<Rightarrow> 'u VkLdapServer \<Rightarrow> VkConnectionSettings \<Rightarrow> 'w
   \<Rightarrow> (('u, 'c) VkConnectionPool \<times> unit result) \<times> 'w"
where
  "VkConnectionPool_new env server settings w =
     (let (res, q, w') = reset_connections env server settings ConnectionQueue_new w
      in ((\<lparr>pool_queue = q, pool_server = server\<rparr>, res), w'))"

definition refresh_connections ::
  "('u, 'c, 'w) ldap_env \<Rightarrow> VkConnectionSettings \<Rightarrow> ('u, 'c) VkConnectionPool \<Rightarrow> 'w
   \<Rightarrow> unit result \<times> ('u, 'c) VkConnectionPool \<times> 'w"
where
  "refresh_connections env settings pool w =
     (let (res, q, w') = reset_connections env (pool_server pool) settings (pool_queue pool) w
      in (res, pool\<lparr>pool_queue := q\<rparr>, w'))"

text \<open>\<open>take_connection\<close>, one round of its loop: \<open>Stuck\<close> when it has to wait for the signal.\<close>

definition take_connection ::
  "('u, 'c) VkConnectionPool
   \<Rightarrow> (VkLdapError, ('u, 'c) VkLdapPoolConnection) outcome \<times> ('u, 'c) VkConnectionPool"
where
  "take_connection pool =
     (if queue_is_empty (pool_queue pool) then (Stuck, pool)
      else (case queue_take (pool_queue pool) of
              (Ok (c, e), q) \<Rightarrow>
                (Ok \<lparr>conn = c, conn_server = pool_server pool, from_epoch = e\<rparr>, pool\<lparr>pool_queue := q\<rparr>)
            | (_, q) \<Rightarrow> (Panic, pool\<lparr>pool_queue := q\<rparr>)))"

text \<open>\<open>return_connection\<close>; the flag says whether the waiting tasks are notified.\<close>

definition return_connection ::
  "('u, 'c, 'w) ldap_env \<Rightarrow> ('u, 'c) VkLdapPoolConnection \<Rightarrow> ('u, 'c) VkConnectionPool \<Rightarrow> 'w
   \<Rightarrow> bool \<times> ('u, 'c) VkConnectionPool \<times> 'w"
where
  "return_connection env pc pool w =
     (if get_epoch (pool_queue pool) = from_epoch pc
      then (True, pool\<lparr>pool_queue := queue_put (conn pc) (pool_queue pool)\<rparr>, w)
      else (False, pool, close env (conn pc) w))"

definition shutdown ::
  "('u, 'c, 'w) ldap_env \<Rightarrow> ('u, 'c) VkConnectionPool \<Rightarrow> 'w
   \<Rightarrow> (VkLdapError, unit) outcome \<times> ('u, 'c) VkConnectionPool \<times> 'w"
where
  "shutdown env pool w =
     (if has_all_connections (pool_queue pool)
      then let (q, w') = close_connections env (pool_queue pool) w
           in (Ok (), pool\<lparr>pool_queue := q\<rparr>, w')
      else (Stuck, pool, w))"

section \<open>The queue is first in, first out\<close>

text \<open>
  What the pool relies on: the connections in the order they will be handed out, \<open>list\<close>, with new
  ones at the end.  The epoch is the other thing the pool reads.
\<close>

locale fifo_queue =
  fixes list :: "'q \<Rightarrow> 'c list"
    and stamp :: "'q \<Rightarrow> 'e"
    and take :: "'q \<Rightarrow> ('x, 'c \<times> 'e) outcome \<times> 'q"
    and put :: "'c \<Rightarrow> 'q \<Rightarrow> 'q"
  assumes take_Cons: "list q = c # cs \<Longrightarrow> \<exists>q'. take q = (Ok (c, stamp q), q') \<and> list q' = cs \<and> stamp q' = stamp q"
    and take_Nil: "list q = [] \<Longrightarrow> take q = (Panic, q)"
    and list_put: "list (put c q) = list q @ [c]"
    and stamp_put: "stamp (put c q) = stamp q"
begin

lemma list_puts: "list (fold put cs q) = list q @ cs"
  by (induction cs arbitrary: q) (simp_all add: list_put)

lemma stamp_puts: "stamp (fold put cs q) = stamp q"
  by (induction cs arbitrary: q) (simp_all add: stamp_put)

text \<open>\<open>n\<close> takes in a row.\<close>

primrec takes :: "nat \<Rightarrow> 'q \<Rightarrow> 'c list \<times> 'q" where
  "takes 0 q = ([], q)"
| "takes (Suc n) q =
     (case take q of
        (Ok (c, e), q') \<Rightarrow> (let (cs, q'') = takes n q' in (c # cs, q''))
      | (_, q') \<Rightarrow> ([], q'))"

lemma takes_list: "list q = cs @ ds \<Longrightarrow> \<exists>q'. takes (length cs) q = (cs, q') \<and> list q' = ds"
proof (induction cs arbitrary: q)
  case (Cons c cs)
  then obtain q' where "take q = (Ok (c, stamp q), q')" "list q' = cs @ ds"
    using take_Cons by fastforce
  with Cons.IH [of q'] show ?case by auto
qed simp

text \<open>What is put on an exhausted queue comes out in the same order.\<close>

lemma put_then_take:
  "list q = [] \<Longrightarrow> fst (takes (length cs) (fold put cs q)) = cs"
  using takes_list [of "fold put cs q" cs "[]"] by (auto simp: list_puts)

end

interpretation conn_queue: fifo_queue
  "\<lambda>q. rev (queue q)" epoch queue_take queue_put
proof
  fix q :: "'a ConnectionQueue" and c cs
  assume "rev (queue q) = c # cs"
  then have "queue q = rev cs @ [c]" by (metis rev_rev_ident rev.simps(2))
  then show "\<exists>q'. queue_take q = (Ok (c, epoch q), q') \<and> rev (queue q') = cs \<and> epoch q' = epoch q"
    by (simp add: queue_take_def queue_is_empty_def)
qed (simp_all add: queue_take_def queue_is_empty_def queue_put_def)

section \<open>What the users of a pool rely on\<close>

text \<open>
  The context keeps its pools on a heap and relies on one thing when it works with one of them: the
  pool stays the pool of its server.  The contract has the four operations it calls on a pool.
\<close>

locale served_pool =
  fixes server :: "'p \<Rightarrow> 's"
    and take :: "'p \<Rightarrow> 'r \<times> 'p"
    and give :: "'k \<Rightarrow> 'p \<Rightarrow> 'w \<Rightarrow> bool \<times> 'p \<times> 'w"
    and refill :: "'cfg \<Rightarrow> 'p \<Rightarrow> 'w \<Rightarrow> 'x \<times> 'p \<times> 'w"
    and shut :: "'p \<Rightarrow> 'w \<Rightarrow> 'o \<times> 'p \<times> 'w"
  assumes take_server: "server (snd (take p)) = server p"
    and give_server: "server (fst (snd (give k p w))) = server p"
    and refill_server: "server (fst (snd (refill cfg p w))) = server p"
    and shut_server: "server (fst (snd (shut p w))) = server p"
begin

lemma heap_update: "server q = server (ps ! i) \<Longrightarrow> map server (ps[i := q]) = map server ps"
  by (metis list_update_id map_update)

lemma take_heap: "take (ps ! i) = (r, q) \<Longrightarrow> map server (ps[i := q]) = map server ps"
  by (rule heap_update) (metis snd_conv take_server)

lemma give_heap: "give k (ps ! i) w = (b, q, w') \<Longrightarrow> map server (ps[i := q]) = map server ps"
  by (rule heap_update) (metis fst_conv snd_conv give_server)

lemma refill_heap: "refill cfg (ps ! i) w = (x, q, w') \<Longrightarrow> map server (ps[i := q]) = map server ps"
  by (rule heap_update) (metis fst_conv snd_conv refill_server)

lemma shut_heap: "shut (ps ! i) w = (x, q, w') \<Longrightarrow> map server (ps[i := q]) = map server ps"
  by (rule heap_update) (metis fst_conv snd_conv shut_server)

end

interpretation vk_pool: served_pool pool_server take_connection "return_connection env" "refresh_connections env" "shutdown env"
  for env
  by unfold_locales (auto simp: take_connection_def queue_take_def return_connection_def refresh_connections_def
      shutdown_def split: prod.split)

section \<open>Resetting a pool\<close>

lemma close_connections_queue [simp]:
  "queue (fst (close_connections env q w)) = []"
  "epoch (fst (close_connections env q w)) = epoch q"
  "q_size (fst (close_connections env q w)) = q_size q"
  by (simp_all add: close_connections_def)

lemma fill_queue_numeral:
  "fill_queue env server settings (numeral k) q w =
     (case VkLdapConnection_new env settings server w of
        (Inr c, w') \<Rightarrow>
          fill_queue env server settings (pred_numeral k) (q\<lparr>queue := c # queue q\<rparr>) w'
      | (Inl err, w') \<Rightarrow> (Inl err, close_connections env q w'))"
  by (simp add: numeral_eq_Suc)

lemma fill_queue_result:
  assumes "fill_queue env server settings n q w = (res, q', w')"
  shows "epoch q' = epoch q \<and> q_size q' = q_size q
    \<and> (case res of Inr _ \<Rightarrow> length (queue q') = length (queue q) + n | Inl _ \<Rightarrow> queue q' = [] \<and> 0 < n)"
  using assms
proof (induction n arbitrary: q w)
  case (Suc n)
  obtain r w1 where r: "VkLdapConnection_new env settings server w = (r, w1)"
    by (cases "VkLdapConnection_new env settings server w")
  show ?case
  proof (cases r)
    case (Inl err)
    with r Suc.prems show ?thesis by (auto simp: close_connections_def)
  next
    case (Inr c)
    with r Suc.prems Suc.IH [of "q\<lparr>queue := c # queue q\<rparr>" w1] show ?thesis
      by (auto split: sum.splits)
  qed
qed (auto split: sum.splits)

lemma reset_connections_result:
  assumes "reset_connections env server settings q w = (res, q', w')"
  shows "epoch q' = epoch q + 1 \<and> q_size q' = unat (connection_pool_size settings)
    \<and> (case res of Inr _ \<Rightarrow> has_all_connections q' | Inl _ \<Rightarrow> queue q' = [] \<and> 0 < q_size q')"
proof -
  let ?q = "(fst (close_connections env q w))\<lparr>epoch := epoch q + 1,
    q_size := unat (connection_pool_size settings)\<rparr>"
  have "fill_queue env server settings (unat (connection_pool_size settings)) ?q
      (snd (close_connections env q w)) = (res, q', w')"
    using assms by (simp add: reset_connections_def Let_def split_def)
  from fill_queue_result [OF this] show ?thesis
    by (auto simp: has_all_connections_def split: sum.splits)
qed

text \<open>C18. Resetting a pool fills it completely or not at all: either every configured connection was
  made and all of them are in the queue, or the error is returned and the queue is empty; the
  epoch moves on in both cases, so that the connections handed out before are stale.\<close>

theorem reset_all_or_nothing:
  assumes "refresh_connections env settings pool w = (res, pool', w')"
  shows "epoch (pool_queue pool') = epoch (pool_queue pool) + 1
    \<and> pool_server pool' = pool_server pool
    \<and> (case res of
         Inr _ \<Rightarrow> length (queue (pool_queue pool')) = unat (connection_pool_size settings)
       | Inl _ \<Rightarrow> queue (pool_queue pool') = [])"
proof -
  from assms obtain q' where
    "reset_connections env (pool_server pool) settings (pool_queue pool) w = (res, q', w')"
    and pool': "pool' = pool\<lparr>pool_queue := q'\<rparr>"
    by (auto simp: refresh_connections_def split: prod.splits)
  from reset_connections_result [OF this(1)] show ?thesis
    by (auto simp: pool' has_all_connections_def split: sum.splits)
qed

definition demo_server :: "string \<Rightarrow> string VkLdapServer" where
  "demo_server url = VkLdapServer_new url 0 HEALTHY"

definition demo_settings :: VkConnectionSettings where
  "demo_settings = VkConnectionSettings_default\<lparr>connection_pool_size := 2\<rparr>"

theorem reset_all_or_nothing_witness:
  "length (queue (pool_queue (fst (snd (refresh_connections (demo_env [''ldap://a''] [] []) demo_settings
      \<lparr>pool_queue = ConnectionQueue_new, pool_server = demo_server ''ldap://a''\<rparr> 0))))) = 2"
proof -
  let ?pool = "\<lparr>pool_queue = ConnectionQueue_new, pool_server = demo_server ''ldap://a''\<rparr>"
  let ?r = "refresh_connections (demo_env [''ldap://a''] [] []) demo_settings ?pool 0"
  have "fst ?r = Inr ()"
    by (simp add: refresh_connections_def reset_connections_def close_connections_def
        ConnectionQueue_new_def demo_settings_def VkConnectionSettings_default_def demo_server_def
        VkLdapServer_new_def fill_queue_numeral demo_connect)
  then have "?r = (Inr (), fst (snd ?r), snd (snd ?r))" by (metis prod.collapse)
  from reset_all_or_nothing [OF this] show ?thesis
    by (simp add: demo_settings_def)
qed

end
