(* ===== verification/Pool_Sync.thy ===== *)
theory Pool_Sync
  imports Pool
begin

text \<open>
  Any number of tasks on one pool: \<open>take_connection\<close>, \<open>return_connection\<close>, \<open>refresh_connections\<close> and
  \<open>shutdown\<close> of \<open>src/src/vkldap/connection.rs\<close> with their waiting (\<open>notify_wait!\<close>), as a step
  relation.  One step is one section run under the pool's lock: the operation's first round, or the
  round after a wake-up.  A task that waits has enabled its notification before it lets go of the
  lock, so \<open>notify_waiters\<close> reaches it from that moment on.  A task that panics while it has a connection
  drops it (\<open>Drop\<close>).
\<close>

section \<open>Tasks and steps\<close>

datatype ('u, 'c) proc =
    Idle
  | TakeLoop   \<comment> \<open>in \<open>take_connection\<close>, about to lock and look at the queue\<close>
  | TakeWait   \<comment> \<open>in \<open>take_connection\<close>, waiting for the signal\<close>
  | Holding "('u, 'c) VkLdapPoolConnection"
  | ShutLoop
  | ShutWait
  | ShutDone

record ('u, 'c, 'w) sync =
  pool :: "('u, 'c) VkConnectionPool"
  procs :: "('u, 'c) proc list"
  wld :: 'w

fun wake :: "('u, 'c) proc \<Rightarrow> ('u, 'c) proc" where
  "wake TakeWait = TakeLoop"
| "wake ShutWait = ShutLoop"
| "wake p = p"

definition notify_waiters :: "('u, 'c) proc list \<Rightarrow> ('u, 'c) proc list" where
  "notify_waiters ps = map wake ps"

text \<open>What a task may ask of the directory over the connection it holds.\<close>

inductive uses_conn :: "('u, 'c, 'w) ldap_env \<Rightarrow> 'c \<Rightarrow> 'w \<Rightarrow> 'w \<Rightarrow> bool" for env c w where
  by_bind: "uses_conn env c w (snd (simple_bind env c t dn pw w))"
| by_search: "uses_conn env c w (snd (search_request env c t b sc f attrs w))"
| by_ping: "uses_conn env c w (snd (who_am_i env c w))"

datatype label =
    Spawn | Begin_take nat | Take nat | Take_sleep nat | Use nat | Return nat | Drop nat
  | Refresh bool | Begin_shutdown nat | Shutdown nat | Shutdown_sleep nat

inductive sync_step ::
  "('u, 'c, 'w) ldap_env \<Rightarrow> ('u, 'c, 'w) sync \<Rightarrow> label \<Rightarrow> ('u, 'c, 'w) sync \<Rightarrow> bool"
  for env s
where
  spawn: "sync_step env s Spawn (s\<lparr>procs := procs s @ [Idle]\<rparr>)"
| begin_take: "i < length (procs s) \<Longrightarrow> procs s ! i = Idle \<Longrightarrow>
    sync_step env s (Begin_take i) (s\<lparr>procs := (procs s)[i := TakeLoop]\<rparr>)"
| take: "i < length (procs s) \<Longrightarrow> procs s ! i = TakeLoop \<Longrightarrow>
    take_connection (pool s) = (Ok pc, p') \<Longrightarrow>
    sync_step env s (Take i) (s\<lparr>pool := p', procs := (procs s)[i := Holding pc]\<rparr>)"
| take_sleep: "i < length (procs s) \<Longrightarrow> procs s ! i = TakeLoop \<Longrightarrow>
    take_connection (pool s) = (Stuck, p') \<Longrightarrow>
    sync_step env s (Take_sleep i) (s\<lparr>pool := p', procs := (procs s)[i := TakeWait]\<rparr>)"
| use: "i < length (procs s) \<Longrightarrow> procs s ! i = Holding pc \<Longrightarrow> uses_conn env (conn pc) (wld s) w' \<Longrightarrow>
    sync_step env s (Use i) (s\<lparr>wld := w'\<rparr>)"
| return: "i < length (procs s) \<Longrightarrow> procs s ! i = Holding pc \<Longrightarrow>
    return_connection env pc (pool s) (wld s) = (notified, p', w') \<Longrightarrow>
    sync_step env s (Return i) (s\<lparr>pool := p', wld := w',
      procs := (if notified then notify_waiters else id) ((procs s)[i := Idle])\<rparr>)"
| drop: "i < length (procs s) \<Longrightarrow> procs s ! i = Holding pc \<Longrightarrow>
    sync_step env s (Drop i) (s\<lparr>procs := (procs s)[i := Idle]\<rparr>)"
| refresh_ok: "refresh_connections env settings (pool s) (wld s) = (Inr (), p', w') \<Longrightarrow>
    sync_step env s (Refresh True) (s\<lparr>pool := p', wld := w', procs := notify_waiters (procs s)\<rparr>)"
| refresh_failed: "refresh_connections env settings (pool s) (wld s) = (Inl err, p', w') \<Longrightarrow>
    sync_step env s (Refresh False) (s\<lparr>pool := p', wld := w'\<rparr>)"
| begin_shutdown: "i < length (procs s) \<Longrightarrow> procs s ! i = Idle \<Longrightarrow>
    sync_step env s (Begin_shutdown i) (s\<lparr>procs := (procs s)[i := ShutLoop]\<rparr>)"
| shutdown: "i < length (procs s) \<Longrightarrow> procs s ! i = ShutLoop \<Longrightarrow>
    shutdown env (pool s) (wld s) = (Ok (), p', w') \<Longrightarrow>
    sync_step env s (Shutdown i) (s\<lparr>pool := p', wld := w', procs := (procs s)[i := ShutDone]\<rparr>)"
| shutdown_sleep: "i < length (procs s) \<Longrightarrow> procs s ! i = ShutLoop \<Longrightarrow>
    shutdown env (pool s) (wld s) = (Stuck, p', w') \<Longrightarrow>
    sync_step env s (Shutdown_sleep i) (s\<lparr>pool := p', wld := w', procs := (procs s)[i := ShutWait]\<rparr>)"

inductive_cases sync_step_Refresh: "sync_step env s (Refresh ok) s'"

text \<open>
  The states a pool can get to from its creation, with the number of its resets so far and whether
  the last of them succeeded and since then no shutdown has emptied the pool and no task has dropped a connection.
\<close>

inductive sync_reach ::
  "('u, 'c, 'w) ldap_env \<Rightarrow> nat \<Rightarrow> bool \<Rightarrow> ('u, 'c, 'w) sync \<Rightarrow> bool" for env
where
  new: "VkConnectionPool_new env server settings w = ((p, res), w') \<Longrightarrow>
    sync_reach env 1 (res = Inr ()) \<lparr>pool = p, procs = [], wld = w'\<rparr>"
| refreshed: "sync_reach env n b s \<Longrightarrow> sync_step env s (Refresh ok) s' \<Longrightarrow> sync_reach env (Suc n) ok s'"
| emptied: "sync_reach env n b s \<Longrightarrow> sync_step env s (Shutdown i) s' \<Longrightarrow> sync_reach env n False s'"
| panicked: "sync_reach env n b s \<Longrightarrow> sync_step env s (Drop i) s' \<Longrightarrow> sync_reach env n False s'"
| other: "sync_reach env n b s \<Longrightarrow> sync_step env s l s' \<Longrightarrow> (\<forall>ok. l \<noteq> Refresh ok) \<Longrightarrow>
    (\<forall>i. l \<noteq> Shutdown i \<and> l \<noteq> Drop i) \<Longrightarrow> sync_reach env n b s'"

section \<open>The counting invariant\<close>

definition cq :: "('u, 'c, 'w) sync \<Rightarrow> 'c ConnectionQueue" where
  "cq s = pool_queue (pool s)"

fun held_at :: "u64 \<Rightarrow> ('u, 'c) proc \<Rightarrow> bool" where
  "held_at e (Holding pc) = (from_epoch pc = e)"
| "held_at e _ = False"

text \<open>The number of connections of an epoch that tasks hold.\<close>

definition held :: "u64 \<Rightarrow> ('u, 'c) proc list \<Rightarrow> nat" where
  "held e ps = length (filter (held_at e) ps)"

definition pool_ok :: "nat \<Rightarrow> bool \<Rightarrow> 'c ConnectionQueue \<Rightarrow> ('u, 'c) proc list \<Rightarrow> bool" where
  "pool_ok n b q ps \<longleftrightarrow>
     epoch q = of_nat n
     \<and> (\<forall>pc. Holding pc \<in> set ps \<longrightarrow> (\<exists>k \<le> n. from_epoch pc = of_nat k))
     \<and> (TakeWait \<in> set ps \<longrightarrow> queue q = [])
     \<and> (ShutWait \<in> set ps \<longrightarrow> \<not> has_all_connections q)
     \<and> length (queue q) + held (epoch q) ps \<le> q_size q
     \<and> (b \<longrightarrow> length (queue q) + held (epoch q) ps = q_size q)"

abbreviation sync_inv :: "nat \<Rightarrow> bool \<Rightarrow> ('u, 'c, 'w) sync \<Rightarrow> bool" where
  "sync_inv n b s \<equiv> pool_ok n b (cq s) (procs s)"

lemma wake_simps [simp]:
  "wake p \<noteq> TakeWait" "wake p \<noteq> ShutWait"
  "wake p = Holding pc \<longleftrightarrow> p = Holding pc" "wake p = ShutDone \<longleftrightarrow> p = ShutDone"
  "held_at e (wake p) = held_at e p"
  by (cases p; simp)+

lemma notify_waiters_simps [simp]:
  "length (notify_waiters ps) = length ps"
  "i < length ps \<Longrightarrow> notify_waiters ps ! i = wake (ps ! i)"
  "TakeWait \<notin> set (notify_waiters ps)" "ShutWait \<notin> set (notify_waiters ps)"
  by (auto simp: notify_waiters_def image_iff dest: sym)

lemma notify_waiters_mem [simp]:
  "Holding pc \<in> set (notify_waiters ps) \<longleftrightarrow> Holding pc \<in> set ps"
  "ShutDone \<in> set (notify_waiters ps) \<longleftrightarrow> ShutDone \<in> set ps"
  by (auto simp: notify_waiters_def image_iff) (metis wake_simps(3,4))+

lemma notify_waiters_held [simp]: "held e (notify_waiters ps) = held e ps"
  by (induction ps) (simp_all add: notify_waiters_def held_def)

lemma take_connection_Ok:
  "take_connection p = (Ok pc, p') \<longleftrightarrow>
   queue (pool_queue p) \<noteq> []
   \<and> pc = \<lparr>conn = last (queue (pool_queue p)), conn_server = pool_server p, from_epoch = epoch (pool_queue p)\<rparr>
   \<and> p' = p\<lparr>pool_queue := (pool_queue p)\<lparr>queue := butlast (queue (pool_queue p))\<rparr>\<rparr>"
  by (auto simp: take_connection_def queue_take_def queue_is_empty_def)

lemma take_connection_Stuck:
  "take_connection p = (Stuck, p') \<longleftrightarrow> queue (pool_queue p) = [] \<and> p' = p"
  by (auto simp: take_connection_def queue_take_def queue_is_empty_def)

lemma shutdown_Ok:
  "shutdown env p w = (Ok (), p', w') \<longleftrightarrow> has_all_connections (pool_queue p)
   \<and> p' = p\<lparr>pool_queue := (pool_queue p)\<lparr>queue := []\<rparr>\<rparr> \<and> w' = fold (close env) (queue (pool_queue p)) w"
  by (auto simp: shutdown_def close_connections_def)

lemma shutdown_Stuck:
  "shutdown env p w = (Stuck, p', w') \<longleftrightarrow> \<not> has_all_connections (pool_queue p) \<and> p' = p \<and> w' = w"
  by (auto simp: shutdown_def close_connections_def)

lemma refresh_facts:
  assumes "refresh_connections env settings p w = (res, p', w')"
  shows "epoch (pool_queue p') = epoch (pool_queue p) + 1"
    and "res = Inr () \<Longrightarrow> length (queue (pool_queue p')) = q_size (pool_queue p')"
    and "res = Inl err \<Longrightarrow> queue (pool_queue p') = []"
    and "res = Inl err \<Longrightarrow> 0 < q_size (pool_queue p')"
proof -
  from assms obtain q' where
    "reset_connections env (pool_server p) settings (pool_queue p) w = (res, q', w')"
    and "p' = p\<lparr>pool_queue := q'\<rparr>"
    by (auto simp: refresh_connections_def split: prod.splits)
  with reset_connections_result [OF this(1)]
  show "epoch (pool_queue p') = epoch (pool_queue p) + 1"
    "res = Inr () \<Longrightarrow> length (queue (pool_queue p')) = q_size (pool_queue p')"
    "res = Inl err \<Longrightarrow> queue (pool_queue p') = []"
    "res = Inl err \<Longrightarrow> 0 < q_size (pool_queue p')"
    by (auto simp: has_all_connections_def)
qed

lemmas step_ops = take_connection_Ok take_connection_Stuck shutdown_Ok shutdown_Stuck

section \<open>Every step keeps the counting invariant\<close>

fun count_after :: "label \<Rightarrow> nat \<Rightarrow> nat" where
  "count_after (Refresh _) n = Suc n"
| "count_after _ n = n"

fun intact_after :: "label \<Rightarrow> bool \<Rightarrow> bool" where
  "intact_after (Refresh ok) b = ok"
| "intact_after (Shutdown _) b = False"
| "intact_after (Drop _) b = False"
| "intact_after _ b = b"

lemma u64_of_nat_eq:
  assumes "m < 2 ^ 64" "k < 2 ^ 64"
  shows "(of_nat m :: u64) = of_nat k \<longleftrightarrow> m = k"
proof -
  have "unat (of_nat i :: u64) = i" if "i < 2 ^ 64" for i
    using that by (simp add: unat_of_nat)
  with assms show ?thesis by metis
qed

lemma in_update: "x \<in> set (xs[i := y]) \<Longrightarrow> x \<noteq> y \<Longrightarrow> x \<in> set xs"
  using set_update_subset_insert by fastforce

lemma held_update:
  "i < length ps \<Longrightarrow> held e (ps[i := y]) + (if held_at e (ps ! i) then 1 else 0) =
    held e ps + (if held_at e y then 1 else 0)"
  unfolding held_def by (rule filter_update_length)

text \<open>What a step within an epoch has to respect.\<close>

lemma pool_ok_step:
  assumes "pool_ok n b q ps" and "epoch q' = epoch q" and "q_size q' = q_size q"
    and "\<And>pc. Holding pc \<in> set ps' \<Longrightarrow> Holding pc \<in> set ps \<or> from_epoch pc = epoch q"
    and "TakeWait \<in> set ps' \<Longrightarrow> queue q' = []"
    and "ShutWait \<in> set ps' \<Longrightarrow> length (queue q') \<noteq> q_size q"
    and "length (queue q') + held (epoch q) ps' = length (queue q) + held (epoch q) ps"
  shows "pool_ok n b q' ps'"
proof -
  have "\<exists>k \<le> n. from_epoch pc = of_nat k" if "Holding pc \<in> set ps'" for pc
    using assms(4) [OF that] assms(1) by (auto simp: pool_ok_def)
  with assms(1-3,5-) show ?thesis
    by (auto simp: pool_ok_def has_all_connections_def)
qed

lemma pool_okD:
  assumes "pool_ok n b q ps"
  shows "TakeWait \<in> set ps \<Longrightarrow> queue q = []" "ShutWait \<in> set ps \<Longrightarrow> length (queue q) \<noteq> q_size q"
    "length (queue q) + held (epoch q) ps \<le> q_size q"
    "b \<Longrightarrow> length (queue q) + held (epoch q) ps = q_size q"
  using assms by (auto simp: pool_ok_def has_all_connections_def)

text \<open>A task that holds nothing before or after moves, and the queue stays as it is.\<close>

lemma pool_ok_move:
  assumes inv: "pool_ok n b q ps" and i: "i < length ps"
    and nh: "\<And>e. \<not> held_at e (ps ! i)" "\<And>e. \<not> held_at e y"
    and w: "y = TakeWait \<Longrightarrow> queue q = []" "y = ShutWait \<Longrightarrow> length (queue q) \<noteq> q_size q"
  shows "pool_ok n b q (ps[i := y])"
proof (rule pool_ok_step [OF inv])
  show "Holding pc \<in> set ps \<or> from_epoch pc = epoch q" if "Holding pc \<in> set (ps[i := y])" for pc
  proof (cases "Holding pc = y")
    case True
    with nh(2) [of "from_epoch pc"] show ?thesis by (metis held_at.simps(1))
  qed (use in_update [OF that] in blast)
  show "TakeWait \<in> set (ps[i := y]) \<Longrightarrow> queue q = []"
    using w(1) in_update pool_okD(1) [OF inv] by metis
  show "ShutWait \<in> set (ps[i := y]) \<Longrightarrow> length (queue q) \<noteq> q_size q"
    using w(2) in_update pool_okD(2) [OF inv] by metis
  show "length (queue q) + held (epoch q) (ps[i := y]) = length (queue q) + held (epoch q) ps"
    using held_update [OF i, of "epoch q" y] nh by simp
qed simp_all

lemma pool_ok_take:
  assumes inv: "pool_ok n b q ps" and i: "i < length ps" "ps ! i = TakeLoop"
    and q: "queue q \<noteq> []" and e: "from_epoch pc = epoch q"
  shows "pool_ok n b (q\<lparr>queue := butlast (queue q)\<rparr>) (ps[i := Holding pc])"
proof (rule pool_ok_step [OF inv])
  have len: "Suc (length (butlast (queue q))) = length (queue q)" using q by simp
  have cnt: "held (epoch q) (ps[i := Holding pc]) = Suc (held (epoch q) ps)"
    using held_update [OF i(1), of "epoch q" "Holding pc"] i(2) e by simp
  show "Holding pc' \<in> set ps \<or> from_epoch pc' = epoch q" if "Holding pc' \<in> set (ps[i := Holding pc])" for pc'
    using in_update [OF that] e by auto
  show "TakeWait \<in> set (ps[i := Holding pc]) \<Longrightarrow> queue (q\<lparr>queue := butlast (queue q)\<rparr>) = []"
    using in_update [of TakeWait] pool_okD(1) [OF inv] q by fastforce
  show "length (queue (q\<lparr>queue := butlast (queue q)\<rparr>)) \<noteq> q_size q"
    using len pool_okD(3) [OF inv] by simp
  show "length (queue (q\<lparr>queue := butlast (queue q)\<rparr>)) + held (epoch q) (ps[i := Holding pc]) =
      length (queue q) + held (epoch q) ps"
    using cnt len by simp
qed simp_all

lemma pool_ok_put:
  assumes inv: "pool_ok n b q ps" and i: "i < length ps" "ps ! i = Holding pc"
    and e: "from_epoch pc = epoch q"
  shows "pool_ok n b (queue_put c q) (notify_waiters (ps[i := Idle]))"
proof (rule pool_ok_step [OF inv])
  show "Holding pc' \<in> set ps \<or> from_epoch pc' = epoch q"
    if "Holding pc' \<in> set (notify_waiters (ps[i := Idle]))" for pc'
    using in_update [of "Holding pc'" ps i Idle] that by simp
  show "length (queue (queue_put c q)) + held (epoch q) (notify_waiters (ps[i := Idle])) =
      length (queue q) + held (epoch q) ps"
    using held_update [OF i(1), of "epoch q" Idle] i(2) e by (simp add: queue_put_def)
qed (simp_all add: queue_put_def)

lemma pool_ok_drop_stale:
  assumes inv: "pool_ok n b q ps" and i: "i < length ps" "ps ! i = Holding pc"
    and e: "from_epoch pc \<noteq> epoch q"
  shows "pool_ok n b q (ps[i := Idle])"
proof (rule pool_ok_step [OF inv])
  show "Holding pc' \<in> set ps \<or> from_epoch pc' = epoch q" if "Holding pc' \<in> set (ps[i := Idle])" for pc'
    using in_update [OF that] by simp
  show "TakeWait \<in> set (ps[i := Idle]) \<Longrightarrow> queue q = []"
    "ShutWait \<in> set (ps[i := Idle]) \<Longrightarrow> length (queue q) \<noteq> q_size q"
    using in_update [of _ ps i Idle] pool_okD(1,2) [OF inv] by blast+
  show "length (queue q) + held (epoch q) (ps[i := Idle]) = length (queue q) + held (epoch q) ps"
    using held_update [OF i(1), of "epoch q" Idle] i(2) e by simp
qed simp_all

text \<open>A reset makes every connection handed out so far stale.\<close>

lemma none_current:
  assumes "pool_ok n b q ps" and "Suc n < 2 ^ 64"
    and H: "\<And>pc. Holding pc \<in> set ps' \<Longrightarrow> Holding pc \<in> set ps"
  shows "held (of_nat (Suc n)) ps' = 0"
proof -
  have "\<not> held_at (of_nat (Suc n)) p" if "p \<in> set ps'" for p
  proof (cases p)
    case (Holding pc)
    with H assms(1) that obtain k where "k \<le> n" "from_epoch pc = of_nat k"
      by (auto simp: pool_ok_def)
    with assms(2) u64_of_nat_eq [of k "Suc n"] Holding show ?thesis by auto
  qed simp_all
  then show ?thesis by (simp add: held_def filter_empty_conv del: of_nat_Suc)
qed

lemma pool_ok_refresh:
  assumes inv: "pool_ok n b q ps" and n: "Suc n < 2 ^ 64" and e: "epoch q' = epoch q + 1"
    and H: "\<And>pc. Holding pc \<in> set ps' \<Longrightarrow> Holding pc \<in> set ps"
    and ok: "b' \<Longrightarrow> length (queue q') = q_size q' \<and> ps' = notify_waiters ps"
    and failed: "\<not> b' \<Longrightarrow> queue q' = [] \<and> 0 < q_size q'"
  shows "pool_ok (Suc n) b' q' ps'"
proof -
  have e': "epoch q' = of_nat (Suc n)"
    using e inv by (simp add: pool_ok_def add.commute)
  have "held (epoch q') ps' = 0"
    unfolding e' using none_current [OF inv n H] by simp
  moreover have "\<exists>k \<le> Suc n. from_epoch pc = of_nat k" if "Holding pc \<in> set ps'" for pc
    using inv H [OF that] le_Suc_eq by (fastforce simp: pool_ok_def)
  ultimately show ?thesis
    using ok failed e' by (cases b') (simp_all add: pool_ok_def has_all_connections_def del: of_nat_Suc)
qed

lemma pool_ok_emptied:
  assumes inv: "pool_ok n b q ps" and i: "i < length ps" "ps ! i = ShutLoop"
    and all: "length (queue q) = q_size q"
  shows "pool_ok n False (q\<lparr>queue := []\<rparr>) (ps[i := ShutDone])"
proof -
  have "held (epoch q) (ps[i := ShutDone]) = 0"
    using held_update [OF i(1), of "epoch q" ShutDone] i(2) pool_okD(3) [OF inv] all by simp
  moreover have "ShutWait \<notin> set (ps[i := ShutDone])"
    using in_update [of ShutWait ps i ShutDone] pool_okD(2) [OF inv] all by blast
  moreover have "\<exists>k \<le> n. from_epoch pc = of_nat k" if "Holding pc \<in> set (ps[i := ShutDone])" for pc
    using inv in_update [OF that] by (simp add: pool_ok_def)
  moreover have "epoch q = of_nat n"
    using inv by (simp add: pool_ok_def)
  ultimately show ?thesis by (simp add: pool_ok_def)
qed

lemma pool_ok_drop:
  assumes inv: "pool_ok n b q ps" and i: "i < length ps" "ps ! i = Holding pc"
  shows "pool_ok n False q (ps[i := Idle])"
proof -
  have "held (epoch q) (ps[i := Idle]) \<le> held (epoch q) ps"
    using held_update [OF i(1), of "epoch q" Idle] by simp
  then show ?thesis
    using inv in_update [of _ ps i Idle] by (auto simp: pool_ok_def)
qed

lemma sync_step_inv:
  assumes "sync_step env s l s'" and inv: "sync_inv n b s" and "count_after l n < 2 ^ 64"
  shows "sync_inv (count_after l n) (intact_after l b) s'"
  using assms(1)
proof cases
  case spawn
  then show ?thesis
    using inv by (auto simp: pool_ok_def cq_def held_def)
next
  case (begin_take i)
  then show ?thesis
    using pool_ok_move [OF inv, of i TakeLoop] by (simp add: cq_def)
next
  case (take i pc p')
  then show ?thesis
    using pool_ok_take [OF inv, of i pc] by (auto simp: take_connection_Ok cq_def)
next
  case (take_sleep i p')
  then show ?thesis
    using pool_ok_move [OF inv, of i TakeWait] by (auto simp: take_connection_Stuck cq_def)
next
  case (use i pc w')
  then show ?thesis using inv by (simp add: cq_def)
next
  case (return i pc notified p' w')
  then show ?thesis
    using pool_ok_put [OF inv, of i pc "conn pc"] pool_ok_drop_stale [OF inv, of i pc]
    by (cases "get_epoch (pool_queue (pool s)) = from_epoch pc")
      (auto simp: return_connection_def get_epoch_def cq_def)
next
  case (drop i pc)
  then show ?thesis
    using pool_ok_drop [OF inv, of i pc] by (simp add: cq_def)
next
  case (refresh_ok settings p' w')
  then show ?thesis
    using pool_ok_refresh [OF inv, of "pool_queue p'" "notify_waiters (procs s)" True] assms(3)
      refresh_facts [OF refresh_ok(3)]
    by (simp add: cq_def)
next
  case (refresh_failed settings err p' w')
  then show ?thesis
    using pool_ok_refresh [OF inv, of "pool_queue p'" "procs s" False] assms(3)
      refresh_facts [OF refresh_failed(3)]
    by (simp add: cq_def)
next
  case (begin_shutdown i)
  then show ?thesis
    using pool_ok_move [OF inv, of i ShutLoop] by (simp add: cq_def)
next
  case (shutdown i p' w')
  then show ?thesis
    using pool_ok_emptied [OF inv, of i] by (auto simp: shutdown_Ok cq_def has_all_connections_def)
next
  case (shutdown_sleep i p' w')
  then show ?thesis
    using pool_ok_move [OF inv, of i ShutWait]
    by (auto simp: shutdown_Stuck cq_def has_all_connections_def)
qed

lemma sync_reach_inv: "sync_reach env n b s \<Longrightarrow> n < 2 ^ 64 \<Longrightarrow> sync_inv n b s"
proof (induction rule: sync_reach.induct)
  case (new server settings w p res w')
  then obtain q where "reset_connections env server settings ConnectionQueue_new w = (res, q, w')"
    and "p = \<lparr>pool_queue = q, pool_server = server\<rparr>"
    by (auto simp: VkConnectionPool_new_def split: prod.splits)
  with reset_connections_result [OF this(1)] show ?case
    by (cases res) (auto simp: pool_ok_def cq_def held_def has_all_connections_def ConnectionQueue_new_def)
next
  case (refreshed n b s ok s')
  then show ?case using sync_step_inv [OF refreshed(2), of n b] by simp
next
  case (emptied n b s i s')
  then show ?case using sync_step_inv [OF emptied(2), of n b] by simp
next
  case (panicked n b s i s')
  then show ?case using sync_step_inv [OF panicked(2), of n b] by simp
next
  case (other n b s l s')
  moreover have "count_after l n = n" "intact_after l b = b"
    using other(3,4) by (cases l; simp)+
  ultimately show ?case using sync_step_inv [OF other(2), of n b] by simp
qed

section \<open>A pool whose refresh failed\<close>

text \<open>Steps with no reset among them.\<close>

inductive quiet_run ::
  "('u, 'c, 'w) ldap_env \<Rightarrow> ('u, 'c, 'w) sync \<Rightarrow> ('u, 'c, 'w) sync \<Rightarrow> bool" for env s
where
  here: "quiet_run env s s"
| further: "quiet_run env s t \<Longrightarrow> sync_step env t l u \<Longrightarrow> (\<forall>ok. l \<noteq> Refresh ok) \<Longrightarrow> quiet_run env s u"

definition dead :: "('u, 'c, 'w) sync \<Rightarrow> bool" where
  "dead s \<longleftrightarrow> queue (cq s) = [] \<and> 0 < q_size (cq s) \<and> held (epoch (cq s)) (procs s) = 0"

text \<open>The number of tasks that have completed a shutdown.\<close>

definition finished :: "('u, 'c) proc list \<Rightarrow> nat" where
  "finished ps = length (filter (\<lambda>p. case p of ShutDone \<Rightarrow> True | _ \<Rightarrow> False) ps)"

lemma finished_update:
  "i < length ps \<Longrightarrow> finished (ps[i := y]) + (case ps ! i of ShutDone \<Rightarrow> 1 | _ \<Rightarrow> 0) =
    finished ps + (case y of ShutDone \<Rightarrow> 1 | _ \<Rightarrow> 0)"
  using filter_update_length [of i ps "\<lambda>p. case p of ShutDone \<Rightarrow> True | _ \<Rightarrow> False" y]
  by (simp add: finished_def split: proc.splits)

lemma finished_notify [simp]: "finished (notify_waiters ps) = finished ps"
proof -
  have "(case wake p of ShutDone \<Rightarrow> True | _ \<Rightarrow> False) = (case p of ShutDone \<Rightarrow> True | _ \<Rightarrow> False)" for p :: "('a, 'b) proc"
    by (cases p) simp_all
  then show ?thesis by (induction ps) (simp_all add: finished_def notify_waiters_def)
qed

lemma held_zero_update:
  "held e ps = 0 \<Longrightarrow> i < length ps \<Longrightarrow> \<not> held_at e y \<Longrightarrow> held e (ps[i := y]) = 0"
  using held_update [of i ps e y] by (simp split: if_splits)

lemma held_zero_nth: "held e ps = 0 \<Longrightarrow> i < length ps \<Longrightarrow> \<not> held_at e (ps ! i)"
  by (simp add: held_def filter_empty_conv)

lemma dead_step:
  assumes "sync_step env s l s'" and dead: "dead s" and quiet: "\<forall>ok. l \<noteq> Refresh ok"
  shows "dead s' \<and> finished (procs s') = finished (procs s)"
proof -
  note d = dead [unfolded dead_def]
  note z = held_zero_update [of "epoch (cq s)" "procs s"]
  from assms(1) show ?thesis
  proof cases
    case spawn
    with d show ?thesis by (simp add: dead_def cq_def held_def finished_def)
  next
    case (begin_take i)
    with d z [of i TakeLoop] finished_update [of i "procs s" TakeLoop] show ?thesis
      by (simp add: dead_def cq_def)
  next
    case (take i pc p')
    with d show ?thesis by (simp add: take_connection_Ok cq_def)
  next
    case (take_sleep i p')
    with d z [of i TakeWait] finished_update [of i "procs s" TakeWait] show ?thesis
      by (simp add: dead_def cq_def take_connection_Stuck)
  next
    case (use i pc w')
    with d show ?thesis by (simp add: dead_def cq_def)
  next
    case (return i pc notified p' w')
    with d held_zero_nth [of "epoch (cq s)" "procs s" i]
    have "epoch (cq s) \<noteq> from_epoch pc" by simp
    with return d z [of i Idle] finished_update [of i "procs s" Idle] show ?thesis
      by (auto simp: dead_def cq_def return_connection_def get_epoch_def)
  next
    case (drop i pc)
    with d z [of i Idle] finished_update [of i "procs s" Idle] show ?thesis
      by (simp add: dead_def cq_def)
  next
    case (begin_shutdown i)
    with d z [of i ShutLoop] finished_update [of i "procs s" ShutLoop] show ?thesis
      by (simp add: dead_def cq_def)
  next
    case (shutdown i p' w')
    with d show ?thesis by (simp add: shutdown_Ok cq_def has_all_connections_def)
  next
    case (shutdown_sleep i p' w')
    with d z [of i ShutWait] finished_update [of i "procs s" ShutWait] show ?thesis
      by (simp add: dead_def cq_def shutdown_Stuck)
  qed (use quiet in blast)+
qed

lemma dead_quiet_run:
  "quiet_run env s t \<Longrightarrow> dead s \<Longrightarrow> dead t \<and> finished (procs t) = finished (procs s)"
  by (induction rule: quiet_run.induct) (auto dest: dead_step)

lemma failed_refresh_dead:
  assumes "sync_reach env n b s" "Suc n < 2 ^ 64" "sync_step env s (Refresh False) t"
  shows "dead t"
proof -
  from assms(3) obtain settings err p' w' where
    r: "refresh_connections env settings (pool s) (wld s) = (Inl err, p', w')"
    and t: "t = s\<lparr>pool := p', wld := w'\<rparr>"
    by (auto elim: sync_step.cases)
  have inv: "sync_inv n b s" using assms(1,2) by (intro sync_reach_inv) simp_all
  then have "epoch (cq t) = of_nat (Suc n)"
    using refresh_facts(1) [OF r] by (simp add: t cq_def pool_ok_def add.commute)
  moreover have "held (of_nat (Suc n)) (procs t) = 0"
    using none_current [OF inv assms(2), of "procs t"] by (simp add: t)
  ultimately show ?thesis
    using refresh_facts(3,4) [OF r] by (simp add: dead_def t cq_def)
qed

section \<open>A pool that has lost a connection\<close>

definition short :: "('u, 'c, 'w) sync \<Rightarrow> bool" where
  "short s \<longleftrightarrow> length (queue (cq s)) + held (epoch (cq s)) (procs s) < q_size (cq s)"

text \<open>A task moves: the number of current connections it has, before and after.\<close>

lemma short_move:
  fixes s s' :: "('u, 'c, 'w) sync"
  assumes "short s" "i < length (procs s)" "\<not> held_at (epoch (cq s)) y" "cq s' = cq s" "procs s' = (procs s)[i := y]"
  shows "short s'"
  using assms held_update [of i "procs s" "epoch (cq s)" y] by (simp add: short_def split: if_splits)

lemma short_step:
  assumes "sync_step env s l s'" and short: "short s" and quiet: "\<forall>ok. l \<noteq> Refresh ok"
  shows "short s' \<and> finished (procs s') = finished (procs s)"
  using assms(1)
proof cases
  case spawn
  with short show ?thesis by (simp add: short_def cq_def held_def finished_def)
next
  case (begin_take i)
  with short_move [OF short, of i TakeLoop] finished_update [of i "procs s" TakeLoop] show ?thesis
    by (simp add: cq_def)
next
  case (take i pc p')
  then have len: "Suc (length (butlast (queue (cq s)))) = length (queue (cq s))"
    and e: "from_epoch pc = epoch (cq s)"
    and s': "cq s' = (cq s)\<lparr>queue := butlast (queue (cq s))\<rparr>" "procs s' = (procs s)[i := Holding pc]"
    by (auto simp: take_connection_Ok cq_def)
  have "held (epoch (cq s)) (procs s') = Suc (held (epoch (cq s)) (procs s))"
    using held_update [of i "procs s" "epoch (cq s)" "Holding pc"] take(3,4) e by (simp add: s')
  then have "short s'"
    using short len by (simp add: short_def s')
  then show ?thesis
    using finished_update [of i "procs s" "Holding pc"] take(3,4) by (simp add: s')
next
  case (take_sleep i p')
  with short_move [OF short, of i TakeWait] finished_update [of i "procs s" TakeWait] show ?thesis
    by (simp add: cq_def take_connection_Stuck)
next
  case (use i pc w')
  with short show ?thesis by (simp add: short_def cq_def)
next
  case (return i pc notified p' w')
  with short held_update [of i "procs s" "epoch (cq s)" Idle] finished_update [of i "procs s" Idle] show ?thesis
    by (auto simp: short_def cq_def return_connection_def get_epoch_def queue_put_def split: if_splits)
next
  case (drop i pc)
  with short_move [OF short, of i Idle] finished_update [of i "procs s" Idle] show ?thesis
    by (simp add: cq_def)
next
  case (begin_shutdown i)
  with short_move [OF short, of i ShutLoop] finished_update [of i "procs s" ShutLoop] show ?thesis
    by (simp add: cq_def)
next
  case (shutdown i p' w')
  with short show ?thesis by (simp add: short_def shutdown_Ok cq_def has_all_connections_def)
next
  case (shutdown_sleep i p' w')
  with short_move [OF short, of i ShutWait] finished_update [of i "procs s" ShutWait] show ?thesis
    by (simp add: cq_def shutdown_Stuck)
qed (use quiet in blast)+

lemma short_quiet_run:
  "quiet_run env s t \<Longrightarrow> short s \<Longrightarrow> short t \<and> finished (procs t) = finished (procs s)"
  by (induction rule: quiet_run.induct) (auto dest: short_step)

lemma drop_short:
  assumes "sync_inv n True s" "sync_step env s (Drop i) t" "procs s ! i = Holding pc" "from_epoch pc = epoch (cq s)"
  shows "short t"
proof -
  from assms(2) have i: "i < length (procs s)" and t: "t = s\<lparr>procs := (procs s)[i := Idle]\<rparr>"
    by (auto elim: sync_step.cases)
  show ?thesis
    using held_update [OF i, of "epoch (cq s)" Idle] assms(3,4) pool_okD(4) [OF assms(1)]
    by (simp add: short_def t cq_def)
qed

section \<open>A pool for the witnesses\<close>

definition demo_pool :: "string list \<Rightarrow> (string, string) VkConnectionPool" where
  "demo_pool conns = \<lparr>pool_queue = \<lparr>queue = conns, epoch = 1, q_size = 2\<rparr>, pool_server = demo_server ''ldap://a''\<rparr>"

lemma demo_pool_new:
  "VkConnectionPool_new (demo_env [''ldap://a''] [] []) (demo_server ''ldap://a'') demo_settings 0 =
    ((demo_pool [''ldap://a'', ''ldap://a''], Inr ()), 2)"
  by (simp add: VkConnectionPool_new_def reset_connections_def close_connections_def
      ConnectionQueue_new_def demo_settings_def VkConnectionSettings_default_def demo_server_def
      VkLdapServer_new_def fill_queue_numeral demo_connect demo_pool_def)

lemma demo_reach:
  "sync_reach (demo_env [''ldap://a''] [] []) 1 True
     \<lparr>pool = demo_pool [''ldap://a'', ''ldap://a''], procs = [], wld = 2\<rparr>"
  using sync_reach.new [OF demo_pool_new] by simp

text \<open>A pool that could not be filled when it was made.\<close>

lemma demo_pool_failed:
  "VkConnectionPool_new (demo_env [] [] []) (demo_server ''ldap://a'') demo_settings 0 =
    ((demo_pool [], Inl (LdapConnectionError (OtherLdapError ''refused''))), 1)"
  by (simp add: VkConnectionPool_new_def reset_connections_def close_connections_def
      ConnectionQueue_new_def demo_settings_def VkConnectionSettings_default_def demo_server_def
      VkLdapServer_new_def fill_queue_numeral demo_connect demo_pool_def)

text \<open>One task has a connection of the pool, and another one waits for it to shut the pool down.\<close>

definition demo_waiting :: "(string, string, nat) sync" where
  "demo_waiting = \<lparr>pool = demo_pool [''ldap://a''],
     procs = [Holding \<lparr>conn = ''ldap://a'', conn_server = demo_server ''ldap://a'', from_epoch = 1\<rparr>, ShutWait],
     wld = 2\<rparr>"

lemma demo_waiting_reach: "sync_reach (demo_env [''ldap://a''] [] []) 1 True demo_waiting"
proof -
  let ?env = "demo_env [''ldap://a''] [] []"
  let ?s = "\<lambda>conns ps. \<lparr>pool = demo_pool conns, procs = ps, wld = 2 :: nat\<rparr>"
  let ?h = "Holding \<lparr>conn = ''ldap://a'', conn_server = demo_server ''ldap://a'', from_epoch = 1\<rparr>"
  note next_step = sync_reach.other [of ?env 1 True]
  have "sync_step ?env (?s [''ldap://a'', ''ldap://a''] []) Spawn (?s [''ldap://a'', ''ldap://a''] [Idle])"
    using sync_step.spawn [of ?env "?s [''ldap://a'', ''ldap://a''] []"] by simp
  then have 1: "sync_reach ?env 1 True (?s [''ldap://a'', ''ldap://a''] [Idle])"
    by (rule next_step [OF demo_reach]) simp_all
  have "sync_step ?env (?s [''ldap://a'', ''ldap://a''] [Idle]) Spawn (?s [''ldap://a'', ''ldap://a''] [Idle, Idle])"
    using sync_step.spawn [of ?env "?s [''ldap://a'', ''ldap://a''] [Idle]"] by simp
  then have 2: "sync_reach ?env 1 True (?s [''ldap://a'', ''ldap://a''] [Idle, Idle])"
    by (rule next_step [OF 1]) simp_all
  have "sync_step ?env (?s [''ldap://a'', ''ldap://a''] [Idle, Idle]) (Begin_take 0)
      (?s [''ldap://a'', ''ldap://a''] [TakeLoop, Idle])"
    using sync_step.begin_take [of 0 "?s [''ldap://a'', ''ldap://a''] [Idle, Idle]" ?env] by simp
  then have 3: "sync_reach ?env 1 True (?s [''ldap://a'', ''ldap://a''] [TakeLoop, Idle])"
    by (rule next_step [OF 2]) simp_all
  have "take_connection (demo_pool [''ldap://a'', ''ldap://a'']) =
      (Ok \<lparr>conn = ''ldap://a'', conn_server = demo_server ''ldap://a'', from_epoch = 1\<rparr>, demo_pool [''ldap://a''])"
    by (simp add: take_connection_Ok demo_pool_def)
  then have "sync_step ?env (?s [''ldap://a'', ''ldap://a''] [TakeLoop, Idle]) (Take 0) (?s [''ldap://a''] [?h, Idle])"
    using sync_step.take [of 0 "?s [''ldap://a'', ''ldap://a''] [TakeLoop, Idle]" _ _ ?env] by simp
  then have 4: "sync_reach ?env 1 True (?s [''ldap://a''] [?h, Idle])"
    by (rule next_step [OF 3]) simp_all
  have "sync_step ?env (?s [''ldap://a''] [?h, Idle]) (Begin_shutdown 1) (?s [''ldap://a''] [?h, ShutLoop])"
    using sync_step.begin_shutdown [of 1 "?s [''ldap://a''] [?h, Idle]" ?env] by simp
  then have 5: "sync_reach ?env 1 True (?s [''ldap://a''] [?h, ShutLoop])"
    by (rule next_step [OF 4]) simp_all
  have "shutdown ?env (demo_pool [''ldap://a'']) 2 = (Stuck, demo_pool [''ldap://a''], 2)"
    by (simp add: shutdown_Stuck has_all_connections_def demo_pool_def)
  then have "sync_step ?env (?s [''ldap://a''] [?h, ShutLoop]) (Shutdown_sleep 1) (?s [''ldap://a''] [?h, ShutWait])"
    using sync_step.shutdown_sleep [of 1 "?s [''ldap://a''] [?h, ShutLoop]" ?env] by simp
  from next_step [OF 5 this] show ?thesis by (simp add: demo_waiting_def)
qed

section \<open>Properties\<close>

text \<open>C7. However many tasks use a pool, in whatever order, the connections in the queue and those
  of the current epoch that tasks hold are never more than the configured number.  They are
  exactly that number from a successful reset until the next failed reset, the next shutdown that
  empties the pool, or the next panic of a task that holds a connection (the flag of
  \<open>sync_reach\<close>): nothing else loses a connection of the current epoch or duplicates one.  (Fewer
  than \<open>2 ^ 64\<close> resets, after which the epoch would start again.)\<close>

theorem pool_conserves_connections:
  assumes "sync_reach env n b s" and "n < 2 ^ 64"
  shows "length (queue (cq s)) + held (epoch (cq s)) (procs s) \<le> q_size (cq s)
    \<and> (b \<longrightarrow> length (queue (cq s)) + held (epoch (cq s)) (procs s) = q_size (cq s))"
  using pool_okD(3,4) [OF sync_reach_inv [OF assms]] by blast

theorem pool_conserves_connections_witness:
  "length (queue (cq \<lparr>pool = demo_pool [''ldap://a'', ''ldap://a''],
     procs = [] :: (string, string) proc list, wld = 2 :: nat\<rparr>)) = 2"
  using pool_conserves_connections [OF demo_reach] by (simp add: held_def cq_def demo_pool_def)

text \<open>C8. No wake-up is lost: a task only ever waits for a connection while the queue is empty, and
  a shutdown only while connections are out.  So, as long as the last reset succeeded and the pool
  was not shut down, whenever some task waits there is a task that holds a connection of the
  current epoch, and its \<open>return_connection\<close> wakes every waiting task with a connection in the
  queue.\<close>

theorem waiting_is_woken:
  assumes "sync_reach env n True s" and "n < 2 ^ 64" and "0 < q_size (cq s)"
    and "TakeWait \<in> set (procs s) \<or> ShutWait \<in> set (procs s)"
  shows "\<exists>i s'. sync_step env s (Return i) s' \<and> queue (cq s') \<noteq> []
    \<and> TakeWait \<notin> set (procs s') \<and> ShutWait \<notin> set (procs s')"
proof -
  have inv: "sync_inv n True s" using assms(1,2) by (rule sync_reach_inv)
  have "0 < held (epoch (cq s)) (procs s)"
    using assms(3,4) pool_okD [OF inv] by fastforce
  then obtain p where p: "p \<in> set (procs s)" "held_at (epoch (cq s)) p"
    unfolding held_def by (metis filter_empty_conv length_greater_0_conv)
  then obtain i where i: "i < length (procs s)" "procs s ! i = p"
    by (auto simp: in_set_conv_nth)
  from p(2) obtain pc where pc: "p = Holding pc" "from_epoch pc = epoch (cq s)"
    by (cases p) auto
  let ?p' = "(pool s)\<lparr>pool_queue := queue_put (conn pc) (cq s)\<rparr>"
  let ?s' = "s\<lparr>pool := ?p', wld := wld s, procs := notify_waiters ((procs s)[i := Idle])\<rparr>"
  have "return_connection env pc (pool s) (wld s) = (True, ?p', wld s)"
    using pc by (simp add: return_connection_def get_epoch_def cq_def)
  with i pc sync_step.return [of i s pc env True ?p' "wld s"]
  have "sync_step env s (Return i) ?s'" by simp
  then show ?thesis
    by (intro exI [of _ i] exI [of _ ?s']) (simp add: cq_def queue_put_def)
qed

theorem waiting_is_woken_witness:
  "\<exists>i s'. sync_step (demo_env [''ldap://a''] [] []) demo_waiting (Return i) s' \<and> queue (cq s') \<noteq> []
    \<and> ShutWait \<notin> set (procs s')"
  using waiting_is_woken [OF demo_waiting_reach]
  by (auto simp: demo_waiting_def cq_def demo_pool_def)

text \<open>C19. After a failed refresh of a pool with at least one configured connection, and until the
  next refresh, nobody can get a connection from it and no \<open>shutdown\<close> of it ever completes: the
  shutdown waits for connections that were all closed.  (\<open>clear_server_list\<close> drops the pool from
  the context, so that no refresh comes, and leaves a task waiting for ever.)\<close>

theorem failed_pool_never_shuts_down:
  assumes "sync_reach env n b s" and "Suc n < 2 ^ 64" and "sync_step env s (Refresh False) t"
    and "quiet_run env t u"
  shows "queue (cq u) = [] \<and> finished (procs u) = finished (procs t)"
  using dead_quiet_run [OF assms(4) failed_refresh_dead [OF assms(1-3)]] by (simp add: dead_def)

theorem failed_pool_never_shuts_down_witness:
  "queue (cq \<lparr>pool = \<lparr>pool_queue = \<lparr>queue = [], epoch = 2, q_size = 2\<rparr>, pool_server = demo_server ''ldap://a''\<rparr>,
    procs = [] :: (string, string) proc list, wld = 2 :: nat\<rparr>) = []"
proof -
  let ?env = "demo_env [] [] []"
  let ?s = "\<lparr>pool = demo_pool [], procs = [], wld = 1\<rparr>"
  let ?t = "\<lparr>pool = \<lparr>pool_queue = \<lparr>queue = [], epoch = 2, q_size = 2\<rparr>, pool_server = demo_server ''ldap://a''\<rparr>,
    procs = [], wld = 2\<rparr>"
  have reach: "sync_reach ?env 1 False ?s"
    using sync_reach.new [OF demo_pool_failed] by simp
  have "refresh_connections ?env demo_settings (demo_pool []) 1 =
      (Inl (LdapConnectionError (OtherLdapError ''refused'')), pool ?t, 2)"
    by (simp add: refresh_connections_def reset_connections_def close_connections_def demo_settings_def
        VkConnectionSettings_default_def demo_server_def VkLdapServer_new_def fill_queue_numeral
        demo_connect demo_pool_def)
  then have "sync_step ?env ?s (Refresh False) ?t"
    using sync_step.refresh_failed [of ?env demo_settings ?s] by simp
  from failed_pool_never_shuts_down [OF reach _ this quiet_run.here] show ?thesis by simp
qed

text \<open>C30. A task that panics with a connection of the current epoch takes it out of the pool for good: from
  then on, and until the next refresh, no \<open>shutdown\<close> of the pool ever completes, whatever the other
  tasks do, as it waits for a connection that nobody will return.\<close>

theorem dropped_connection_blocks_shutdown:
  assumes "sync_reach env n True s" and "n < 2 ^ 64" and "sync_step env s (Drop i) t"
    and "procs s ! i = Holding pc" and "from_epoch pc = epoch (cq s)" and "quiet_run env t u"
  shows "finished (procs u) = finished (procs t)
    \<and> length (queue (cq u)) + held (epoch (cq u)) (procs u) < q_size (cq u)"
  using short_quiet_run [OF assms(6) drop_short [OF sync_reach_inv [OF assms(1,2)] assms(3-5)]]
  by (simp add: short_def)

theorem dropped_connection_blocks_shutdown_witness:
  "length (queue (cq (demo_waiting\<lparr>procs := [Idle, ShutWait]\<rparr>))) < q_size (cq (demo_waiting\<lparr>procs := [Idle, ShutWait]\<rparr>))"
proof -
  let ?h = "\<lparr>conn = ''ldap://a'', conn_server = demo_server ''ldap://a'', from_epoch = 1\<rparr>"
  have "sync_step (demo_env [''ldap://a''] [] []) demo_waiting (Drop 0) (demo_waiting\<lparr>procs := [Idle, ShutWait]\<rparr>)"
    using sync_step.drop [of 0 demo_waiting ?h] by (simp add: demo_waiting_def)
  from dropped_connection_blocks_shutdown [OF demo_waiting_reach _ this, of ?h, OF _ _ _ quiet_run.here]
  show ?thesis by (simp add: demo_waiting_def cq_def demo_pool_def)
qed

end
