(* ===== verification/Pool_Ownership.thy ===== *)
theory Pool_Ownership
  imports Pool_Sync "HOL-Library.Multiset"
begin

text \<open>
  Who owns the connections of a pool (\<open>VkConnectionPool\<close> of \<open>src/src/vkldap/connection.rs\<close>), whatever
  its tasks do: the binds of two users must never run over one connection at the same time, and a
  connection must not stay open when nobody can close it any more.

  \<open>live\<close> is the set of open connections in a state of the world.  That the client library makes a
  new one, closes one, and does neither in anything else, is the hypothesis \<open>tracks_connections\<close>.
\<close>

definition tracks_connections :: "('u, 'c, 'w) ldap_env \<Rightarrow> ('w \<Rightarrow> 'c set) \<Rightarrow> bool" where
  "tracks_connections env live \<longleftrightarrow>
     (\<forall>cs url w. case connect env cs url w of
        (Inr c, w') \<Rightarrow> c \<notin> live w \<and> live w' = insert c (live w)
      | (Inl _, w') \<Rightarrow> live w' = live w)
     \<and> (\<forall>c w. live (unbind env c w) = live w - {c})
     \<and> (\<forall>path w. live (snd (fs_read env path w)) = live w)
     \<and> (\<forall>c w w'. uses_conn env c w w' \<longrightarrow> live w' = live w)"

section \<open>The connections of a pool and its tasks\<close>

fun conns_of :: "('u, 'c) proc \<Rightarrow> 'c list" where
  "conns_of (Holding pc) = [conn pc]"
| "conns_of _ = []"

definition taken :: "('u, 'c) proc list \<Rightarrow> 'c list" where
  "taken ps = concat (map conns_of ps)"

definition handles :: "('u, 'c, 'w) sync \<Rightarrow> 'c list" where
  "handles s = queue (cq s) @ taken (procs s)"

lemma taken_update:
  "i < length ps \<Longrightarrow>
   mset (taken (ps[i := y])) + mset (conns_of (ps ! i)) = mset (taken ps) + mset (conns_of y)"
proof (induction ps arbitrary: i)
  case (Cons p ps)
  then show ?case by (cases i) (simp_all add: taken_def add.assoc add.left_commute)
qed simp

text \<open>A task that held nothing and holds nothing moves.\<close>

lemma taken_move:
  "i < length ps \<Longrightarrow> conns_of (ps ! i) = [] \<Longrightarrow> conns_of y = [] \<Longrightarrow> mset (taken (ps[i := y])) = mset (taken ps)"
  using taken_update [of i ps y] by simp

lemma conns_of_wake [simp]: "conns_of (wake p) = conns_of p"
  by (cases p) simp_all

lemma taken_notify [simp]: "taken (notify_waiters ps) = taken ps"
  by (simp add: taken_def notify_waiters_def comp_def)

text \<open>
  The connections in \<open>m\<close> are open and different, and besides the connections in \<open>base\<close>, which are
  of others, there are no more.
\<close>

definition owned :: "('w \<Rightarrow> 'c set) \<Rightarrow> 'c set \<Rightarrow> 'c multiset \<Rightarrow> 'w \<Rightarrow> bool" where
  "owned live base m w \<longleftrightarrow>
     (\<forall>c. count m c \<le> 1) \<and> set_mset m \<inter> base = {} \<and> live w = base \<union> set_mset m"

lemma owned_same: "owned live base m w \<Longrightarrow> live w' = live w \<Longrightarrow> owned live base m w'"
  by (simp add: owned_def)

lemma owned_open:
  assumes "owned live base m w" "c \<notin> live w" "live w' = insert c (live w)"
  shows "owned live base (add_mset c m) w'"
  using assms by (auto simp: owned_def not_in_iff)

lemma owned_close:
  assumes "owned live base (add_mset c m) w" "tracks_connections env live"
  shows "owned live base m (close env c w)"
proof -
  from assms(1) have one: "count m d \<le> 1" "c \<notin># m" "c \<notin> base" for d
    by (auto simp: owned_def not_in_iff dest: spec [of _ c] spec [of _ d] split: if_splits)
  with assms show ?thesis
    by (auto simp: owned_def close_def tracks_connections_def)
qed

lemma owned_closes:
  assumes "tracks_connections env live" "owned live base (mset cs + m) w"
  shows "owned live base m (fold (close env) cs w)"
  using assms(2) by (induction cs arbitrary: w) (simp_all add: owned_close [OF _ assms(1)])

section \<open>Making connections\<close>

lemma try_then_live:
  assumes "live (snd p) = l" "\<And>a w. p = (Inr a, w) \<Longrightarrow> live (snd (k a w)) = live w"
  shows "live (snd (try_then p k)) = l"
  using assms by (cases "(p, k)" rule: try_then.cases) auto

lemma read_file_live:
  "tracks_connections env live \<Longrightarrow> live (snd (read_file env path msg w)) = live w"
  by (simp add: tracks_connections_def read_file_def split_def Let_def)

lemma connect_live:
  assumes "tracks_connections env live" "connect env cs url w = (r, w')"
  shows "case r of Inr c \<Rightarrow> c \<notin> live w \<and> live w' = insert c (live w) | Inl _ \<Rightarrow> live w' = live w"
proof -
  from assms(1) have "\<forall>cs url w. case connect env cs url w of
      (Inr c, w') \<Rightarrow> c \<notin> live w \<and> live w' = insert c (live w)
    | (Inl _, w') \<Rightarrow> live w' = live w"
    unfolding tracks_connections_def by (rule conjunct1)
  from this [THEN spec [of _ cs], THEN spec [of _ url], THEN spec [of _ w]] assms(2)
  show ?thesis by (cases r) simp_all
qed

lemma tls_settings_live:
  assumes "tracks_connections env live"
  shows "live (snd (tls_settings env settings w)) = live w"
proof -
  note reads = read_file_live [OF assms]
  have ca: "live (snd (add_ca_certificate env settings b w)) = live w" for b w
    unfolding add_ca_certificate_def
    by (cases "ca_cert_path settings"; simp only: option.case snd_conv)
      (rule try_then_live, rule reads, rule try_then_live, simp_all)
  have client: "live (snd (add_client_identity env settings b w)) = live w" for b w
    unfolding add_client_identity_def
    by (cases "client_cert_path settings"; cases "client_key_path settings"; simp only: option.case snd_conv)
      (rule try_then_live, rule reads, rule try_then_live, rule reads, rule try_then_live, simp_all)
  show ?thesis
    unfolding tls_settings_def
    by (rule try_then_live, rule ca, rule try_then_live, rule client, rule try_then_live, simp_all)
qed

lemma new_connection_live:
  assumes "tracks_connections env live" "VkLdapConnection_new env settings server w = (r, w')"
  shows "case r of Inr c \<Rightarrow> c \<notin> live w \<and> live w' = insert c (live w) | Inl _ \<Rightarrow> live w' = live w"
proof -
  define p where "p = (if requires_tls env settings (get_url_ref server) then tls_settings env settings w
    else (Inr LdapConnSettings_new, w))"
  have live: "live (snd p) = live w"
    using tls_settings_live [OF assms(1)] by (simp add: p_def)
  have new: "VkLdapConnection_new env settings server w = try_then p (\<lambda>cs w.
      let (r, w') = connect env (cs\<lparr>conn_timeout := Some (timeout_connection settings)\<rparr>) (get_url_ref server) w
      in (case r of Inr c \<Rightarrow> Inr c | Inl err \<Rightarrow> Inl (LdapConnectionError err), w'))"
    by (simp add: p_def VkLdapConnection_new_def create_ldap_connection_def)
  obtain x w1 where p: "p = (x, w1)" by (cases p)
  show ?thesis
  proof (cases x)
    case (Inl err)
    with assms(2) live show ?thesis by (auto simp: new p)
  next
    case (Inr cs)
    obtain y w2 where y: "connect env (cs\<lparr>conn_timeout := Some (timeout_connection settings)\<rparr>)
        (get_url_ref server) w1 = (y, w2)"
      by (metis prod.collapse)
    with assms(2) Inr have "r = (case y of Inr c \<Rightarrow> Inr c | Inl err \<Rightarrow> Inl (LdapConnectionError err))" "w' = w2"
      by (simp_all add: new p)
    with connect_live [OF assms(1) y] live show ?thesis
      by (cases y) (simp_all add: p)
  qed
qed

lemma fill_queue_owned:
  assumes env: "tracks_connections env live"
  shows "owned live base (mset (queue q) + m) w \<Longrightarrow> fill_queue env server settings n q w = (res, q', w') \<Longrightarrow>
    owned live base (mset (queue q') + m) w'"
proof (induction n arbitrary: q w)
  case (Suc n)
  obtain r w1 where r: "VkLdapConnection_new env settings server w = (r, w1)"
    by (metis prod.collapse)
  note live = new_connection_live [OF env r]
  show ?case
  proof (cases r)
    case (Inl err)
    with live Suc.prems(1) have "owned live base (mset (queue q) + m) w1"
      by (simp add: owned_same)
    from owned_closes [OF env this] Inl r Suc.prems(2) show ?thesis
      by (auto simp: close_connections_def)
  next
    case (Inr c)
    with live Suc.prems(1) have "owned live base (add_mset c (mset (queue q) + m)) w1"
      using owned_open by fastforce
    with Suc.IH [of "q\<lparr>queue := c # queue q\<rparr>" w1] Inr r Suc.prems(2) show ?thesis
      by simp
  qed
qed simp

lemma reset_owned:
  assumes env: "tracks_connections env live" and own: "owned live base (mset (queue q) + m) w"
    and reset: "reset_connections env server settings q w = (res, q', w')"
  shows "owned live base (mset (queue q') + m) w'"
proof -
  let ?q = "(fst (close_connections env q w))\<lparr>epoch := epoch q + 1,
    q_size := unat (connection_pool_size settings)\<rparr>"
  have "fill_queue env server settings (unat (connection_pool_size settings)) ?q
      (snd (close_connections env q w)) = (res, q', w')"
    using reset by (simp add: reset_connections_def Let_def split_def)
  from fill_queue_owned [OF env _ this, of base m] owned_closes [OF env own] show ?thesis
    by (simp add: close_connections_def)
qed

section \<open>Every step keeps the ownership\<close>

abbreviation owns :: "('w \<Rightarrow> 'c set) \<Rightarrow> 'c set \<Rightarrow> ('u, 'c, 'w) sync \<Rightarrow> bool" where
  "owns live base s \<equiv> owned live base (mset (handles s)) (wld s)"

lemma owns_refresh:
  assumes "tracks_connections env live" "owns live base s"
    and "refresh_connections env settings (pool s) (wld s) = (res, p', w')" "taken ps = taken (procs s)"
  shows "owns live base (s\<lparr>pool := p', wld := w', procs := ps\<rparr>)"
proof -
  from assms(3) obtain q' where
    "reset_connections env (pool_server (pool s)) settings (cq s) (wld s) = (res, q', w')"
    and "p' = (pool s)\<lparr>pool_queue := q'\<rparr>"
    by (auto simp: refresh_connections_def cq_def split: prod.splits)
  with reset_owned [OF assms(1) _ this(1), of base "mset (taken (procs s))"] assms(2,4) show ?thesis
    by (simp add: handles_def cq_def)
qed

text \<open>A step that only moves connections between the queue and the tasks.\<close>

lemma owns_moved:
  assumes "owns live base s" "mset (handles s') = mset (handles s)" "live (wld s') = live (wld s)"
  shows "owns live base s'"
  using assms by (simp add: owned_same)

lemma handles_move:
  assumes "i < length (procs s)" "conns_of (procs s ! i) = []" "conns_of y = []"
  shows "mset (handles (s\<lparr>procs := (procs s)[i := y]\<rparr>)) = mset (handles s)"
  using taken_move [OF assms] by (simp add: handles_def cq_def)

lemma handles_take:
  assumes "i < length (procs s)" "procs s ! i = TakeLoop" "take_connection (pool s) = (Ok pc, p')"
  shows "mset (handles (s\<lparr>pool := p', procs := (procs s)[i := Holding pc]\<rparr>)) = mset (handles s)"
proof -
  have "mset (butlast (queue (cq s))) + {#last (queue (cq s))#} = mset (queue (cq s))"
    using assms(3) by (metis take_connection_Ok append_butlast_last_id cq_def mset.simps mset_append)
  moreover have "mset (taken ((procs s)[i := Holding pc])) = mset (taken (procs s)) + {#last (queue (cq s))#}"
    using taken_update [OF assms(1), of "Holding pc"] assms(2,3) by (simp add: take_connection_Ok cq_def)
  ultimately show ?thesis
    using assms(3) by (simp add: handles_def cq_def take_connection_Ok)
qed

lemma owns_return:
  assumes env: "tracks_connections env live" and own: "owns live base s"
    and i: "i < length (procs s)" "procs s ! i = Holding pc"
    and ret: "return_connection env pc (pool s) (wld s) = (notified, p', w')"
    and ps: "taken ps = taken ((procs s)[i := Idle])"
  shows "owns live base (s\<lparr>pool := p', wld := w', procs := ps\<rparr>)"
proof -
  have taken: "mset (taken (procs s)) = add_mset (conn pc) (mset (taken ps))"
    using taken_update [OF i(1), of Idle] i(2) ps by simp
  show ?thesis
  proof (cases "get_epoch (pool_queue (pool s)) = from_epoch pc")
    case True
    with ret own taken show ?thesis
      by (auto simp: return_connection_def handles_def cq_def queue_put_def)
  next
    case False
    with ret have "p' = pool s" "w' = close env (conn pc) (wld s)"
      by (auto simp: return_connection_def)
    with own taken owned_close [OF _ env] show ?thesis
      by (simp add: handles_def cq_def)
  qed
qed

lemma owns_shutdown:
  assumes env: "tracks_connections env live" and own: "owns live base s"
    and i: "i < length (procs s)" "procs s ! i = ShutLoop"
    and shut: "shutdown env (pool s) (wld s) = (Ok (), p', w')"
  shows "owns live base (s\<lparr>pool := p', wld := w', procs := (procs s)[i := ShutDone]\<rparr>)"
  using owned_closes [OF env, of base "queue (cq s)" "mset (taken (procs s))" "wld s"] own shut
    taken_move [OF i(1), of ShutDone] i(2)
  by (auto simp: shutdown_Ok handles_def cq_def)

lemma owns_step:
  assumes "sync_step env s l s'" and "\<forall>i. l \<noteq> Drop i" and env: "tracks_connections env live" and own: "owns live base s"
  shows "owns live base s'"
  using assms(1)
proof cases
  case spawn
  with own show ?thesis by (simp add: handles_def cq_def taken_def)
next
  case (begin_take i)
  with own owns_moved [OF own] handles_move [of i s TakeLoop] show ?thesis by simp
next
  case (take i pc p')
  with own owns_moved [OF own] handles_take [of i s pc p'] show ?thesis by simp
next
  case (take_sleep i p')
  with own owns_moved [OF own] handles_move [of i s TakeWait] show ?thesis
    by (simp add: take_connection_Stuck)
next
  case (use i pc w')
  have "live w' = live (wld s)"
    using env use(5) unfolding tracks_connections_def by blast
  with use own show ?thesis by (simp add: handles_def cq_def owned_same)
next
  case (return i pc notified p' w')
  have "taken ((if notified then notify_waiters else id) ((procs s)[i := Idle])) = taken ((procs s)[i := Idle])"
    by simp
  from owns_return [OF env own return(3-5) this] return show ?thesis by simp
next
  case (refresh_ok settings p' w')
  with owns_refresh [OF env own refresh_ok(3), of "notify_waiters (procs s)"] show ?thesis by simp
next
  case (refresh_failed settings err p' w')
  with owns_refresh [OF env own refresh_failed(3), of "procs s"] show ?thesis by simp
next
  case (begin_shutdown i)
  with own owns_moved [OF own] handles_move [of i s ShutLoop] show ?thesis by simp
next
  case (shutdown i p' w')
  with owns_shutdown [OF env own] show ?thesis by blast
next
  case (shutdown_sleep i p' w')
  with own owns_moved [OF own] handles_move [of i s ShutWait] show ?thesis
    by (simp add: shutdown_Stuck)
qed (use assms(2) in blast)

lemma owns_new:
  assumes env: "tracks_connections env live" and new: "VkConnectionPool_new env server settings w = ((p, res), w')"
  shows "owns live (live w) \<lparr>pool = p, procs = [], wld = w'\<rparr>"
proof -
  from new obtain q where "reset_connections env server settings ConnectionQueue_new w = (res, q, w')"
    and p: "p = \<lparr>pool_queue = q, pool_server = server\<rparr>"
    by (auto simp: VkConnectionPool_new_def split: prod.splits)
  from reset_owned [OF env _ this(1), of "live w" "{#}"] show ?thesis
    by (simp add: p owned_def handles_def cq_def taken_def ConnectionQueue_new_def)
qed

text \<open>A task that panics takes the connection it holds with it: from then on it is of others.\<close>

fun lost_by :: "('u, 'c, 'w) sync \<Rightarrow> label \<Rightarrow> 'c list" where
  "lost_by s (Drop i) = conns_of (procs s ! i)"
| "lost_by s _ = []"

lemma owned_lose:
  assumes "owned live base (add_mset c m) w"
  shows "owned live (insert c base) m w" "c \<notin> base"
proof -
  have "count m d \<le> 1" "c \<notin># m" "c \<notin> base" for d
    using assms by (auto simp: owned_def not_in_iff dest: spec [of _ c] spec [of _ d] split: if_splits)
  with assms show "owned live (insert c base) m w" "c \<notin> base" by (auto simp: owned_def)
qed

lemma owns_drop:
  assumes "sync_step env s (Drop i) s'" "owns live base s"
  shows "\<exists>c. lost_by s (Drop i) = [c] \<and> c \<notin> base \<and> owns live (insert c base) s'"
  using assms(1)
proof cases
  case (drop pc)
  have "mset (handles s) = add_mset (conn pc) (mset (handles s'))"
    using taken_update [OF drop(2), of Idle] drop(1,3) by (simp add: handles_def cq_def)
  with assms(2) have "owned live base (add_mset (conn pc) (mset (handles s'))) (wld s')"
    using drop(1) by simp
  from owned_lose [OF this] drop(3) show ?thesis by simp
qed

text \<open>Runs of any length, with the connections that tasks which panicked took with them.\<close>

inductive sync_run ::
  "('u, 'c, 'w) ldap_env \<Rightarrow> ('u, 'c, 'w) sync \<Rightarrow> 'c list \<Rightarrow> ('u, 'c, 'w) sync \<Rightarrow> bool" for env s
where
  start: "sync_run env s [] s"
| further: "sync_run env s lost t \<Longrightarrow> sync_step env t l u \<Longrightarrow> sync_run env s (lost @ lost_by t l) u"

lemma owns_run:
  assumes "sync_run env s lost s'" "tracks_connections env live" "owns live base s"
  shows "owns live (base \<union> set lost) s' \<and> distinct lost \<and> base \<inter> set lost = {}"
  using assms
proof (induction rule: sync_run.induct)
  case (further lost t l u)
  then have t: "owns live (base \<union> set lost) t" "distinct lost" "base \<inter> set lost = {}" by simp_all
  show ?case
  proof (cases "\<exists>i. l = Drop i")
    case True
    with owns_drop [OF _ t(1)] further.hyps(2) obtain c where
      "lost_by t l = [c]" "c \<notin> base \<union> set lost" "owns live (insert c (base \<union> set lost)) u"
      by blast
    with t(2,3) show ?thesis by simp
  next
    case False
    with t owns_step [OF further.hyps(2) _ further.prems(1) t(1)] show ?thesis by (cases l) simp_all
  qed
qed simp

lemma ownedD:
  assumes "owned live base (mset cs) w"
  shows "distinct cs" "live w = base \<union> set cs" "base \<inter> set cs = {}"
  using assms by (auto simp: owned_def distinct_count_atmost_1 count_mset_0_iff le_Suc_eq)

section \<open>Properties\<close>

text \<open>C2. However many tasks use a pool, in whatever order, and whichever of them panic: no connection is
  with two tasks, or with a task and in the queue, at the same time, and none that a task took
  with it when it panicked comes back; every connection the pool or a task has is open; and the
  connections that the module has opened for the pool and not closed are exactly these and the
  ones lost in a panic, one for each task that panicked with a connection.  (A connection that
  was lost in this way is never closed by the module; what the client library does when its
  handle is dropped is not in the sources.)\<close>

theorem connections_owned_once:
  assumes "tracks_connections env live"
    and "VkConnectionPool_new env server settings w = ((p, res), w')"
    and "sync_run env \<lparr>pool = p, procs = [], wld = w'\<rparr> lost s"
  shows "distinct (handles s @ lost) \<and> live (wld s) = live w \<union> set (handles s @ lost)
    \<and> live w \<inter> set (handles s @ lost) = {}"
proof -
  note run = owns_run [OF assms(3,1) owns_new [OF assms(1,2)]]
  from ownedD [OF conjunct1 [OF run]] run show ?thesis by auto
qed

text \<open>A directory that gives its connections the least number above all open ones; the world is the
  list of the open ones.\<close>

definition demo_numbered :: "(string, nat, nat list) ldap_env" where
  "demo_numbered =
   \<lparr> url_scheme = takeWhile (\<lambda>c. c \<noteq> CHR '':''),
     fs_read = (\<lambda>path w. (Inr path, w)),
     certificate_from_pem = Inr,
     identity_from_pkcs8 = (\<lambda>cert key. Inr (cert @ key)),
     build_connector = (\<lambda>b. Inr ''connector''),
     connect = (\<lambda>cs url w. (Inr (Suc (foldr max w 0)), Suc (foldr max w 0) # w)),
     simple_bind = (\<lambda>c t dn pw w. (Inr (Inr ()), w)),
     search_request = (\<lambda>c t base scope f attrs w. (Inr (Inr []), w)),
     who_am_i = (\<lambda>c w. (Inr (Inr ()), w)),
     unbind = removeAll,
     ldap_escape = demo_escape \<rparr>"

lemma above_all: "Suc (foldr max w 0) \<notin> set w"
proof -
  have "x \<le> foldr max w 0" if "x \<in> set w" for x :: nat
    using that by (induction w) auto
  then show ?thesis by fastforce
qed

lemma demo_numbered_tracks: "tracks_connections demo_numbered set"
  by (auto simp: tracks_connections_def demo_numbered_def above_all elim: uses_conn.cases)

definition demo_numbered_at :: "nat list \<Rightarrow> (string, nat) proc list \<Rightarrow> (string, nat, nat list) sync" where
  "demo_numbered_at cs ps =
     \<lparr>pool = \<lparr>pool_queue = \<lparr>queue = cs, epoch = 1, q_size = 2\<rparr>, pool_server = demo_server ''ldap://a''\<rparr>,
      procs = ps, wld = [2, 1]\<rparr>"

lemma demo_numbered_new:
  "VkConnectionPool_new demo_numbered (demo_server ''ldap://a'') demo_settings [] =
    ((pool (demo_numbered_at [2, 1] []), Inr ()), wld (demo_numbered_at [2, 1] []))"
  by (simp add: VkConnectionPool_new_def reset_connections_def close_connections_def demo_numbered_at_def
      ConnectionQueue_new_def demo_settings_def VkConnectionSettings_default_def demo_server_def
      VkLdapServer_new_def fill_queue_numeral VkLdapConnection_new_def create_ldap_connection_def
      requires_tls_def get_url_ref_def demo_numbered_def)

text \<open>A task takes a connection and panics; another one takes the next.\<close>

lemma demo_numbered_run:
  "sync_run demo_numbered (demo_numbered_at [2, 1] []) [1]
    (demo_numbered_at [] [Holding \<lparr>conn = 2, conn_server = demo_server ''ldap://a'', from_epoch = 1\<rparr>])"
  (is "sync_run _ _ _ (demo_numbered_at _ [Holding ?h2])")
proof -
  let ?h = "\<lparr>conn = 1, conn_server = demo_server ''ldap://a'', from_epoch = 1\<rparr>"
  have 1: "sync_step demo_numbered (demo_numbered_at [2, 1] []) Spawn (demo_numbered_at [2, 1] [Idle])"
    using sync_step.spawn [of demo_numbered "demo_numbered_at [2, 1] []"] by (simp add: demo_numbered_at_def)
  have 2: "sync_step demo_numbered (demo_numbered_at [2, 1] [Idle]) (Begin_take 0) (demo_numbered_at [2, 1] [TakeLoop])"
    using sync_step.begin_take [of 0 "demo_numbered_at [2, 1] [Idle]" demo_numbered]
    by (simp add: demo_numbered_at_def)
  have 3: "sync_step demo_numbered (demo_numbered_at [2, 1] [TakeLoop]) (Take 0) (demo_numbered_at [2] [Holding ?h])"
    using sync_step.take [of 0 "demo_numbered_at [2, 1] [TakeLoop]" ?h "pool (demo_numbered_at [2] [])" demo_numbered]
    by (simp add: take_connection_Ok demo_numbered_at_def)
  have 4: "sync_step demo_numbered (demo_numbered_at [2] [Holding ?h]) (Drop 0) (demo_numbered_at [2] [Idle])"
    using sync_step.drop [of 0 "demo_numbered_at [2] [Holding ?h]" ?h demo_numbered]
    by (simp add: demo_numbered_at_def)
  have 5: "sync_step demo_numbered (demo_numbered_at [2] [Idle]) (Begin_take 0) (demo_numbered_at [2] [TakeLoop])"
    using sync_step.begin_take [of 0 "demo_numbered_at [2] [Idle]" demo_numbered]
    by (simp add: demo_numbered_at_def)
  have 6: "sync_step demo_numbered (demo_numbered_at [2] [TakeLoop]) (Take 0) (demo_numbered_at [] [Holding ?h2])"
    using sync_step.take [of 0 "demo_numbered_at [2] [TakeLoop]" ?h2 "pool (demo_numbered_at [] [])" demo_numbered]
    by (simp add: take_connection_Ok demo_numbered_at_def)
  note run = sync_run.further [of demo_numbered "demo_numbered_at [2, 1] []"]
  from run [OF run [OF run [OF run [OF run [OF run [OF sync_run.start 1] 2] 3] 4] 5] 6]
  show ?thesis by (simp add: demo_numbered_at_def)
qed

theorem connections_owned_once_witness:
  "distinct (handles (demo_numbered_at [] [Holding \<lparr>conn = 2, conn_server = demo_server ''ldap://a'', from_epoch = 1\<rparr>])
    @ [1])"
proof -
  have "\<lparr>pool = pool (demo_numbered_at [2, 1] []), procs = [], wld = wld (demo_numbered_at [2, 1] [])\<rparr> =
      demo_numbered_at [2, 1] []"
    by (simp add: demo_numbered_at_def)
  from connections_owned_once [OF demo_numbered_tracks demo_numbered_new, unfolded this, OF demo_numbered_run]
  show ?thesis by (rule conjunct1)
qed

end
