(* ===== verification/Context.thy ===== *)
theory Context
  imports Pool
begin

text \<open>
  The context shared by all tasks (\<open>src/src/vkldap/context.rs\<close>): the servers with their pools, the
  settings, and the functions that work on it.

  A pool is shared through \<open>Arc\<close>: \<open>pools\<close> is the heap of all the pools ever made, a reference is a
  position in it, and the context holds references.  \<open>spawned\<close> lists the detached tasks that have
  not run yet.

  An asynchronous function gives the other tasks a chance to run whenever it waits for a lock or
  for a reply.  What they do in the meantime is the argument \<open>others\<close>, any function on the whole
  state; as the world \<open>'w\<close> is any type, it can make them do something else every time.  Sections
  under the context's lock are atomic.  The blocking variants for the start of the module use
  \<open>try_lock\<close>; whether the lock is taken is their argument.  Logging is left out.
\<close>

record 'u VkLdapContext =
  servers :: "'u VkLdapServer list"
  conn_pools :: "nat list"
  ldap_settings :: VkLdapSettings
  connection_settings :: VkConnectionSettings

datatype ('u, 'c) task =
    Return_conn nat "('u, 'c) VkLdapPoolConnection"
  | Shutdown_pools "nat list"

record ('u, 'c, 'w) sys =
  ctx :: "'u VkLdapContext"
  pools :: "('u, 'c) VkConnectionPool list"
  world :: 'w
  spawned :: "('u, 'c) task list"

type_synonym ('u, 'c, 'w) interference = "('u, 'c, 'w) sys \<Rightarrow> ('u, 'c, 'w) sys"

section \<open>Sections under the lock\<close>

definition VkLdapContext_new :: "'u VkLdapContext" where
  "VkLdapContext_new =
     \<lparr>servers = [], conn_pools = [], ldap_settings = VkLdapSettings_default,
      connection_settings = VkConnectionSettings_default\<rparr>"

definition VkLdapContext_reset :: "'u VkLdapContext \<Rightarrow> 'u VkLdapContext" where
  "VkLdapContext_reset x = VkLdapContext_new"

definition get_ldap_settings :: "'u VkLdapContext \<Rightarrow> VkLdapSettings" where
  "get_ldap_settings x = ldap_settings x"

definition get_connection_settings :: "'u VkLdapContext \<Rightarrow> VkConnectionSettings" where
  "get_connection_settings x = connection_settings x"

definition VkLdapContext_refresh_ldap_settings ::
  "VkLdapSettings \<Rightarrow> 'u VkLdapContext \<Rightarrow> 'u VkLdapContext"
where
  "VkLdapContext_refresh_ldap_settings settings x = x\<lparr>ldap_settings := settings\<rparr>"

definition VkLdapContext_refresh_connection_settings ::
  "VkConnectionSettings \<Rightarrow> 'u VkLdapContext \<Rightarrow> 'u VkLdapContext"
where
  "VkLdapContext_refresh_connection_settings settings x = x\<lparr>connection_settings := settings\<rparr>"

definition VkLdapContext_clear_server_list :: "'u VkLdapContext \<Rightarrow> nat list \<times> 'u VkLdapContext" where
  "VkLdapContext_clear_server_list x = (conn_pools x, x\<lparr>servers := [], conn_pools := []\<rparr>)"

definition new_server :: "'u VkLdapContext \<Rightarrow> 'u \<Rightarrow> 'u VkLdapServer" where
  "new_server x server_url = VkLdapServer_new server_url (length (servers x)) HEALTHY"

definition VkLdapContext_add_server ::
  "'u VkLdapServer \<Rightarrow> nat \<Rightarrow> 'u VkLdapContext \<Rightarrow> 'u VkLdapContext"
where
  "VkLdapContext_add_server server p x =
     x\<lparr>servers := servers x @ [server], conn_pools := conn_pools x @ [p]\<rparr>"

text \<open>Indexing a vector out of its range panics.\<close>

definition get_connection_pool ::
  "'u VkLdapContext \<Rightarrow> 'u VkLdapServer \<Rightarrow> (VkLdapError, nat) outcome"
where
  "get_connection_pool x server =
     (if get_id server < length (conn_pools x) then Ok (conn_pools x ! get_id server) else Panic)"

definition get_current_servers :: "'u VkLdapContext \<Rightarrow> 'u VkLdapServer list" where
  "get_current_servers x = fold (\<lambda>s res. res @ [s]) (servers x) []"

text \<open>
  The local variable \<open>server\<close> hides the argument from its second line on, so that the test for a
  changed URL compares the entry with itself.
\<close>

definition VkLdapContext_update_server_status ::
  "'u VkLdapServer \<Rightarrow> VkLdapServerStatus \<Rightarrow> duration option \<Rightarrow> 'u VkLdapContext \<Rightarrow> 'u VkLdapContext"
where
  "VkLdapContext_update_server_status server status ping_time x =
     (if length (servers x) \<le> get_id server then x
      else let i = get_id server; server = servers x ! i in
        if get_url_ref server \<noteq> get_url_ref server then x
        else let server =
               (if \<not> VkLdapServerStatus_eq (get_status server) status then set_status status server
                else set_status status server)
             in x\<lparr>servers := (servers x)[i := set_ping_time ping_time server]\<rparr>)"

definition find_server :: "'u VkLdapContext \<Rightarrow> 'u VkLdapServer result" where
  "find_server x =
     (if servers x = [] then Inl NoServerConfigured
      else (case find is_healthy (servers x) of
              Some server \<Rightarrow> Inr server
            | None \<Rightarrow> Inl NoHealthyServerAvailable))"

section \<open>Operations of the context\<close>

definition spawn :: "('u, 'c) task \<Rightarrow> ('u, 'c, 'w) sys \<Rightarrow> ('u, 'c, 'w) sys" where
  "spawn t s = s\<lparr>spawned := spawned s @ [t]\<rparr>"

definition add_server ::
  "('u, 'c, 'w) interference \<Rightarrow> ('u, 'c, 'w) ldap_env \<Rightarrow> 'u \<Rightarrow> ('u, 'c, 'w) sys \<Rightarrow> ('u, 'c, 'w) sys"
where
  "add_server others env server_url s =
     (let server = new_server (ctx s) server_url;
          settings = get_connection_settings (ctx s);
          s = others s;
          ((p, res), w) = VkConnectionPool_new env server settings (world s);
          s = others (s\<lparr>world := w\<rparr>);
          server = (case res of
                      Inl err \<Rightarrow> set_status (UNHEALTHY (VkLdapError_fmt err)) server
                    | Inr _ \<Rightarrow> server)
      in s\<lparr>ctx := VkLdapContext_add_server server (length (pools s)) (ctx s),
           pools := pools s @ [p]\<rparr>)"

definition clear_server_list :: "('u, 'c, 'w) sys \<Rightarrow> ('u, 'c, 'w) sys" where
  "clear_server_list s =
     (let (ps, x) = VkLdapContext_clear_server_list (ctx s)
      in spawn (Shutdown_pools ps) (s\<lparr>ctx := x\<rparr>))"

definition reset_context :: "('u, 'c, 'w) sys \<Rightarrow> ('u, 'c, 'w) sys" where
  "reset_context s = s\<lparr>ctx := VkLdapContext_reset (ctx s)\<rparr>"

definition refresh_ldap_settings :: "VkLdapSettings \<Rightarrow> ('u, 'c, 'w) sys \<Rightarrow> ('u, 'c, 'w) sys" where
  "refresh_ldap_settings settings s =
     s\<lparr>ctx := VkLdapContext_refresh_ldap_settings settings (ctx s)\<rparr>"

definition refresh_ldap_settings_blocking ::
  "bool \<Rightarrow> VkLdapSettings \<Rightarrow> ('u, 'c, 'w) sys \<Rightarrow> ('u, 'c, 'w) sys"
where
  "refresh_ldap_settings_blocking locked settings s =
     (if locked then s else s\<lparr>ctx := VkLdapContext_refresh_ldap_settings settings (ctx s)\<rparr>)"

definition refresh_connection_settings_blocking ::
  "bool \<Rightarrow> VkConnectionSettings \<Rightarrow> ('u, 'c, 'w) sys \<Rightarrow> ('u, 'c, 'w) sys"
where
  "refresh_connection_settings_blocking locked settings s =
     (if locked then s else s\<lparr>ctx := VkLdapContext_refresh_connection_settings settings (ctx s)\<rparr>)"

definition update_server_status ::
  "'u VkLdapServer \<Rightarrow> VkLdapServerStatus \<Rightarrow> duration option \<Rightarrow> ('u, 'c, 'w) sys \<Rightarrow> ('u, 'c, 'w) sys"
where
  "update_server_status server status ping_time s =
     s\<lparr>ctx := VkLdapContext_update_server_status server status ping_time (ctx s)\<rparr>"

definition get_servers_health_status :: "('u, 'c, 'w) sys \<Rightarrow> 'u VkLdapServer list" where
  "get_servers_health_status s = get_current_servers (ctx s)"

definition get_connection ::
  "('u, 'c, 'w) interference \<Rightarrow> ('u, 'c, 'w) ldap_env \<Rightarrow> 'u VkLdapServer \<Rightarrow> ('u, 'c, 'w) sys
   \<Rightarrow> 'c result \<times> ('u, 'c, 'w) sys"
where
  "get_connection others env server s =
     (let settings = get_connection_settings (ctx s);
          s = others s;
          (r, w) = VkLdapConnection_new env settings server (world s)
      in (r, s\<lparr>world := w\<rparr>))"

text \<open>
  Taking a connection from the pool at a reference: as long as the pool is empty the others are
  waited for.  \<open>Stuck\<close> is a wait that never ends.
\<close>

definition take_body ::
  "('u, 'c, 'w) interference \<Rightarrow> nat \<Rightarrow> ('u, 'c, 'w) sys
   \<Rightarrow> ('u, 'c, 'w) sys + ((VkLdapError, ('u, 'c) VkLdapPoolConnection) outcome \<times> ('u, 'c, 'w) sys)"
where
  "take_body others p s =
     (case take_connection (pools s ! p) of
        (Stuck, q) \<Rightarrow> Inl (others (s\<lparr>pools := (pools s)[p := q]\<rparr>))
      | (r, q) \<Rightarrow> Inr (r, s\<lparr>pools := (pools s)[p := q]\<rparr>))"

definition take_from ::
  "('u, 'c, 'w) interference \<Rightarrow> nat \<Rightarrow> ('u, 'c, 'w) sys
   \<Rightarrow> (VkLdapError, ('u, 'c) VkLdapPoolConnection) outcome \<times> ('u, 'c, 'w) sys"
where
  "take_from others p s =
     (case loop (take_body others p) s of Some x \<Rightarrow> x | None \<Rightarrow> (Stuck, s))"

definition give_back ::
  "('u, 'c, 'w) ldap_env \<Rightarrow> nat \<Rightarrow> ('u, 'c) VkLdapPoolConnection \<Rightarrow> ('u, 'c, 'w) sys
   \<Rightarrow> ('u, 'c, 'w) sys"
where
  "give_back env p pc s =
     (let (_, q, w) = return_connection env pc (pools s ! p) (world s)
      in s\<lparr>pools := (pools s)[p := q], world := w\<rparr>)"

definition get_pool_connection ::
  "('u, 'c, 'w) interference \<Rightarrow> 'u VkLdapServer \<Rightarrow> ('u, 'c, 'w) sys
   \<Rightarrow> (VkLdapError, ('u, 'c) VkLdapPoolConnection) outcome \<times> ('u, 'c, 'w) sys"
where
  "get_pool_connection others server s =
     and_then (get_connection_pool (ctx s) server, s) (\<lambda>p s. take_from others p (others s))"

definition return_pool_connection ::
  "('u, 'c, 'w) interference \<Rightarrow> ('u, 'c, 'w) ldap_env \<Rightarrow> ('u, 'c) VkLdapPoolConnection
   \<Rightarrow> ('u, 'c, 'w) sys \<Rightarrow> (VkLdapError, unit) outcome \<times> ('u, 'c, 'w) sys"
where
  "return_pool_connection others env pc s =
     and_then (get_connection_pool (ctx s) (conn_server pc), s)
       (\<lambda>p s. (Ok (), give_back env p pc (others s)))"

definition refresh_pool_connections ::
  "('u, 'c, 'w) interference \<Rightarrow> ('u, 'c, 'w) ldap_env \<Rightarrow> 'u VkLdapServer \<Rightarrow> ('u, 'c, 'w) sys
   \<Rightarrow> (VkLdapError, unit) outcome \<times> ('u, 'c, 'w) sys"
where
  "refresh_pool_connections others env server s =
     and_then (get_connection_pool (ctx s) server, s) (\<lambda>p s.
     let settings = get_connection_settings (ctx s);
         s = others s;
         (res, q, w) = refresh_connections env settings (pools s ! p) (world s);
         s = others (s\<lparr>pools := (pools s)[p := q], world := w\<rparr>)
     in (case res of
           Inr _ \<Rightarrow> (Ok (), update_server_status server HEALTHY None s)
         | Inl err \<Rightarrow>
             (Ok (), update_server_status server (UNHEALTHY (VkLdapError_fmt err)) None s)))"

fun refresh_all ::
  "('u, 'c, 'w) interference \<Rightarrow> ('u, 'c, 'w) ldap_env \<Rightarrow> 'u VkLdapServer list \<Rightarrow> ('u, 'c, 'w) sys
   \<Rightarrow> (VkLdapError, unit) outcome \<times> ('u, 'c, 'w) sys"
where
  "refresh_all others env [] s = (Ok (), s)"
| "refresh_all others env (server # rest) s =
     and_then (refresh_pool_connections others env server (others s))
       (\<lambda>_ s. refresh_all others env rest s)"

definition refresh_connection_settings ::
  "('u, 'c, 'w) interference \<Rightarrow> ('u, 'c, 'w) ldap_env \<Rightarrow> VkConnectionSettings \<Rightarrow> ('u, 'c, 'w) sys
   \<Rightarrow> (VkLdapError, unit) outcome \<times> ('u, 'c, 'w) sys"
where
  "refresh_connection_settings others env settings s =
     (let s = others (s\<lparr>ctx := VkLdapContext_refresh_connection_settings settings (ctx s)\<rparr>)
      in refresh_all others env (get_current_servers (ctx s)) s)"

section \<open>The detached tasks\<close>

text \<open>
  One detached task, run up to its end or to where it waits: the result is what is left of it.
\<close>

fun shutdown_pools ::
  "('u, 'c, 'w) ldap_env \<Rightarrow> nat list \<Rightarrow> ('u, 'c, 'w) sys \<Rightarrow> nat list \<times> ('u, 'c, 'w) sys"
where
  "shutdown_pools env [] s = ([], s)"
| "shutdown_pools env (p # ps) s =
     (case shutdown env (pools s ! p) (world s) of
        (Ok _, q, w) \<Rightarrow> shutdown_pools env ps (s\<lparr>pools := (pools s)[p := q], world := w\<rparr>)
      | (_, q, w) \<Rightarrow> (p # ps, s))"

fun run_task :: "('u, 'c, 'w) ldap_env \<Rightarrow> ('u, 'c) task \<Rightarrow> ('u, 'c, 'w) sys \<Rightarrow> ('u, 'c, 'w) sys" where
  "run_task env (Return_conn p pc) s = give_back env p pc s"
| "run_task env (Shutdown_pools ps) s =
     (case shutdown_pools env ps s of
        ([], s) \<Rightarrow> s
      | (ps, s) \<Rightarrow> spawn (Shutdown_pools ps) s)"

definition run_spawned :: "('u, 'c, 'w) ldap_env \<Rightarrow> ('u, 'c, 'w) interference" where
  "run_spawned env s = fold (run_task env) (spawned s) (s\<lparr>spawned := []\<rparr>)"

section \<open>The invariant of the context\<close>

text \<open>
  The number of a server is its position in the list, and the pool at the same position is its own;
  no pool is shared.
\<close>

definition entry_ok :: "('u, 'c, 'w) sys \<Rightarrow> nat \<Rightarrow> bool" where
  "entry_ok s i \<longleftrightarrow> srv_id (servers (ctx s) ! i) = i
     \<and> conn_pools (ctx s) ! i < length (pools s)
     \<and> srv_id (pool_server (pools s ! (conn_pools (ctx s) ! i))) = i
     \<and> srv_url (pool_server (pools s ! (conn_pools (ctx s) ! i))) = srv_url (servers (ctx s) ! i)"

definition ctx_ok :: "('u, 'c, 'w) sys \<Rightarrow> bool" where
  "ctx_ok s \<longleftrightarrow> length (conn_pools (ctx s)) = length (servers (ctx s)) \<and> distinct (conn_pools (ctx s))
     \<and> (\<forall>i < length (servers (ctx s)). entry_ok s i)"

text \<open>The list of servers stays what it is, but for the states of its entries.\<close>

definition same_servers :: "('u, 'c, 'w) sys \<Rightarrow> ('u, 'c, 'w) sys \<Rightarrow> bool" where
  "same_servers s t \<longleftrightarrow> map srv_url (servers (ctx t)) = map srv_url (servers (ctx s))
     \<and> conn_pools (ctx t) = conn_pools (ctx s)"

definition keeps_servers :: "('u, 'c, 'w) interference \<Rightarrow> bool" where
  "keeps_servers others \<longleftrightarrow> (\<forall>s. ctx_ok s \<longrightarrow> ctx_ok (others s) \<and> same_servers s (others s))"

lemma same_servers_refl [simp, intro]: "same_servers s s"
  by (simp add: same_servers_def)

lemma same_servers_trans: "same_servers s t \<Longrightarrow> same_servers t u \<Longrightarrow> same_servers s u"
  by (simp add: same_servers_def)

lemma same_servers_length: "same_servers s t \<Longrightarrow> length (servers (ctx t)) = length (servers (ctx s))"
  unfolding same_servers_def by (metis length_map)

lemma keeps_serversD:
  "keeps_servers others \<Longrightarrow> ctx_ok s \<Longrightarrow> ctx_ok (others s)"
  "keeps_servers others \<Longrightarrow> ctx_ok s \<Longrightarrow> same_servers s (others s)"
  by (simp_all add: keeps_servers_def)

lemma keeps_servers_id [simp]: "keeps_servers (\<lambda>s. s)"
  by (simp add: keeps_servers_def)

text \<open>What \<open>update_server_status\<close> really does.\<close>

lemma update_eq:
  "VkLdapContext_update_server_status server status pt x =
     (if get_id server < length (servers x)
      then x\<lparr>servers := (servers x)[get_id server :=
        (servers x ! get_id server)\<lparr>srv_status := status, srv_ping_time := pt\<rparr>]\<rparr>
      else x)"
  by (simp add: VkLdapContext_update_server_status_def Let_def server_defs)

lemma update_simps [simp]:
  "length (servers (ctx (update_server_status server status pt s))) = length (servers (ctx s))"
  "conn_pools (ctx (update_server_status server status pt s)) = conn_pools (ctx s)"
  "ldap_settings (ctx (update_server_status server status pt s)) = ldap_settings (ctx s)"
  "connection_settings (ctx (update_server_status server status pt s)) = connection_settings (ctx s)"
  "pools (update_server_status server status pt s) = pools s"
  "world (update_server_status server status pt s) = world s"
  "spawned (update_server_status server status pt s) = spawned s"
  by (simp_all add: update_server_status_def update_eq)

lemma update_nth:
  "i < length (servers (ctx s)) \<Longrightarrow>
   servers (ctx (update_server_status server status pt s)) ! i =
     (if i = get_id server then (servers (ctx s) ! i)\<lparr>srv_status := status, srv_ping_time := pt\<rparr>
      else servers (ctx s) ! i)"
  by (simp add: update_server_status_def update_eq)

lemma update_urls [simp]:
  "map srv_url (servers (ctx (update_server_status server status pt s))) = map srv_url (servers (ctx s))"
  by (rule nth_equalityI) (simp_all add: update_nth)

lemma update_same [simp, intro]: "same_servers s (update_server_status server status pt s)"
  by (simp add: same_servers_def)

lemma ctx_ok_update [simp, intro]: "ctx_ok s \<Longrightarrow> ctx_ok (update_server_status server status pt s)"
  by (auto simp: ctx_ok_def entry_ok_def update_nth)

text \<open>Changes of one pool's queue, of the world and of the spawned tasks do not matter.\<close>

lemma ctx_ok_cong:
  assumes "ctx_ok s" and "ctx t = ctx s" and "length (pools s) \<le> length (pools t)"
    and "\<And>p. p < length (pools s) \<Longrightarrow> pool_server (pools t ! p) = pool_server (pools s ! p)"
  shows "ctx_ok t"
  using assms by (fastforce simp: ctx_ok_def entry_ok_def)

lemma ctx_ok_upd [simp]:
  "ctx_ok (s\<lparr>world := w\<rparr>) \<longleftrightarrow> ctx_ok s" "ctx_ok (s\<lparr>spawned := l\<rparr>) \<longleftrightarrow> ctx_ok s"
  "ctx_ok (spawn t s) \<longleftrightarrow> ctx_ok s"
  by (simp_all add: ctx_ok_def entry_ok_def spawn_def)

lemma spawn_simps [simp]:
  "ctx (spawn t s) = ctx s" "pools (spawn t s) = pools s" "world (spawn t s) = world s"
  "spawned (spawn t s) = spawned s @ [t]"
  by (simp_all add: spawn_def)

lemma ctx_ok_set_pools:
  assumes "ctx_ok s" "map pool_server ps = map pool_server (pools s)"
  shows "ctx_ok (s\<lparr>pools := ps\<rparr>)"
  using assms by (intro ctx_ok_cong [OF assms(1)]) (simp_all add: list_eq_iff_nth_eq)

lemma pool_of:
  assumes "ctx_ok s" "i < length (servers (ctx s))" "get_id server = i"
  shows "get_connection_pool (ctx s) server = Ok (conn_pools (ctx s) ! i)"
  using assms by (simp add: get_connection_pool_def ctx_ok_def)

lemma get_current_servers_eq [simp]: "get_current_servers x = servers x"
proof -
  have "fold (\<lambda>s res. res @ [s]) xs acc = acc @ xs" for xs acc :: "'a VkLdapServer list"
    by (induction xs arbitrary: acc) simp_all
  then show ?thesis by (simp add: get_current_servers_def)
qed

text \<open>
  The ways of taking a connection: it waits for ever, or there is one in some later state, of which
  holds what held at the start and what the others keep while the pool is empty.
\<close>

lemma take_body_eq:
  "take_body others p s =
     (if queue (pool_queue (pools s ! p)) = [] then Inl (others s)
      else let (r, q) = take_connection (pools s ! p) in Inr (r, s\<lparr>pools := (pools s)[p := q]\<rparr>))"
  by (simp add: take_body_def take_connection_def queue_take_def queue_is_empty_def)

lemma non_empty_takes:
  "queue (pool_queue q) \<noteq> [] \<Longrightarrow> \<exists>pc q'. take_connection q = (Ok pc, q')"
  by (simp add: take_connection_def queue_take_def queue_is_empty_def)

lemma take_from_cases [consumes 1, case_names start others waits takes]:
  assumes take: "take_from others p s = (r, t)" and "I s"
    and others: "\<And>u. I u \<Longrightarrow> queue (pool_queue (pools u ! p)) = [] \<Longrightarrow> I (others u)"
    and waits: "r = Stuck \<Longrightarrow> t = s \<Longrightarrow> Q"
    and takes: "\<And>u q pc. I u \<Longrightarrow> take_connection (pools u ! p) = (Ok pc, q) \<Longrightarrow> r = Ok pc
      \<Longrightarrow> t = u\<lparr>pools := (pools u)[p := q]\<rparr> \<Longrightarrow> Q"
  shows Q
proof (cases "loop (take_body others p) s")
  case None
  with take waits show ?thesis by (simp add: take_from_def)
next
  case (Some x)
  have "I s \<longrightarrow> (\<exists>u q pc. I u \<and> take_connection (pools u ! p) = (Ok pc, q)
      \<and> x = (Ok pc, u\<lparr>pools := (pools u)[p := q]\<rparr>))"
    using Some
  proof (rule loop_partial)
    fix u r assume "take_body others p u = Inr r"
    then show "I u \<longrightarrow> (\<exists>v q pc. I v \<and> take_connection (pools v ! p) = (Ok pc, q)
        \<and> r = (Ok pc, v\<lparr>pools := (pools v)[p := q]\<rparr>))"
      using non_empty_takes [of "pools u ! p"] by (auto simp: take_body_eq split: if_splits)
  next
    fix u u' r assume "take_body others p u = Inl u'"
      and "I u' \<longrightarrow> (\<exists>v q pc. I v \<and> take_connection (pools v ! p) = (Ok pc, q)
        \<and> r = (Ok pc, v\<lparr>pools := (pools v)[p := q]\<rparr>))"
    then show "I u \<longrightarrow> (\<exists>v q pc. I v \<and> take_connection (pools v ! p) = (Ok pc, q)
        \<and> r = (Ok pc, v\<lparr>pools := (pools v)[p := q]\<rparr>))"
      using others by (auto simp: take_body_eq split: if_splits prod.splits)
  qed
  with Some take takes \<open>I s\<close> show ?thesis by (auto simp: take_from_def)
qed

text \<open>A connection that is there is taken at once, and one that comes later ends the wait.\<close>

lemma take_from_now:
  "queue (pool_queue (pools s ! p)) \<noteq> [] \<Longrightarrow>
   take_from others p s = (let (r, q) = take_connection (pools s ! p) in (r, s\<lparr>pools := (pools s)[p := q]\<rparr>))"
  by (simp add: take_from_def loop.simps take_body_eq Let_def split_def)

lemma take_from_later:
  "queue (pool_queue (pools s ! p)) = [] \<Longrightarrow> fst (take_from others p s) = fst (take_from others p (others s))"
  by (simp add: take_from_def loop.simps [of _ s] take_body_eq split: option.splits)

lemma take_from_waits_end:
  "queue (pool_queue (pools ((others ^^ n) s) ! p)) \<noteq> [] \<Longrightarrow> fst (take_from others p s) \<noteq> Stuck"
proof (induction n arbitrary: s)
  case 0
  then show ?case
    using non_empty_takes [of "pools s ! p"] by (auto simp: take_from_now)
next
  case (Suc n)
  from Suc.IH [of "others s"] Suc.prems have later: "fst (take_from others p (others s)) \<noteq> Stuck"
    by (simp add: funpow_swap1)
  then show ?case
    using take_from_later [of s p others] non_empty_takes [of "pools s ! p"]
    by (cases "queue (pool_queue (pools s ! p)) = []") (auto simp: take_from_now)
qed

text \<open>With nobody to give one back, a task that asks an empty pool waits for ever.\<close>

lemma take_from_alone:
  assumes "queue (pool_queue (pools s ! p)) = []"
  shows "take_from (\<lambda>s. s) p s = (Stuck, s)"
proof (rule take_from_cases [where others = "\<lambda>s. s" and I = "\<lambda>u. queue (pool_queue (pools u ! p)) = []"])
  show "take_from (\<lambda>s. s) p s = (fst (take_from (\<lambda>s. s) p s), snd (take_from (\<lambda>s. s) p s))" by simp
qed (use assms in \<open>auto simp: take_connection_def queue_is_empty_def prod_eq_iff\<close>)

lemma take_from_ok:
  assumes "ctx_ok s" "keeps_servers others" "take_from others p s = (r, t)"
  shows "ctx_ok t" "same_servers s t" "r = Stuck \<or> (\<exists>pc. r = Ok pc)"
proof -
  have "(ctx_ok t \<and> same_servers s t) \<and> (r = Stuck \<or> (\<exists>pc. r = Ok pc))"
    using assms(3)
  proof (cases rule: take_from_cases [where I = "\<lambda>u. ctx_ok u \<and> same_servers s u"])
    case (others u)
    then show ?case using keeps_serversD [OF assms(2)] same_servers_trans by blast
  next
    case (takes u q pc)
    with ctx_ok_set_pools [of u "(pools u)[p := q]"] vk_pool.take_heap [OF takes(2)] show ?thesis
      by (auto simp: same_servers_def)
  qed (use assms(1) in simp_all)
  then show "ctx_ok t" "same_servers s t" "r = Stuck \<or> (\<exists>pc. r = Ok pc)" by auto
qed

text \<open>The connection carries the server of the pool.\<close>

lemma take_from_id:
  assumes "ctx_ok s" "keeps_servers others" "i < length (servers (ctx s))"
    and "take_from others (conn_pools (ctx s) ! i) s = (Ok pc, t)"
  shows "get_id (conn_server pc) = i"
  using assms(4)
proof (cases rule: take_from_cases [where I = "\<lambda>u. ctx_ok u \<and> same_servers s u"])
  case (others u)
  then show ?case using keeps_serversD [OF assms(2)] same_servers_trans by blast
next
  case (takes u q pc')
  then have "entry_ok u i" "conn_pools (ctx u) = conn_pools (ctx s)" "conn_server pc = pool_server (pools u ! (conn_pools (ctx s) ! i))"
    using assms(3) same_servers_length [of s u]
    by (auto simp: ctx_ok_def same_servers_def take_connection_def queue_take_def split: if_splits)
  then show ?thesis by (simp add: entry_ok_def get_id_def)
qed (use assms(1) in simp_all)

lemma give_back_ok:
  assumes "ctx_ok s"
  shows "ctx_ok (give_back env p pc s) \<and> ctx (give_back env p pc s) = ctx s"
proof -
  have "ctx_ok (s\<lparr>pools := (pools s)[p := q]\<rparr>)"
    if "return_connection env pc (pools s ! p) (world s) = (b, q, w)" for b q w
    using assms vk_pool.give_heap [OF that] by (rule ctx_ok_set_pools)
  then show ?thesis
    by (cases "return_connection env pc (pools s ! p) (world s)")
      (simp add: give_back_def ctx_ok_def entry_ok_def)
qed

text \<open>Every operation on the list and its entries keeps the invariant.\<close>

lemma ctx_ok_clear [simp]: "ctx_ok (clear_server_list s)"
  by (simp add: clear_server_list_def VkLdapContext_clear_server_list_def ctx_ok_def spawn_def)

lemma ctx_ok_reset [simp]: "ctx_ok (reset_context s)"
  by (simp add: reset_context_def VkLdapContext_reset_def VkLdapContext_new_def ctx_ok_def)

lemma VkConnectionPool_new_server:
  "VkConnectionPool_new env server settings w = ((p, res), w') \<Longrightarrow> pool_server p = server"
  by (auto simp: VkConnectionPool_new_def split: prod.splits)

lemma ctx_ok_append:
  assumes "ctx_ok s" and "srv_id server = length (servers (ctx s))"
    and "srv_id (pool_server p) = srv_id server" "srv_url (pool_server p) = srv_url server"
  shows "ctx_ok (s\<lparr>ctx := VkLdapContext_add_server server (length (pools s)) (ctx s), pools := pools s @ [p]\<rparr>)"
proof -
  have old: "conn_pools (ctx s) ! i < length (pools s)" if "i < length (servers (ctx s))" for i
    using assms(1) that by (simp add: ctx_ok_def entry_ok_def)
  then have "length (pools s) \<notin> set (conn_pools (ctx s))"
    using assms(1) by (force simp: in_set_conv_nth ctx_ok_def)
  with assms old show ?thesis
    by (auto simp: ctx_ok_def entry_ok_def VkLdapContext_add_server_def nth_append less_Suc_eq)
qed

lemma add_server_unfold:
  obtains p res w t where
    "VkConnectionPool_new env (new_server (ctx s) url) (connection_settings (ctx s))
       (world (others s)) = ((p, res), w)"
    and "t = others ((others s)\<lparr>world := w\<rparr>)" and "add_server others env url s =
      t\<lparr>ctx := VkLdapContext_add_server
          (case res of Inl err \<Rightarrow> set_status (UNHEALTHY (VkLdapError_fmt err)) (new_server (ctx s) url)
           | Inr _ \<Rightarrow> new_server (ctx s) url) (length (pools t)) (ctx t),
        pools := pools t @ [p]\<rparr>"
proof -
  obtain p res w where
    "VkConnectionPool_new env (new_server (ctx s) url) (connection_settings (ctx s))
       (world (others s)) = ((p, res), w)"
    by (metis prod.collapse)
  then show ?thesis
    by (intro that [of p res w, OF _ refl]) (simp_all add: add_server_def Let_def get_connection_settings_def)
qed

lemma add_server_ok:
  assumes "ctx_ok s" "keeps_servers others"
  shows "ctx_ok (add_server others env url s)"
    and "map srv_url (servers (ctx (add_server others env url s))) = map srv_url (servers (ctx s)) @ [url]"
proof -
  obtain p res w t where
    new: "VkConnectionPool_new env (new_server (ctx s) url) (connection_settings (ctx s))
       (world (others s)) = ((p, res), w)"
    and t: "t = others ((others s)\<lparr>world := w\<rparr>)" and eq: "add_server others env url s =
      t\<lparr>ctx := VkLdapContext_add_server
          (case res of Inl err \<Rightarrow> set_status (UNHEALTHY (VkLdapError_fmt err)) (new_server (ctx s) url)
           | Inr _ \<Rightarrow> new_server (ctx s) url) (length (pools t)) (ctx t),
        pools := pools t @ [p]\<rparr>"
    by (rule add_server_unfold [of env s url others])
  have ok: "ctx_ok ((others s)\<lparr>world := w\<rparr>)" using assms by (simp add: keeps_servers_def)
  have same: "same_servers s t"
    using same_servers_trans [of s "(others s)\<lparr>world := w\<rparr>" t] keeps_serversD(2) [OF assms(2) ok]
      keeps_serversD(2) [OF assms(2,1)]
    by (simp add: t same_servers_def)
  have "ctx_ok t" using keeps_serversD(1) [OF assms(2) ok] by (simp add: t)
  moreover have "pool_server p = new_server (ctx s) url" using VkConnectionPool_new_server [OF new] .
  ultimately show "ctx_ok (add_server others env url s)"
    using same_servers_length [OF same]
    unfolding eq
    by (intro ctx_ok_append) (auto simp: new_server_def server_defs split: sum.splits)
  show "map srv_url (servers (ctx (add_server others env url s))) = map srv_url (servers (ctx s)) @ [url]"
    using same unfolding eq
    by (auto simp: VkLdapContext_add_server_def same_servers_def new_server_def server_defs
        split: sum.splits)
qed

section \<open>Refreshing all pools\<close>

lemma refresh_pool_ok:
  assumes ok: "ctx_ok s" and keep: "keeps_servers others" and i: "get_id server < length (servers (ctx s))"
  shows "\<exists>t. refresh_pool_connections others env server s = (Ok (), t) \<and> ctx_ok t \<and> same_servers s t"
proof -
  let ?p = "conn_pools (ctx s) ! get_id server" and ?u = "others s"
  obtain res q w where r: "refresh_connections env (connection_settings (ctx s)) (pools ?u ! ?p) (world ?u) = (res, q, w)"
    by (metis prod.collapse)
  let ?v = "?u\<lparr>pools := (pools ?u)[?p := q], world := w\<rparr>"
  have u: "ctx_ok ?u" "same_servers s ?u" using keeps_serversD [OF keep ok] .
  have "ctx_ok (?u\<lparr>pools := (pools ?u)[?p := q]\<rparr>)"
    using u(1) vk_pool.refill_heap [OF r] by (rule ctx_ok_set_pools)
  then have v: "ctx_ok ?v" by (simp add: ctx_ok_def entry_ok_def)
  have "same_servers s ?v" using u(2) by (simp add: same_servers_def)
  with keeps_serversD [OF keep v] have t: "ctx_ok (others ?v)" "same_servers s (others ?v)"
    by (auto intro: same_servers_trans)
  show ?thesis
    using t same_servers_trans [OF t(2) update_same]
    by (cases res) (auto simp: refresh_pool_connections_def pool_of [OF ok i refl] Let_def r
        get_connection_settings_def)
qed

lemma refresh_all_ok:
  assumes "ctx_ok s" "keeps_servers others"
    and "\<And>server. server \<in> set l \<Longrightarrow> get_id server < length (servers (ctx s))"
  shows "\<exists>t. refresh_all others env l s = (Ok (), t) \<and> ctx_ok t \<and> same_servers s t"
  using assms(1,3)
proof (induction l arbitrary: s)
  case (Cons server l)
  have u: "ctx_ok (others s)" "same_servers s (others s)"
    using keeps_serversD [OF assms(2) Cons.prems(1)] .
  with Cons.prems(2) obtain t where
    t: "refresh_pool_connections others env server (others s) = (Ok (), t)" "ctx_ok t" "same_servers (others s) t"
    using refresh_pool_ok [OF u(1) assms(2), of server] by (auto simp: same_servers_length)
  have st: "same_servers s t" using u(2) t(3) by (rule same_servers_trans)
  from Cons.IH [OF t(2)] obtain t' where
    "refresh_all others env l t = (Ok (), t')" "ctx_ok t'" "same_servers t t'"
    using Cons.prems(2) same_servers_length [OF st] by auto
  with t(1) st show ?case by (auto intro: same_servers_trans)
qed auto

lemma ctx_ok_get_id: "ctx_ok s \<Longrightarrow> server \<in> set (servers (ctx s)) \<Longrightarrow> get_id server < length (servers (ctx s))"
  by (auto simp: ctx_ok_def entry_ok_def in_set_conv_nth get_id_def)

text \<open>
  The state of a server after its pool was refreshed: healthy with a full pool, or unhealthy with
  an empty one, and in both cases with a new epoch.
\<close>

definition the_pool :: "('u, 'c, 'w) sys \<Rightarrow> nat \<Rightarrow> 'c ConnectionQueue" where
  "the_pool s i = pool_queue (pools s ! (conn_pools (ctx s) ! i))"

definition refreshed_from :: "('u, 'c, 'w) sys \<Rightarrow> ('u, 'c, 'w) sys \<Rightarrow> nat \<Rightarrow> bool" where
  "refreshed_from s t i \<longleftrightarrow> epoch (the_pool t i) = epoch (the_pool s i) + 1
     \<and> (if is_healthy (servers (ctx t) ! i)
        then length (queue (the_pool t i)) = unat (connection_pool_size (connection_settings (ctx t)))
        else queue (the_pool t i) = [])"

text \<open>The entries two states differ in, at most.\<close>

definition differ_at :: "nat set \<Rightarrow> ('u, 'c, 'w) sys \<Rightarrow> ('u, 'c, 'w) sys \<Rightarrow> bool" where
  "differ_at A s t \<longleftrightarrow> conn_pools (ctx t) = conn_pools (ctx s)
     \<and> length (servers (ctx t)) = length (servers (ctx s))
     \<and> connection_settings (ctx t) = connection_settings (ctx s)
     \<and> (\<forall>i < length (servers (ctx s)). i \<notin> A \<longrightarrow>
          servers (ctx t) ! i = servers (ctx s) ! i \<and> the_pool t i = the_pool s i)"

lemma refresh_pool_alone:
  assumes ok: "ctx_ok s" and i: "get_id server < length (servers (ctx s))"
  shows "\<exists>t. refresh_pool_connections (\<lambda>s. s) env server s = (Ok (), t) \<and> ctx_ok t
    \<and> refreshed_from s t (get_id server) \<and> differ_at {get_id server} s t"
proof -
  let ?i = "get_id server"
  let ?p = "conn_pools (ctx s) ! ?i"
  obtain res q w where r: "refresh_connections env (connection_settings (ctx s)) (pools s ! ?p) (world s) = (res, q, w)"
    by (metis prod.collapse)
  from ok i have p: "?p < length (pools s)" "length (conn_pools (ctx s)) = length (servers (ctx s))"
    and other: "j < length (servers (ctx s)) \<Longrightarrow> j \<noteq> ?i \<Longrightarrow> conn_pools (ctx s) ! j \<noteq> ?p" for j
    by (auto simp: ctx_ok_def entry_ok_def nth_eq_iff_index_eq)
  obtain t where t: "refresh_pool_connections (\<lambda>s. s) env server s = (Ok (), t)" "ctx_ok t"
    using refresh_pool_ok [OF ok keeps_servers_id i] by blast
  define status where "status = (case res of Inr _ \<Rightarrow> HEALTHY | Inl err \<Rightarrow> UNHEALTHY (VkLdapError_fmt err))"
  have eq: "t = update_server_status server status None (s\<lparr>pools := (pools s)[?p := q], world := w\<rparr>)"
    using t(1) by (cases res)
      (simp_all add: refresh_pool_connections_def pool_of [OF ok i refl] r status_def get_connection_settings_def)
  have q: "the_pool t ?i = pool_queue q" "j < length (servers (ctx s)) \<Longrightarrow> j \<noteq> ?i \<Longrightarrow> the_pool t j = the_pool s j" for j
    using p other [THEN not_sym] by (simp_all add: eq the_pool_def)
  from reset_all_or_nothing [OF r] have e: "epoch (pool_queue q) = epoch (the_pool s ?i) + 1"
    "case res of Inr _ \<Rightarrow> length (queue (pool_queue q)) = unat (connection_pool_size (connection_settings (ctx s)))
     | Inl _ \<Rightarrow> queue (pool_queue q) = []"
    by (simp_all add: the_pool_def)
  have "srv_status (servers (ctx t) ! ?i) = status" "connection_settings (ctx t) = connection_settings (ctx s)"
    using i by (simp_all add: eq update_nth)
  then have "refreshed_from s t ?i"
    using e by (cases res) (simp_all add: refreshed_from_def q status_def)
  moreover have "differ_at {?i} s t"
    using q(2) by (auto simp: differ_at_def eq update_nth)
  ultimately show ?thesis using t by blast
qed

lemma refresh_all_alone:
  assumes "ctx_ok s" and "distinct (map get_id l)"
    and "\<And>server. server \<in> set l \<Longrightarrow> get_id server < length (servers (ctx s))"
  shows "\<exists>t. refresh_all (\<lambda>s. s) env l s = (Ok (), t) \<and> ctx_ok t
    \<and> (\<forall>i \<in> get_id ` set l. refreshed_from s t i) \<and> differ_at (get_id ` set l) s t"
  using assms
proof (induction l arbitrary: s)
  case Nil
  then show ?case by (simp add: differ_at_def)
next
  case (Cons server l)
  then obtain t where t: "refresh_pool_connections (\<lambda>s. s) env server s = (Ok (), t)" "ctx_ok t"
    "refreshed_from s t (get_id server)" "differ_at {get_id server} s t"
    using refresh_pool_alone [of s server env] by auto
  have "\<And>x. x \<in> set l \<Longrightarrow> get_id x < length (servers (ctx t))"
    using Cons.prems(3) t(4) by (simp add: differ_at_def)
  with Cons.IH [OF t(2)] Cons.prems(2) obtain t' where
    t': "refresh_all (\<lambda>s. s) env l t = (Ok (), t')" "ctx_ok t'"
    "\<forall>i \<in> get_id ` set l. refreshed_from t t' i" "differ_at (get_id ` set l) t t'"
    by auto
  have "refreshed_from s t' (get_id server)"
    using t(3) t(4) t'(4) Cons.prems(2) Cons.prems(3) [of server]
    by (simp add: refreshed_from_def differ_at_def)
  moreover have "refreshed_from s t' i" if i: "i \<in> get_id ` set l" for i
  proof -
    have "get_id server \<notin> get_id ` set l" using Cons.prems(2) by simp
    with i have "i \<noteq> get_id server" by blast
    moreover from i Cons.prems(3) have "i < length (servers (ctx s))" by auto
    ultimately have "the_pool t i = the_pool s i" using t(4) by (simp add: differ_at_def)
    moreover have "refreshed_from t t' i" using i t'(3) by blast
    ultimately show ?thesis by (simp add: refreshed_from_def)
  qed
  moreover have "differ_at (get_id ` set (server # l)) s t'"
    using t(4) t'(4) by (simp add: differ_at_def)
  ultimately show ?case using t(1) t'(1,2) by auto
qed

lemma refresh_settings_ok:
  assumes "ctx_ok s" and "keeps_servers others"
  shows "\<exists>t. refresh_connection_settings others env settings s = (Ok (), t) \<and> ctx_ok t \<and> same_servers s t"
proof -
  let ?u = "s\<lparr>ctx := VkLdapContext_refresh_connection_settings settings (ctx s)\<rparr>"
  have "ctx_ok ?u" "same_servers s ?u"
    using assms(1) by (simp_all add: VkLdapContext_refresh_connection_settings_def ctx_ok_def
        entry_ok_def same_servers_def)
  then have v: "ctx_ok (others ?u)" "same_servers s (others ?u)"
    using keeps_serversD [OF assms(2), of ?u] by (auto intro: same_servers_trans)
  from refresh_all_ok [OF v(1) assms(2) ctx_ok_get_id [OF v(1)]] v(2) show ?thesis
    by (fastforce simp: refresh_connection_settings_def Let_def intro: same_servers_trans)
qed

lemma ctx_ok_ids: "ctx_ok s \<Longrightarrow> map get_id (servers (ctx s)) = [0..<length (servers (ctx s))]"
  by (rule nth_equalityI) (auto simp: ctx_ok_def entry_ok_def get_id_def)

section \<open>The settings of the context\<close>

text \<open>Nothing but the two refresh operations (and a reset) changes the settings of the context.\<close>

definition keeps_settings :: "('u, 'c, 'w) interference \<Rightarrow> bool" where
  "keeps_settings others \<longleftrightarrow> (\<forall>s. ldap_settings (ctx (others s)) = ldap_settings (ctx s)
     \<and> connection_settings (ctx (others s)) = connection_settings (ctx s))"

lemma keeps_settingsD:
  assumes "keeps_settings others"
  shows "ldap_settings (ctx (others s)) = ldap_settings (ctx s)"
    "connection_settings (ctx (others s)) = connection_settings (ctx s)"
  using assms by (simp_all add: keeps_settings_def)

lemma keeps_settings_id [simp]: "keeps_settings (\<lambda>s. s)"
  by (simp add: keeps_settings_def)

lemma clear_settings:
  "ldap_settings (ctx (clear_server_list s)) = ldap_settings (ctx s)"
  "connection_settings (ctx (clear_server_list s)) = connection_settings (ctx s)"
  by (simp_all add: clear_server_list_def VkLdapContext_clear_server_list_def)

lemma add_server_settings:
  assumes "keeps_settings others"
  shows "ldap_settings (ctx (add_server others env url s)) = ldap_settings (ctx s)"
    "connection_settings (ctx (add_server others env url s)) = connection_settings (ctx s)"
  using keeps_settingsD [OF assms]
  by (simp_all add: add_server_def Let_def split_def VkLdapContext_add_server_def)

lemma refresh_pool_settings:
  assumes "keeps_settings others"
  shows "ldap_settings (ctx (snd (refresh_pool_connections others env server s))) = ldap_settings (ctx s)"
    "connection_settings (ctx (snd (refresh_pool_connections others env server s))) = connection_settings (ctx s)"
  using keeps_settingsD [OF assms]
  by (simp_all add: refresh_pool_connections_def get_connection_pool_def Let_def split_def split: sum.split)

lemma refresh_all_settings:
  assumes "keeps_settings others"
  shows "ldap_settings (ctx (snd (refresh_all others env l s))) = ldap_settings (ctx s)
    \<and> connection_settings (ctx (snd (refresh_all others env l s))) = connection_settings (ctx s)"
proof (induction l arbitrary: s)
  case (Cons server l)
  obtain r t where t: "refresh_pool_connections others env server (others s) = (r, t)" by (metis prod.collapse)
  with refresh_pool_settings [OF assms, of env server "others s"] keeps_settingsD [OF assms, of s]
  have "ldap_settings (ctx t) = ldap_settings (ctx s)" "connection_settings (ctx t) = connection_settings (ctx s)"
    by simp_all
  with Cons.IH [of t] t show ?case by (cases r) simp_all
qed simp

lemma refreshed_settings:
  assumes "keeps_settings others" and "refresh_connection_settings others env settings s = (r, t)"
  shows "ldap_settings (ctx t) = ldap_settings (ctx s)" "connection_settings (ctx t) = settings"
proof -
  let ?u = "s\<lparr>ctx := VkLdapContext_refresh_connection_settings settings (ctx s)\<rparr>"
  have "t = snd (refresh_all others env (get_current_servers (ctx (others ?u))) (others ?u))"
    using arg_cong [OF assms(2), of snd] by (simp only: refresh_connection_settings_def Let_def snd_conv)
  with refresh_all_settings [OF assms(1)] keeps_settingsD [OF assms(1), of ?u]
  show "ldap_settings (ctx t) = ldap_settings (ctx s)" "connection_settings (ctx t) = settings"
    by (simp_all add: VkLdapContext_refresh_connection_settings_def)
qed

section \<open>The detached tasks keep the list\<close>

lemma shutdown_pools_ok:
  "ctx_ok s \<Longrightarrow> ctx_ok (snd (shutdown_pools env ps s)) \<and> ctx (snd (shutdown_pools env ps s)) = ctx s"
proof (induction env ps s rule: shutdown_pools.induct)
  case (2 env p ps s)
  show ?case
  proof (cases "shutdown env (pools s ! p) (world s)")
    case (fields r q w)
    then have "ctx_ok (s\<lparr>pools := (pools s)[p := q]\<rparr>)"
      using 2(2) vk_pool.shut_heap [OF fields] by (simp add: ctx_ok_set_pools)
    then have "ctx_ok (s\<lparr>pools := (pools s)[p := q], world := w\<rparr>)"
      by (simp add: ctx_ok_def entry_ok_def)
    with 2 fields show ?thesis by (cases r) simp_all
  qed
qed simp

lemma run_task_ok: "ctx_ok s \<Longrightarrow> ctx_ok (run_task env t s) \<and> ctx (run_task env t s) = ctx s"
proof (cases t)
  case (Return_conn p pc)
  assume "ctx_ok s"
  with Return_conn show ?thesis using give_back_ok [of s env p pc] by simp
next
  case (Shutdown_pools ps)
  assume "ctx_ok s"
  with Shutdown_pools show ?thesis
    using shutdown_pools_ok [of s env ps] by (auto split: prod.splits list.splits)
qed

lemma keeps_servers_run_spawned: "keeps_servers (run_spawned env)"
proof -
  have "ctx_ok s \<Longrightarrow> ctx_ok (fold (run_task env) ts s) \<and> ctx (fold (run_task env) ts s) = ctx s" for s ts
    by (induction ts arbitrary: s) (use run_task_ok in \<open>auto simp del: run_task.simps\<close>)
  then show ?thesis
    by (simp add: keeps_servers_def run_spawned_def same_servers_def)
qed

section \<open>A context for the witnesses\<close>

definition demo_start :: "(string, string, nat) sys" where
  "demo_start = \<lparr>ctx = VkLdapContext_new\<lparr>connection_settings := demo_settings\<rparr>, pools = [], world = 0,
     spawned = []\<rparr>"

definition demo_sys :: "string list \<Rightarrow> string list \<Rightarrow> (string, string, nat) sys" where
  "demo_sys up urls = fold (add_server (\<lambda>s. s) (demo_env up [] [])) urls demo_start"

lemma ctx_ok_demo:
  "ctx_ok (demo_sys up urls) \<and> map srv_url (servers (ctx (demo_sys up urls))) = urls"
proof (induction urls rule: rev_induct)
  case Nil
  show ?case by (simp add: demo_sys_def demo_start_def ctx_ok_def VkLdapContext_new_def)
next
  case (snoc url urls)
  have "demo_sys up (urls @ [url]) = add_server (\<lambda>s. s) (demo_env up [] []) url (demo_sys up urls)"
    by (simp add: demo_sys_def)
  with snoc add_server_ok [of "demo_sys up urls" "\<lambda>s. s" "demo_env up [] []" url] show ?case by simp
qed

lemma length_demo [simp]: "length (servers (ctx (demo_sys up urls))) = length urls"
  using ctx_ok_demo [of up urls] by (metis length_map)

section \<open>Properties\<close>

text \<open>C10. Every operation on the list of servers and its entries, and every detached task,
  keeps the list well-formed: the number of a server is its position, the pool at that position
  was made for that server, and no two servers share a pool, provided that the tasks that run in
  between leave the list as it is.\<close>

theorem context_invariant:
  assumes "ctx_ok s" and "keeps_servers others"
  shows "ctx_ok (add_server others env url s) \<and> ctx_ok (clear_server_list s) \<and> ctx_ok (reset_context s)
    \<and> ctx_ok (update_server_status server status pt s)
    \<and> ctx_ok (snd (get_pool_connection others server s))
    \<and> ctx_ok (snd (return_pool_connection others env pc s))
    \<and> ctx_ok (snd (get_connection others env server s))
    \<and> ctx_ok (snd (refresh_pool_connections others env server s))
    \<and> ctx_ok (snd (refresh_connection_settings others env settings s))
    \<and> ctx_ok (run_spawned env s)"
proof -
  have "ctx_ok (others s)" using keeps_serversD(1) [OF assms(2,1)] .
  then have "ctx_ok (snd (take_from others p (others s)))" "ctx_ok (give_back env p pc (others s))"
    "ctx_ok (snd (get_connection others env server s))" for p
    using take_from_ok(1) [OF _ assms(2), of "others s" p] give_back_ok [of "others s" env p pc]
    by (auto simp: get_connection_def Let_def split_def prod_eq_iff)
  moreover have "ctx_ok (snd (refresh_pool_connections others env server s))"
  proof (cases "get_id server < length (servers (ctx s))")
    case True
    with refresh_pool_ok [OF assms, of server env] show ?thesis by fastforce
  next
    case False
    with assms(1) show ?thesis
      by (simp add: refresh_pool_connections_def get_connection_pool_def ctx_ok_def)
  qed
  moreover have "ctx_ok (snd (refresh_connection_settings others env settings s))"
    using refresh_settings_ok [OF assms, of env settings] by fastforce
  moreover have "ctx_ok (run_spawned env s)"
    using keeps_serversD(1) [OF keeps_servers_run_spawned assms(1)] .
  ultimately show ?thesis
    using assms add_server_ok [OF assms]
    by (auto simp: get_pool_connection_def return_pool_connection_def get_connection_pool_def)
qed

theorem context_invariant_witness:
  "ctx_ok (add_server (\<lambda>s. s) (demo_env [] [] []) ''ldap://b'' (demo_sys [''ldap://a''] [''ldap://a'']))"
  using context_invariant [of "demo_sys [''ldap://a''] [''ldap://a'']" "\<lambda>s. s" "demo_env [] [] []"]
    ctx_ok_demo by simp

text \<open>C12. When no other task runs meanwhile (and the log calls on the way return), changing the
  connection settings refreshes every server, and afterwards the
  state shown for a server is the state of its pool: healthy servers have a full pool of the new
  size, unhealthy ones an empty pool, and every pool has moved to a new epoch.  With other tasks
  this need not be so: a request can hold one of the new connections, or report an error of an old one.\<close>

theorem refresh_settings_result:
  assumes "ctx_ok s"
  shows "\<exists>t. refresh_connection_settings (\<lambda>s. s) env settings s = (Ok (), t) \<and> ctx_ok t
    \<and> (\<forall>i < length (servers (ctx s)).
        epoch (the_pool t i) = epoch (the_pool s i) + 1
        \<and> (if is_healthy (servers (ctx t) ! i)
           then length (queue (the_pool t i)) = unat (connection_pool_size settings)
           else queue (the_pool t i) = []))"
proof -
  let ?u = "s\<lparr>ctx := VkLdapContext_refresh_connection_settings settings (ctx s)\<rparr>"
  have u: "ctx_ok ?u" "servers (ctx ?u) = servers (ctx s)" "the_pool ?u = the_pool s"
    "connection_settings (ctx ?u) = settings"
    using assms by (simp_all add: VkLdapContext_refresh_connection_settings_def ctx_ok_def
        entry_ok_def the_pool_def fun_eq_iff)
  have "distinct (map get_id (servers (ctx s)))" using ctx_ok_ids [OF assms] by simp
  with refresh_all_alone [OF u(1), of "servers (ctx s)" env] obtain t where
    t: "refresh_all (\<lambda>s. s) env (servers (ctx s)) ?u = (Ok (), t)" "ctx_ok t"
    "\<forall>i \<in> get_id ` set (servers (ctx s)). refreshed_from ?u t i"
    "differ_at (get_id ` set (servers (ctx s))) ?u t"
    using ctx_ok_get_id [OF assms] u(2) by auto
  have "get_id ` set (servers (ctx s)) = {0..<length (servers (ctx s))}"
    using arg_cong [OF ctx_ok_ids [OF assms], of set] by simp
  with t u show ?thesis
    by (auto simp: refresh_connection_settings_def refreshed_from_def differ_at_def)
qed

theorem refresh_settings_result_witness:
  "\<exists>t. refresh_connection_settings (\<lambda>s. s) (demo_env [''ldap://a''] [] []) demo_settings
    (demo_sys [''ldap://a''] [''ldap://a'', ''ldap://b'']) = (Ok (), t) \<and> ctx_ok t"
  using refresh_settings_result [of "demo_sys [''ldap://a''] [''ldap://a'', ''ldap://b'']"
      "demo_env [''ldap://a''] [] []" demo_settings] ctx_ok_demo by blast

text \<open>Nothing that other tasks do to the states and pools of the servers meanwhile can make that
  refresh panic or change the list.\<close>

theorem refresh_settings_safe:
  assumes "ctx_ok s" and "keeps_servers others"
  shows "\<exists>t. refresh_connection_settings others env settings s = (Ok (), t) \<and> ctx_ok t \<and> same_servers s t"
  using assms by (rule refresh_settings_ok)

theorem refresh_settings_safe_witness:
  "\<exists>t. refresh_connection_settings (run_spawned (demo_env [''ldap://a''] [] []))
    (demo_env [''ldap://a''] [] []) demo_settings (demo_sys [] [''ldap://a'']) = (Ok (), t) \<and> ctx_ok t"
  using refresh_settings_safe [OF _ keeps_servers_run_spawned, of "demo_sys [] [''ldap://a'']"
      "demo_env [''ldap://a''] [] []" "demo_env [''ldap://a''] [] []" demo_settings] ctx_ok_demo by blast

text \<open>A report on a server changes the entry at that server's number, whatever URL is there now:
  the test that should notice a changed URL never fires.  All the other entries stay the same.\<close>

theorem update_ignores_url:
  assumes "get_id server < length (servers (ctx s))"
  shows "srv_status (servers (ctx (update_server_status server status pt s)) ! get_id server) = status
    \<and> srv_url (servers (ctx (update_server_status server status pt s)) ! get_id server) =
      srv_url (servers (ctx s) ! get_id server)
    \<and> (\<forall>j < length (servers (ctx s)). j \<noteq> get_id server \<longrightarrow>
        servers (ctx (update_server_status server status pt s)) ! j = servers (ctx s) ! j)"
  using assms by (simp add: update_nth)

theorem update_ignores_url_witness:
  "srv_status (servers (ctx (update_server_status (demo_server ''ldap://old'') (UNHEALTHY ''gone'') None
     (demo_sys [] [''ldap://new'']))) ! 0) = UNHEALTHY ''gone''"
  using update_ignores_url [of "demo_server ''ldap://old''" "demo_sys [] [''ldap://new'']"]
  by (simp add: demo_server_def server_defs)

text \<open>What a connection carries that was taken at once.\<close>

lemma taken_alone:
  assumes "ctx_ok s" and "i < length (servers (ctx s))" and "get_id server = i"
    and "get_pool_connection (\<lambda>s. s) server s = (Ok pc, s1)"
  shows "get_id (conn_server pc) = i" "from_epoch pc = epoch (the_pool s i)"
proof -
  let ?p = "conn_pools (ctx s) ! i"
  from assms have take: "take_from (\<lambda>s. s) ?p s = (Ok pc, s1)"
    by (simp add: get_pool_connection_def pool_of)
  from assms(1,2) take show "get_id (conn_server pc) = i" by (intro take_from_id) simp_all
  have "queue (pool_queue (pools s ! ?p)) \<noteq> []"
    using take take_from_alone [of s ?p] by (cases "queue (pool_queue (pools s ! ?p)) = []") simp_all
  with take show "from_epoch pc = epoch (the_pool s i)"
    by (auto simp: take_from_now take_connection_def queue_take_def queue_is_empty_def the_pool_def)
qed

text \<open>The list with one new server in place of all that were there.\<close>

lemma replaced_alone:
  assumes "s2 = add_server (\<lambda>s. s) env url (clear_server_list s1)"
  shows "conn_pools (ctx s2) = [length (pools s1)]" "length (pools s2) = Suc (length (pools s1))"
    "map srv_url (servers (ctx s2)) = [url]" "epoch (the_pool s2 0) = 1"
    "is_healthy (servers (ctx s2) ! 0) \<Longrightarrow> length (queue (the_pool s2 0)) = q_size (the_pool s2 0)"
proof -
  let ?t = "clear_server_list s1"
  obtain p res w t where
    new: "VkConnectionPool_new env (new_server (ctx ?t) url) (connection_settings (ctx ?t)) (world ?t) = ((p, res), w)"
    and t: "t = ?t\<lparr>world := w\<rparr>" and eq: "add_server (\<lambda>s. s) env url ?t =
      t\<lparr>ctx := VkLdapContext_add_server
          (case res of Inl err \<Rightarrow> set_status (UNHEALTHY (VkLdapError_fmt err)) (new_server (ctx ?t) url)
           | Inr _ \<Rightarrow> new_server (ctx ?t) url) (length (pools t)) (ctx t),
        pools := pools t @ [p]\<rparr>"
    by (rule add_server_unfold [of env ?t url "\<lambda>s. s"])
  from new obtain q where q: "reset_connections env (new_server (ctx ?t) url) (connection_settings (ctx ?t))
      ConnectionQueue_new (world ?t) = (res, q, w)" and p: "pool_queue p = q"
    by (auto simp: VkConnectionPool_new_def split: prod.splits)
  note clear = clear_server_list_def VkLdapContext_clear_server_list_def spawn_def
  have pools: "pools s2 = pools s1 @ [p]" and ids: "conn_pools (ctx s2) = [length (pools s1)]"
    and servers: "servers (ctx s2) = [case res of
      Inl err \<Rightarrow> set_status (UNHEALTHY (VkLdapError_fmt err)) (new_server (ctx ?t) url) | Inr _ \<Rightarrow> new_server (ctx ?t) url]"
    unfolding assms eq by (simp_all add: t VkLdapContext_add_server_def clear)
  then show "conn_pools (ctx s2) = [length (pools s1)]" "length (pools s2) = Suc (length (pools s1))"
    "map srv_url (servers (ctx s2)) = [url]"
    by (simp_all add: new_server_def server_defs split: sum.split)
  have pool: "the_pool s2 0 = q" by (simp add: the_pool_def ids pools p)
  with reset_connections_result [OF q] show "epoch (the_pool s2 0) = 1"
    by (simp add: ConnectionQueue_new_def)
  assume "is_healthy (servers (ctx s2) ! 0)"
  with servers have "res = Inr ()" by (cases res) (simp_all add: set_status_def)
  with reset_connections_result [OF q] pool show "length (queue (the_pool s2 0)) = q_size (the_pool s2 0)"
    by (simp add: has_all_connections_def)
qed



end
