(* ===== verification/Server_Table.thy ===== *)
theory Server_Table
  imports Context
begin

text \<open>
  What the context is for its users: a table with one row per server, its URL, its state and its
  connections (\<open>src/src/vkldap/context.rs\<close>).  The table has no numbers, no references to pools and no
  heap; the operations on it are the specification, and the operations of the context refine them
  as long as no other task interferes.
\<close>

section \<open>The specification\<close>

record ('u, 'c) row =
  row_url :: 'u
  row_status :: VkLdapServerStatus
  row_ping :: "duration option"
  row_queue :: "'c ConnectionQueue"

definition status_after :: "unit result \<Rightarrow> VkLdapServerStatus" where
  "status_after res = (case res of Inr _ \<Rightarrow> HEALTHY | Inl err \<Rightarrow> UNHEALTHY (VkLdapError_fmt err))"

text \<open>The queue of a row is filled anew, and the row shows how that went.\<close>

definition row_refresh ::
  "('u, 'c, 'w) ldap_env \<Rightarrow> VkConnectionSettings \<Rightarrow> ('u, 'c) row \<Rightarrow> 'w \<Rightarrow> ('u, 'c) row \<times> 'w"
where
  "row_refresh env settings r w =
     (let (res, q, w) = reset_connections env (VkLdapServer_new (row_url r) 0 HEALTHY) settings (row_queue r) w
      in (r\<lparr>row_status := status_after res, row_ping := None, row_queue := q\<rparr>, w))"

fun table_refresh ::
  "('u, 'c, 'w) ldap_env \<Rightarrow> VkConnectionSettings \<Rightarrow> ('u, 'c) row list \<Rightarrow> 'w \<Rightarrow> ('u, 'c) row list \<times> 'w"
where
  "table_refresh env settings [] w = ([], w)"
| "table_refresh env settings (r # rs) w =
     (let (r, w) = row_refresh env settings r w; (rs, w) = table_refresh env settings rs w in (r # rs, w))"

definition row_new :: "'u \<Rightarrow> ('u, 'c) row" where
  "row_new url = \<lparr>row_url = url, row_status = HEALTHY, row_ping = None, row_queue = ConnectionQueue_new\<rparr>"

definition table_choose :: "('u, 'c) row list \<Rightarrow> ('u, 'c) row result" where
  "table_choose rs =
     (if rs = [] then Inl NoServerConfigured
      else (case find (\<lambda>r. row_status r = HEALTHY) rs of
              Some r \<Rightarrow> Inr r
            | None \<Rightarrow> Inl NoHealthyServerAvailable))"

section \<open>The table of a context\<close>

definition row_of :: "('u, 'c, 'w) sys \<Rightarrow> nat \<Rightarrow> ('u, 'c) row" where
  "row_of s i =
     \<lparr>row_url = srv_url (servers (ctx s) ! i), row_status = srv_status (servers (ctx s) ! i),
      row_ping = srv_ping_time (servers (ctx s) ! i), row_queue = the_pool s i\<rparr>"

definition table :: "('u, 'c, 'w) sys \<Rightarrow> ('u, 'c) row list" where
  "table s = map (row_of s) [0..<length (servers (ctx s))]"

lemma table_simps [simp]:
  "length (table s) = length (servers (ctx s))"
  "i < length (servers (ctx s)) \<Longrightarrow> table s ! i = row_of s i"
  by (simp_all add: table_def)

lemma table_eqI:
  assumes "length (servers (ctx s)) = length rs" "\<And>i. i < length rs \<Longrightarrow> row_of s i = rs ! i"
  shows "table s = rs"
  using assms by (intro nth_equalityI) simp_all

text \<open>A pool depends on the URL of its server only.\<close>

lemma fill_queue_url:
  "srv_url a = srv_url b \<Longrightarrow> fill_queue env a settings n q w = fill_queue env b settings n q w"
  by (induction n arbitrary: q w) (simp_all add: VkLdapConnection_new_def get_url_ref_def split: prod.split sum.split)

lemma reset_url:
  "srv_url a = srv_url b \<Longrightarrow> reset_connections env a settings q w = reset_connections env b settings q w"
  unfolding reset_connections_def by (simp add: fill_queue_url [of a b])

lemma table_update:
  "table (update_server_status server status pt s) =
    (table s)[get_id server := (table s ! get_id server)\<lparr>row_status := status, row_ping := pt\<rparr>]"
  by (rule table_eqI) (simp_all add: nth_list_update row_of_def update_nth the_pool_def)

lemma find_server_table:
  assumes "ctx_ok s"
  shows "map_sum id (\<lambda>server. row_of s (get_id server)) (find_server (ctx s)) = table_choose (table s)"
proof -
  have "map_option (\<lambda>server. row_of s (get_id server)) (find is_healthy (servers (ctx s))) =
      find (\<lambda>r. row_status r = HEALTHY) (table s)"
  proof -
    have "servers (ctx s) = map (\<lambda>i. servers (ctx s) ! i) [0..<length (servers (ctx s))]"
      by (simp add: map_nth)
    moreover have "map_option (\<lambda>server. row_of s (get_id server)) (find is_healthy (map (\<lambda>i. servers (ctx s) ! i) is)) =
        find (\<lambda>r. row_status r = HEALTHY) (map (row_of s) is)"
      if "set is \<subseteq> {..<length (servers (ctx s))}" for "is"
      using that assms
      by (induction "is") (auto simp: row_of_def is_healthy_iff ctx_ok_def entry_ok_def get_id_def)
    ultimately show ?thesis unfolding table_def by (metis atLeast0LessThan atLeast_upt set_upt subset_refl)
  qed
  then show ?thesis
    by (auto simp: find_server_def table_choose_def table_def split: option.splits)
qed

section \<open>Refreshing the table\<close>

lemma refresh_pool_row:
  assumes ok: "ctx_ok s" and i: "get_id server < length (servers (ctx s))"
    and row: "row_refresh env (connection_settings (ctx s)) (row_of s (get_id server)) (world s) = (r, w)"
  shows "\<exists>t. refresh_pool_connections (\<lambda>s. s) env server s = (Ok (), t) \<and> ctx_ok t \<and> same_servers s t
    \<and> table t = (table s)[get_id server := r] \<and> world t = w
    \<and> connection_settings (ctx t) = connection_settings (ctx s)"
proof -
  let ?i = "get_id server"
  let ?p = "conn_pools (ctx s) ! ?i"
  from ok i have p: "?p < length (pools s)" "length (conn_pools (ctx s)) = length (servers (ctx s))"
    "srv_url (pool_server (pools s ! ?p)) = srv_url (servers (ctx s) ! ?i)"
    and other: "j < length (servers (ctx s)) \<Longrightarrow> j \<noteq> ?i \<Longrightarrow> conn_pools (ctx s) ! j \<noteq> ?p" for j
    by (auto simp: ctx_ok_def entry_ok_def nth_eq_iff_index_eq)
  obtain res q where reset: "reset_connections env (VkLdapServer_new (row_url (row_of s ?i)) 0 HEALTHY)
      (connection_settings (ctx s)) (row_queue (row_of s ?i)) (world s) = (res, q, w)"
    and r: "r = (row_of s ?i)\<lparr>row_status := status_after res, row_ping := None, row_queue := q\<rparr>"
    using row by (auto simp: row_refresh_def split: prod.splits)
  have "reset_connections env (pool_server (pools s ! ?p)) (connection_settings (ctx s)) (the_pool s ?i) (world s) =
      (res, q, w)"
    using reset reset_url [of "pool_server (pools s ! ?p)" "VkLdapServer_new (row_url (row_of s ?i)) 0 HEALTHY" env] p(3)
    by (simp add: row_of_def VkLdapServer_new_def)
  then have c: "refresh_connections env (connection_settings (ctx s)) (pools s ! ?p) (world s) =
      (res, (pools s ! ?p)\<lparr>pool_queue := q\<rparr>, w)"
    by (simp add: refresh_connections_def the_pool_def)
  let ?u = "s\<lparr>pools := (pools s)[?p := (pools s ! ?p)\<lparr>pool_queue := q\<rparr>], world := w\<rparr>"
  let ?t = "update_server_status server (status_after res) None ?u"
  have t: "refresh_pool_connections (\<lambda>s. s) env server s = (Ok (), ?t)"
    by (cases res) (simp_all add: refresh_pool_connections_def pool_of [OF ok i refl] c status_after_def
        get_connection_settings_def)
  with refresh_pool_ok [OF ok keeps_servers_id i, of env] have "ctx_ok ?t" "same_servers s ?t" by auto
  moreover have "table ?t = (table s)[?i := r]"
    using i p(1,2) other other [THEN not_sym]
    by (intro table_eqI) (auto simp: nth_list_update row_of_def update_nth the_pool_def r)
  ultimately show ?thesis using t by auto
qed

text \<open>The servers from the position \<open>k\<close> on are refreshed, and so are the rows.\<close>

lemma refresh_all_table:
  assumes "ctx_ok s" "map get_id l = [k..<length (servers (ctx s))]" "k \<le> length (servers (ctx s))"
    and "table_refresh env (connection_settings (ctx s)) (drop k (table s)) (world s) = (rs, w)"
  shows "\<exists>t. refresh_all (\<lambda>s. s) env l s = (Ok (), t) \<and> table t = take k (table s) @ rs \<and> world t = w"
  using assms
proof (induction l arbitrary: s k rs)
  case Nil
  then have "k = length (servers (ctx s))" by (cases "k < length (servers (ctx s))") (simp_all add: upt_rec)
  with Nil show ?case by simp
next
  case (Cons server l)
  let ?n = "length (servers (ctx s))"
  have "k < ?n" using Cons.prems(2) by (cases "k < ?n") simp_all
  with Cons.prems(2) have k: "get_id server = k" "k < ?n" "map get_id l = [Suc k..<?n]"
    by (simp_all add: upt_conv_Cons)
  obtain r w1 where row: "row_refresh env (connection_settings (ctx s)) (row_of s k) (world s) = (r, w1)"
    by (metis prod.collapse)
  obtain t where t: "refresh_pool_connections (\<lambda>s. s) env server s = (Ok (), t)" "ctx_ok t" "same_servers s t"
    "table t = (table s)[k := r]" "world t = w1" "connection_settings (ctx t) = connection_settings (ctx s)"
    using refresh_pool_row [of s server env r w1] Cons.prems(1) k row by auto
  have n: "length (servers (ctx t)) = ?n" using same_servers_length [OF t(3)] .
  obtain rs' where rs': "table_refresh env (connection_settings (ctx s)) (drop (Suc k) (table s)) w1 = (rs', w)" "rs = r # rs'"
    using Cons.prems(4) k(2) row by (auto simp: Cons_nth_drop_Suc [symmetric] split: prod.splits)
  have "drop (Suc k) (table t) = drop (Suc k) (table s)" using t(4) by simp
  with Cons.IH [OF t(2), of "Suc k" rs'] k n rs' t(5,6) obtain t' where
    t': "refresh_all (\<lambda>s. s) env l t = (Ok (), t')" "table t' = take (Suc k) (table t) @ rs'" "world t' = w"
    by auto
  have "take (Suc k) (table t) = take k (table s) @ [r]"
    using k(2) by (simp add: t(4) take_Suc_conv_app_nth)
  with t(1) t' rs'(2) show ?case by simp
qed

lemma refresh_table:
  assumes "ctx_ok s" "table_refresh env settings (table s) (world s) = (rs, w)"
  shows "\<exists>t. refresh_connection_settings (\<lambda>s. s) env settings s = (Ok (), t) \<and> table t = rs \<and> world t = w"
proof -
  let ?u = "s\<lparr>ctx := VkLdapContext_refresh_connection_settings settings (ctx s)\<rparr>"
  have u: "ctx_ok ?u" "table ?u = table s" "servers (ctx ?u) = servers (ctx s)" "connection_settings (ctx ?u) = settings"
    using assms(1) by (simp_all add: VkLdapContext_refresh_connection_settings_def ctx_ok_def entry_ok_def
        table_def row_of_def the_pool_def)
  from refresh_all_table [OF u(1), of "servers (ctx s)" 0 env rs w] assms(2) u ctx_ok_ids [OF assms(1)]
  show ?thesis by (auto simp: refresh_connection_settings_def)
qed

lemma add_server_table:
  assumes "ctx_ok s" "row_refresh env (connection_settings (ctx s)) (row_new url) (world s) = (r, w)"
  shows "table (add_server (\<lambda>s. s) env url s) = table s @ [r]" "world (add_server (\<lambda>s. s) env url s) = w"
proof -
  let ?new = "new_server (ctx s) url"
  obtain res q where reset: "reset_connections env (VkLdapServer_new url 0 HEALTHY) (connection_settings (ctx s))
      ConnectionQueue_new (world s) = (res, q, w)"
    and r: "r = (row_new url)\<lparr>row_status := status_after res, row_ping := None, row_queue := q\<rparr>"
    using assms(2) by (auto simp: row_refresh_def row_new_def split: prod.splits)
  have "VkConnectionPool_new env ?new (connection_settings (ctx s)) (world s) =
      ((\<lparr>pool_queue = q, pool_server = ?new\<rparr>, res), w)"
    using reset reset_url [of ?new "VkLdapServer_new url 0 HEALTHY" env]
    by (simp add: VkConnectionPool_new_def new_server_def VkLdapServer_new_def)
  then have add: "add_server (\<lambda>s. s) env url s =
      s\<lparr>world := w, ctx := VkLdapContext_add_server (set_status (status_after res) ?new) (length (pools s)) (ctx s),
        pools := pools s @ [\<lparr>pool_queue = q, pool_server = ?new\<rparr>]\<rparr>"
    by (cases res) (simp_all add: add_server_def get_connection_settings_def status_after_def new_server_def
        VkLdapServer_new_def set_status_def Let_def)
  have old: "conn_pools (ctx s) ! i < length (pools s)" "length (conn_pools (ctx s)) = length (servers (ctx s))"
    if "i < length (servers (ctx s))" for i
    using assms(1) that by (simp_all add: ctx_ok_def entry_ok_def)
  have len: "length (conn_pools (ctx s)) = length (servers (ctx s))"
    using assms(1) by (simp add: ctx_ok_def)
  show "table (add_server (\<lambda>s. s) env url s) = table s @ [r]"
    using old len
    by (intro table_eqI) (auto simp: add VkLdapContext_add_server_def row_of_def the_pool_def nth_append
        less_Suc_eq r row_new_def set_status_def new_server_def VkLdapServer_new_def)
  show "world (add_server (\<lambda>s. s) env url s) = w" by (simp add: add)
qed

section \<open>Properties\<close>

text \<open>C11. The context refines the table: undisturbed, adding a server appends a freshly filled row, clearing
  the list empties the table, a report changes the state in one row, the server chosen for a request
  is the one the table chooses, and a change of the connection settings refreshes every row once, in
  order, with no error, whatever the state of the rows.\<close>

theorem context_refines_table:
  assumes "ctx_ok s"
  shows "(table (add_server (\<lambda>s. s) env url s), world (add_server (\<lambda>s. s) env url s)) =
      (let (r, w) = row_refresh env (connection_settings (ctx s)) (row_new url) (world s) in (table s @ [r], w))
    \<and> table (clear_server_list s) = []
    \<and> table (update_server_status server status pt s) =
      (table s)[get_id server := (table s ! get_id server)\<lparr>row_status := status, row_ping := pt\<rparr>]
    \<and> map_sum id (\<lambda>server. row_of s (get_id server)) (find_server (ctx s)) = table_choose (table s)
    \<and> (\<exists>t. refresh_connection_settings (\<lambda>s. s) env settings s = (Ok (), t)
        \<and> (table t, world t) = table_refresh env settings (table s) (world s))"
proof (intro conjI)
  show "(table (add_server (\<lambda>s. s) env url s), world (add_server (\<lambda>s. s) env url s)) =
      (let (r, w) = row_refresh env (connection_settings (ctx s)) (row_new url) (world s) in (table s @ [r], w))"
    using add_server_table [OF assms] by (simp split: prod.split)
  show "table (clear_server_list s) = []"
    by (simp add: table_def clear_server_list_def VkLdapContext_clear_server_list_def)
  show "\<exists>t. refresh_connection_settings (\<lambda>s. s) env settings s = (Ok (), t)
      \<and> (table t, world t) = table_refresh env settings (table s) (world s)"
    using refresh_table [OF assms] by (metis prod.collapse)
qed (rule table_update, rule find_server_table [OF assms])

theorem context_refines_table_witness:
  "\<exists>t. refresh_connection_settings (\<lambda>s. s) (demo_env [''ldap://b''] [] []) demo_settings
      (demo_sys [''ldap://a''] [''ldap://a'', ''ldap://b'']) = (Ok (), t)
    \<and> (table t, world t) = table_refresh (demo_env [''ldap://b''] [] []) demo_settings
        (table (demo_sys [''ldap://a''] [''ldap://a'', ''ldap://b'']))
        (world (demo_sys [''ldap://a''] [''ldap://a'', ''ldap://b'']))"
  using context_refines_table [of "demo_sys [''ldap://a''] [''ldap://a'', ''ldap://b'']"] ctx_ok_demo by blast

end
