(* ===== verification/Failover.thy ===== *)
theory Failover
  imports Context
begin

text \<open>
  The requests of the clients (\<open>run_ldap_op_with_failover\<close> and the functions that use it in
  \<open>src/src/vkldap/context.rs\<close>): an operation is tried on the first healthy server, and when the
  connection fails the server is marked as unhealthy and the next one is tried.
\<close>

section \<open>Running an operation with failover\<close>

text \<open>
  The operation works on a connection, on the variable it captured (\<open>'g\<close>) and on the world.  When
  it panics the connection is dropped with the task, and the pool does not get it back.
\<close>

type_synonym ('c, 'g, 'w) ldap_op = "'c \<Rightarrow> 'g \<times> 'w \<Rightarrow> (VkLdapError, unit) outcome \<times> 'g \<times> 'w"

definition failover_body ::
  "('u, 'c, 'w) interference \<Rightarrow> ('c, 'g, 'w) ldap_op \<Rightarrow> 'g \<times> ('u, 'c, 'w) sys
   \<Rightarrow> ('g \<times> ('u, 'c, 'w) sys) + ((VkLdapError, unit) outcome \<times> 'g \<times> ('u, 'c, 'w) sys)"
where
  "failover_body others ldap_op = (\<lambda>(g, s).
     let s = others s in
     (case find_server (ctx s) of
        Inl err \<Rightarrow> Inr (Err err, g, s)
      | Inr server \<Rightarrow>
     (case get_connection_pool (ctx s) server of
        Ok p \<Rightarrow>
     (case take_from others p (others s) of
        (Ok pc, s) \<Rightarrow>
          (let s = others s;
               (op_res, g, w) = ldap_op (conn pc) (g, world s);
               s = s\<lparr>world := w\<rparr>
           in (case op_res of
                 Panic \<Rightarrow> Inr (Panic, g, s)
               | Stuck \<Rightarrow> Inr (Stuck, g, s)
               | Ok a \<Rightarrow> Inr (Ok a, g, spawn (Return_conn p pc) s)
               | Err err \<Rightarrow>
                   (case err of
                      LdapConnectionError _ \<Rightarrow>
                        Inl (g, update_server_status server (UNHEALTHY (VkLdapError_fmt err)) None
                                  (others (spawn (Return_conn p pc) s)))
                    | _ \<Rightarrow> Inr (Err err, g, spawn (Return_conn p pc) s))))
      | (Stuck, s) \<Rightarrow> Inr (Stuck, g, s)
      | (_, s) \<Rightarrow> Inr (Panic, g, s))
      | _ \<Rightarrow> Inr (Panic, g, s))))"

definition run_ldap_op_with_failover ::
  "('u, 'c, 'w) interference \<Rightarrow> ('c, 'g, 'w) ldap_op \<Rightarrow> 'g \<Rightarrow> ('u, 'c, 'w) sys
   \<Rightarrow> ((VkLdapError, unit) outcome \<times> 'g \<times> ('u, 'c, 'w) sys) option"
where
  "run_ldap_op_with_failover others ldap_op g s = loop (failover_body others ldap_op) (g, s)"

section \<open>The authentication requests\<close>

definition bind_dn :: "VkLdapSettings \<Rightarrow> string \<Rightarrow> string" where
  "bind_dn settings username = bind_db_prefix settings @ username @ bind_db_suffix settings"

definition bind_op ::
  "('u, 'c, 'w) ldap_env \<Rightarrow> VkLdapSettings \<Rightarrow> string \<Rightarrow> string \<Rightarrow> 'c \<Rightarrow> 'w
   \<Rightarrow> (VkLdapError, string) outcome \<times> 'w"
where
  "bind_op env settings username password c w =
     (let user_dn = bind_dn settings username
      in and_then (result_of (bind env c user_dn password (timeout_ldap_operation settings) w))
           (\<lambda>_ w. (Ok user_dn, w)))"

definition search_and_bind_op ::
  "('u, 'c, 'w) ldap_env \<Rightarrow> VkLdapSettings \<Rightarrow> string \<Rightarrow> string \<Rightarrow> 'c \<Rightarrow> 'w
   \<Rightarrow> (VkLdapError, string) outcome \<times> 'w"
where
  "search_and_bind_op env settings username password c w =
     and_then (search env c settings username (timeout_ldap_operation settings) w) (\<lambda>user_dn w.
     and_then (result_of (bind env c user_dn password (timeout_ldap_operation settings) w))
       (\<lambda>_ w. (Ok user_dn, w)))"

text \<open>The requests that return something put it into a variable shared with the operation.\<close>

fun store ::
  "'g \<Rightarrow> (VkLdapError, 'g) outcome \<times> 'w \<Rightarrow> (VkLdapError, unit) outcome \<times> 'g \<times> 'w"
where
  "store g (Ok a, w) = (Ok (), a, w)"
| "store g (Err err, w) = (Err err, g, w)"
| "store g (Panic, w) = (Panic, g, w)"
| "store g (Stuck, w) = (Stuck, g, w)"

fun take_out ::
  "(VkLdapError, unit) outcome \<times> string list option \<times> 's \<Rightarrow> (VkLdapError, string list) outcome \<times> 's"
where
  "take_out (Ok _, g, s) = (Ok (case g of Some x \<Rightarrow> x | None \<Rightarrow> []), s)"
| "take_out (Err err, g, s) = (Err err, s)"
| "take_out (Panic, g, s) = (Panic, s)"
| "take_out (Stuck, g, s) = (Stuck, s)"

definition plain_op ::
  "('c \<Rightarrow> 'w \<Rightarrow> (VkLdapError, string) outcome \<times> 'w) \<Rightarrow> ('c, unit, 'w) ldap_op"
where
  "plain_op auth c = (\<lambda>(g, w). store () (and_then (auth c w) (\<lambda>_ w. (Ok (), w))))"

definition groups_op ::
  "('u, 'c, 'w) ldap_env \<Rightarrow> VkLdapSettings \<Rightarrow> ('c \<Rightarrow> 'w \<Rightarrow> (VkLdapError, string) outcome \<times> 'w)
   \<Rightarrow> ('c, string list option, 'w) ldap_op"
where
  "groups_op env settings auth c = (\<lambda>(g, w).
     store g (and_then (auth c w) (\<lambda>user_dn w.
       and_then (result_of (search_groups env c settings user_dn (timeout_ldap_operation settings) w))
         (\<lambda>groups w. (Ok (Some groups), w)))))"

definition rules_op ::
  "('u, 'c, 'w) ldap_env \<Rightarrow> VkLdapSettings \<Rightarrow> ('c \<Rightarrow> 'w \<Rightarrow> (VkLdapError, string) outcome \<times> 'w)
   \<Rightarrow> ('c, string list option, 'w) ldap_op"
where
  "rules_op env settings auth c = (\<lambda>(g, w).
     store g (and_then (auth c w) (\<lambda>user_dn w.
       and_then (result_of (search_groups_rules env c settings user_dn (timeout_ldap_operation settings) w))
         (\<lambda>rules w. (Ok (Some rules), w)))))"

definition ldap_bind ::
  "('u, 'c, 'w) interference \<Rightarrow> ('u, 'c, 'w) ldap_env \<Rightarrow> string \<Rightarrow> string \<Rightarrow> ('u, 'c, 'w) sys
   \<Rightarrow> ((VkLdapError, unit) outcome \<times> ('u, 'c, 'w) sys) option"
where
  "ldap_bind others env username password s =
     (let settings = get_ldap_settings (ctx s)
      in map_option (\<lambda>(r, g, s). (r, s))
        (run_ldap_op_with_failover others (plain_op (bind_op env settings username password)) () s))"

definition ldap_search_and_bind ::
  "('u, 'c, 'w) interference \<Rightarrow> ('u, 'c, 'w) ldap_env \<Rightarrow> string \<Rightarrow> string \<Rightarrow> ('u, 'c, 'w) sys
   \<Rightarrow> ((VkLdapError, unit) outcome \<times> ('u, 'c, 'w) sys) option"
where
  "ldap_search_and_bind others env username password s =
     (let settings = get_ldap_settings (ctx s)
      in map_option (\<lambda>(r, g, s). (r, s))
        (run_ldap_op_with_failover others
          (plain_op (search_and_bind_op env settings username password)) () s))"

type_synonym ('u, 'c, 'w) token_request =
  "('u, 'c, 'w) interference \<Rightarrow> ('u, 'c, 'w) ldap_env \<Rightarrow> string \<Rightarrow> string \<Rightarrow> ('u, 'c, 'w) sys
   \<Rightarrow> ((VkLdapError, string list) outcome \<times> ('u, 'c, 'w) sys) option"

definition ldap_bind_and_groups :: "('u, 'c, 'w) token_request" where
  "ldap_bind_and_groups others env username password s =
     (let settings = get_ldap_settings (ctx s)
      in map_option take_out (run_ldap_op_with_failover others
        (groups_op env settings (bind_op env settings username password)) None s))"

definition ldap_search_bind_and_groups :: "('u, 'c, 'w) token_request" where
  "ldap_search_bind_and_groups others env username password s =
     (let settings = get_ldap_settings (ctx s)
      in map_option take_out (run_ldap_op_with_failover others
        (groups_op env settings (search_and_bind_op env settings username password)) None s))"

definition ldap_bind_and_group_rules :: "('u, 'c, 'w) token_request" where
  "ldap_bind_and_group_rules others env username password s =
     (let settings = get_ldap_settings (ctx s)
      in map_option take_out (run_ldap_op_with_failover others
        (rules_op env settings (bind_op env settings username password)) None s))"

definition ldap_search_bind_and_group_rules :: "('u, 'c, 'w) token_request" where
  "ldap_search_bind_and_group_rules others env username password s =
     (let settings = get_ldap_settings (ctx s)
      in map_option take_out (run_ldap_op_with_failover others
        (rules_op env settings (search_and_bind_op env settings username password)) None s))"

section \<open>One round of the loop\<close>

text \<open>The ways a round can end, with the state after the operation.\<close>

definition others_calm :: "('u, 'c, 'w) interference \<Rightarrow> bool" where
  "others_calm others \<longleftrightarrow> keeps_servers others
     \<and> (\<forall>s. ctx_ok s \<longrightarrow> (\<forall>i < length (servers (ctx s)).
          is_healthy (servers (ctx (others s)) ! i) \<longrightarrow> is_healthy (servers (ctx s) ! i)))"

definition healthy_ids :: "('u, 'c, 'w) sys \<Rightarrow> nat set" where
  "healthy_ids s = {i. i < length (servers (ctx s)) \<and> is_healthy (servers (ctx s) ! i)}"

lemma finite_healthy_ids [simp]: "finite (healthy_ids s)"
  by (simp add: healthy_ids_def)

lemma others_calmD:
  assumes "others_calm others" "ctx_ok s"
  shows "ctx_ok (others s)" "same_servers s (others s)" "healthy_ids (others s) \<subseteq> healthy_ids s"
  using assms same_servers_length [of s "others s"]
  by (auto simp: others_calm_def keeps_servers_def healthy_ids_def)

lemma find_server_Inr:
  assumes "find_server x = Inr server"
  shows "\<exists>i < length (servers x). server = servers x ! i \<and> is_healthy server
    \<and> (\<forall>j < i. \<not> is_healthy (servers x ! j))"
  using assms by (auto simp: find_server_def find_Some_iff split: if_splits option.splits)

lemma find_server_ok:
  assumes "ctx_ok s" "find_server (ctx s) = Inr server"
  shows "get_id server < length (servers (ctx s))" "get_id server \<in> healthy_ids s"
    "get_connection_pool (ctx s) server = Ok (conn_pools (ctx s) ! get_id server)"
proof -
  obtain i where i: "i < length (servers (ctx s))" "server = servers (ctx s) ! i" "is_healthy server"
    using find_server_Inr [OF assms(2)] by blast
  with assms(1) have id: "get_id server = i" by (simp add: ctx_ok_def entry_ok_def get_id_def)
  with i show "get_id server < length (servers (ctx s))" "get_id server \<in> healthy_ids s"
    by (simp_all add: healthy_ids_def)
  show "get_connection_pool (ctx s) server = Ok (conn_pools (ctx s) ! get_id server)"
    using pool_of [OF assms(1) i(1) id] by (simp add: id)
qed

text \<open>Waiting for a connection brings no server back, and ends when the others provide one.\<close>

lemma take_from_calm:
  assumes "ctx_ok s" "others_calm others" "take_from others p s = (r, t)"
  shows "ctx_ok t" "same_servers s t" "healthy_ids t \<subseteq> healthy_ids s"
proof -
  have keep: "keeps_servers others" using assms(2) by (simp add: others_calm_def)
  show "ctx_ok t" "same_servers s t" using take_from_ok [OF assms(1) keep assms(3)] by simp_all
  show "healthy_ids t \<subseteq> healthy_ids s"
    using assms(3)
  proof (cases rule: take_from_cases [where I = "\<lambda>u. ctx_ok u \<and> healthy_ids u \<subseteq> healthy_ids s"])
    case (others u)
    then show ?case using others_calmD [OF assms(2)] by blast
  next
    case (takes u q pc)
    then show ?thesis by (simp add: healthy_ids_def)
  qed (use assms(1) in simp_all)
qed

definition waits_end :: "('u, 'c, 'w) interference \<Rightarrow> bool" where
  "waits_end others \<longleftrightarrow> (\<forall>s. ctx_ok s \<longrightarrow> (\<forall>i \<in> healthy_ids s.
     \<exists>n. queue (the_pool ((others ^^ Suc n) s) i) \<noteq> []))"

lemma funpow_same_servers:
  assumes "keeps_servers others" "ctx_ok s"
  shows "ctx_ok ((others ^^ n) s) \<and> same_servers s ((others ^^ n) s)"
proof (induction n)
  case (Suc n)
  then show ?case
    using keeps_serversD [OF assms(1), of "(others ^^ n) s"] same_servers_trans [of s "(others ^^ n) s"] by simp
qed (simp add: assms(2))

lemma healthy_wait_ends:
  assumes "ctx_ok s" "others_calm others" "waits_end others" "i \<in> healthy_ids s"
  shows "fst (take_from others (conn_pools (ctx s) ! i) (others s)) \<noteq> Stuck"
proof -
  obtain n where n: "queue (the_pool ((others ^^ Suc n) s) i) \<noteq> []"
    using assms by (auto simp: waits_end_def)
  have "conn_pools (ctx ((others ^^ Suc n) s)) = conn_pools (ctx s)"
    using funpow_same_servers [of others s "Suc n"] assms(1,2) by (simp add: others_calm_def same_servers_def)
  with n have "queue (pool_queue (pools ((others ^^ n) (others s)) ! (conn_pools (ctx s) ! i))) \<noteq> []"
    by (simp add: the_pool_def funpow_swap1)
  then show ?thesis by (rule take_from_waits_end)
qed

text \<open>A round that continues has marked a healthy server as unhealthy.\<close>

lemma body_continues:
  assumes body: "failover_body others ldap_op (g, s) = Inl (g', s')"
    and ok: "ctx_ok s" and calm: "others_calm others"
  shows "ctx_ok s' \<and> same_servers s s' \<and> healthy_ids s' \<subset> healthy_ids s"
proof -
  note calmD = others_calmD [OF calm]
  define a where "a = others s"
  have a: "ctx_ok a" "same_servers s a" "healthy_ids a \<subseteq> healthy_ids s"
    using calmD [OF ok] by (simp_all add: a_def)
  from body obtain server p where server: "find_server (ctx a) = Inr server"
    and p: "get_connection_pool (ctx a) server = Ok p"
    by (auto simp: failover_body_def a_def Let_def split: sum.splits outcome.splits)
  with body obtain pc b where b: "take_from others p (others a) = (Ok pc, b)"
    by (auto simp: failover_body_def a_def Let_def split: prod.splits outcome.splits)
  obtain r gw w where op: "ldap_op (conn pc) (g, world (others b)) = (r, gw, w)"
    by (metis prod.collapse)
  let ?c = "spawn (Return_conn p pc) ((others b)\<lparr>world := w\<rparr>)"
  from body server p b op obtain err where s': "s' = update_server_status server (UNHEALTHY (VkLdapError_fmt err)) None (others ?c)"
    by (auto simp: failover_body_def a_def Let_def split: outcome.splits VkLdapError.splits)
  have "ctx_ok (others a)" "same_servers s (others a)" "healthy_ids (others a) \<subseteq> healthy_ids s"
    using calmD [OF a(1)] a by (auto intro: same_servers_trans)
  with take_from_calm [OF calmD(1) [OF a(1)] calm b]
  have b_ok: "ctx_ok b" "same_servers s b" "healthy_ids b \<subseteq> healthy_ids s"
    by (auto intro: same_servers_trans)
  have c_ok: "ctx_ok ?c" "same_servers s ?c" "healthy_ids ?c \<subseteq> healthy_ids s"
    using calmD [OF b_ok(1)] b_ok by (auto simp: same_servers_def healthy_ids_def)
  define d where "d = others ?c"
  have d: "ctx_ok d" "same_servers s d" "healthy_ids d \<subseteq> healthy_ids s"
    using calmD [OF c_ok(1)] c_ok by (auto simp: d_def intro: same_servers_trans)
  have i: "get_id server < length (servers (ctx d))" "get_id server \<in> healthy_ids s"
    using find_server_ok [OF a(1) server] same_servers_length [OF a(2)] same_servers_length [OF d(2)] a(3)
    by auto
  have "healthy_ids s' \<subseteq> healthy_ids d - {get_id server}"
    by (auto simp: s' d_def [symmetric] healthy_ids_def update_nth split: if_splits)
  with d(3) i(2) have "healthy_ids s' \<subset> healthy_ids s" by blast
  moreover have "ctx_ok s'" "same_servers s s'"
    using d(1) same_servers_trans [OF d(2) update_same] by (simp_all add: s' d_def [symmetric])
  ultimately show ?thesis by blast
qed

definition failover_inv :: "('u, 'c, 'w) interference \<Rightarrow> 'g \<times> ('u, 'c, 'w) sys \<Rightarrow> bool" where
  "failover_inv others gs \<longleftrightarrow> ctx_ok (snd gs) \<and> others_calm others"

definition failover_variant :: "'g \<times> ('u, 'c, 'w) sys \<Rightarrow> nat" where
  "failover_variant gs = card (healthy_ids (snd gs))"

interpretation failover: terminating_loop "failover_body others ldap_op" "failover_inv others" failover_variant
  for others and ldap_op
proof
  fix gs gs'
  assume "failover_inv others gs" "failover_body others ldap_op gs = Inl gs'"
  with body_continues [of others ldap_op "fst gs" "snd gs" "fst gs'" "snd gs'"]
  show "failover_inv others gs'" "failover_variant gs' < failover_variant gs"
    by (auto simp: failover_inv_def failover_variant_def intro: psubset_card_mono)
qed

lemma body_returns:
  assumes body: "failover_body others ldap_op (g, s) = Inr (r, g', s')"
    and ok: "ctx_ok s" and calm: "others_calm others"
  shows "ctx_ok s' \<and> same_servers s s' \<and> healthy_ids s' \<subseteq> healthy_ids s
    \<and> (\<forall>e. r \<noteq> Err (LdapConnectionError e))
    \<and> (r = Panic \<longrightarrow> (\<exists>c gw. fst (ldap_op c gw) = Panic))
    \<and> (r = Stuck \<longrightarrow> waits_end others \<longrightarrow> (\<exists>c gw. fst (ldap_op c gw) = Stuck))"
proof -
  note calmD = others_calmD [OF calm]
  define a where "a = others s"
  have a: "ctx_ok a" "same_servers s a" "healthy_ids a \<subseteq> healthy_ids s"
    using calmD [OF ok] by (simp_all add: a_def)
  show ?thesis
  proof (cases "find_server (ctx a)")
    case (Inl err)
    then have "err = NoServerConfigured \<or> err = NoHealthyServerAvailable"
      by (auto simp: find_server_def split: if_splits option.splits)
    with body Inl a show ?thesis by (auto simp: failover_body_def a_def Let_def)
  next
    case (Inr server)
    define p where p_def: "p = conn_pools (ctx a) ! get_id server"
    from Inr have p: "get_connection_pool (ctx a) server = Ok p" and i: "get_id server \<in> healthy_ids a"
      using find_server_ok [OF a(1)] by (simp_all add: p_def)
    have aa: "ctx_ok (others a)" "same_servers s (others a)" "healthy_ids (others a) \<subseteq> healthy_ids s"
      using calmD [OF a(1)] a by (auto intro: same_servers_trans)
    obtain r1 b where b: "take_from others p (others a) = (r1, b)" by (metis prod.collapse)
    with aa take_from_calm [OF aa(1) calm b]
    have b_ok: "ctx_ok b" "same_servers s b" "healthy_ids b \<subseteq> healthy_ids s"
      by (auto intro: same_servers_trans)
    have "keeps_servers others" using calm by (simp add: others_calm_def)
    from take_from_ok(3) [OF aa(1) this b] show ?thesis
    proof
      assume "r1 = Stuck"
      with healthy_wait_ends [OF a(1) calm _ i] b have "\<not> waits_end others" by (auto simp: p_def)
      with body Inr p b b_ok \<open>r1 = Stuck\<close> show ?thesis by (simp add: failover_body_def a_def Let_def)
    next
      assume "\<exists>pc. r1 = Ok pc"
      then obtain pc where pc: "r1 = Ok pc" by blast
      obtain r2 gw w where op: "ldap_op (conn pc) (g, world (others b)) = (r2, gw, w)"
        by (metis prod.collapse)
      let ?c = "(others b)\<lparr>world := w\<rparr>"
      have c_ok: "ctx_ok ?c" "same_servers s ?c" "healthy_ids ?c \<subseteq> healthy_ids s"
        using calmD [OF b_ok(1)] b_ok by (auto simp: same_servers_def healthy_ids_def)
      from body Inr p b pc op have "r = r2" "s' = ?c \<or> s' = spawn (Return_conn p pc) ?c"
        "\<forall>e. r \<noteq> Err (LdapConnectionError e)"
        by (auto simp: failover_body_def a_def Let_def split: outcome.splits VkLdapError.splits)
      moreover have "same_servers s (spawn (Return_conn p pc) ?c)"
        "healthy_ids (spawn (Return_conn p pc) ?c) = healthy_ids ?c"
        using c_ok(2) by (simp_all add: same_servers_def healthy_ids_def)
      ultimately show ?thesis
        using c_ok op by (metis ctx_ok_upd(3) fst_conv)
    qed
  qed
qed

section \<open>The operation that succeeded\<close>

text \<open>Whatever the other tasks do, a success of the whole is a success of the operation on some
  connection.\<close>

lemma failover_Ok:
  fixes others :: "('u, 'c, 'w) interference" and ldap_op :: "('c, 'g, 'w) ldap_op"
  assumes "run_ldap_op_with_failover others ldap_op g s = Some (Ok u, g', s')"
  shows "\<exists>c g0 w0 w'. ldap_op c (g0, w0) = (Ok u, g', w')"
proof -
  define Q where "Q r = (\<forall>g' s'. r = (Ok u, g', s') \<longrightarrow> (\<exists>c g0 w0 w'. ldap_op c (g0, w0) = (Ok u, g', w')))"
    for r :: "(VkLdapError, unit) outcome \<times> 'g \<times> ('u, 'c, 'w) sys"
  have "Q (Ok u, g', s')"
    using assms unfolding run_ldap_op_with_failover_def
  proof (rule loop_partial)
    fix gs r
    assume body: "failover_body others ldap_op gs = Inr r"
    show "Q r"
      unfolding Q_def
    proof (intro allI impI)
      fix g' s' assume "r = (Ok u, g', s')"
      with body obtain c g0 w0 w' where "ldap_op c (g0, w0) = (Ok u, g', w')"
        by (cases gs) (auto simp: failover_body_def Let_def split: sum.splits outcome.splits prod.splits
            VkLdapError.splits)
      then show "\<exists>c g0 w0 w'. ldap_op c (g0, w0) = (Ok u, g', w')" by blast
    qed
  qed
  then show ?thesis by (simp add: Q_def)
qed

lemma store_Ok [simp]: "store g p = (Ok u, g', w') \<longleftrightarrow> p = (Ok g', w')"
  by (cases "(g, p)" rule: store.cases) auto

lemma map_option_take_out:
  assumes "map_option take_out x = Some (Ok l, s')"
  shows "\<exists>g. x = Some (Ok (), g, s') \<and> l = (case g of Some l \<Rightarrow> l | None \<Rightarrow> [])"
proof -
  from assms obtain y where y: "x = Some y" "take_out y = (Ok l, s')" by auto
  then show ?thesis by (cases y rule: take_out.cases) auto
qed

lemma bind_op_Ok:
  "bind_op env settings username password c w = (Ok dn, w') \<longleftrightarrow> dn = bind_dn settings username
    \<and> simple_bind env c (timeout_ldap_operation settings) dn password w = (Inr (Inr ()), w')"
  by (auto simp: bind_op_def Let_def and_then_Ok_iff)

lemma search_and_bind_op_Ok:
  "search_and_bind_op env settings username password c w = (Ok dn, w') \<longleftrightarrow>
    (\<exists>w1. search env c settings username (timeout_ldap_operation settings) w = (Ok dn, w1)
      \<and> simple_bind env c (timeout_ldap_operation settings) dn password w1 = (Inr (Inr ()), w'))"
  by (auto simp: search_and_bind_op_def and_then_Ok_iff)

lemma rules_op_Ok:
  "rules_op env settings auth c (g, w) = (Ok (), g', w') \<longleftrightarrow>
    (\<exists>dn w1 rules. auth c w = (Ok dn, w1) \<and> g' = Some rules
      \<and> search_groups_rules env c settings dn (timeout_ldap_operation settings) w1 = (Inr rules, w'))"
  by (auto simp: rules_op_def and_then_Ok_iff)

lemma bind_op_not_Panic: "fst (bind_op env settings username password c w) \<noteq> Panic"
  unfolding bind_op_def Let_def by (rule and_then_not_Panic) simp_all

lemma store_Panic [simp]: "fst (store g p) = Panic \<longleftrightarrow> fst p = Panic"
  by (cases "(g, p)" rule: store.cases) auto

lemma store_Stuck [simp]: "fst (store g p) = Stuck \<longleftrightarrow> fst p = Stuck"
  by (cases "(g, p)" rule: store.cases) auto

lemma rules_op_not_Panic:
  assumes "\<And>c w. fst (auth c w) \<noteq> Panic"
  shows "fst (rules_op env settings auth c gw) \<noteq> Panic"
  unfolding rules_op_def split_def store_Panic
  by (rule and_then_not_Panic [OF assms], rule and_then_not_Panic) simp_all

lemma others_calm_id [simp]: "others_calm (\<lambda>s. s)"
  by (simp add: others_calm_def)

lemma others_calm_run_spawned: "others_calm (run_spawned env)"
proof -
  have "ctx_ok s \<Longrightarrow> ctx_ok (fold (run_task env) ts s) \<and> ctx (fold (run_task env) ts s) = ctx s" for s ts
    by (induction ts arbitrary: s) (use run_task_ok in \<open>auto simp del: run_task.simps\<close>)
  then show ?thesis
    using keeps_servers_run_spawned [of env] by (simp add: others_calm_def run_spawned_def)
qed

lemma failover_result:
  fixes others :: "('u, 'c, 'w) interference" and ldap_op :: "('c, 'g, 'w) ldap_op"
  assumes "ctx_ok s" and "others_calm others"
  shows "\<exists>r g' s'. run_ldap_op_with_failover others ldap_op g s = Some (r, g', s') \<and> ctx_ok s'
    \<and> same_servers s s' \<and> healthy_ids s' \<subseteq> healthy_ids s \<and> (\<forall>e. r \<noteq> Err (LdapConnectionError e))
    \<and> (r = Panic \<longrightarrow> (\<exists>c gw. fst (ldap_op c gw) = Panic))
    \<and> (r = Stuck \<longrightarrow> waits_end others \<longrightarrow> (\<exists>c gw. fst (ldap_op c gw) = Stuck))"
proof -
  define Q where "Q gs rgs = (case rgs of (r, g', s') \<Rightarrow> ctx_ok s' \<and> same_servers (snd gs) s'
      \<and> healthy_ids s' \<subseteq> healthy_ids (snd gs) \<and> (\<forall>e. r \<noteq> Err (LdapConnectionError e))
      \<and> (r = Panic \<longrightarrow> (\<exists>c gw. fst (ldap_op c gw) = Panic))
      \<and> (r = Stuck \<longrightarrow> waits_end others \<longrightarrow> (\<exists>c gw. fst (ldap_op c gw) = Stuck)))"
    for gs :: "'g \<times> ('u, 'c, 'w) sys" and rgs :: "(VkLdapError, unit) outcome \<times> 'g \<times> ('u, 'c, 'w) sys"
  have "\<exists>r. loop (failover_body others ldap_op) (g, s) = Some r \<and> Q (g, s) r"
  proof (rule failover.loop_rule)
    show "failover_inv others (g, s)" using assms by (simp add: failover_inv_def)
    show "Q gs rgs" if "failover_inv others gs" "failover_body others ldap_op gs = Inr rgs" for gs rgs
      using that body_returns [of others ldap_op "fst gs" "snd gs" "fst rgs" "fst (snd rgs)" "snd (snd rgs)"]
      by (auto simp: Q_def failover_inv_def split_def)
    show "Q gs rgs" if "failover_inv others gs" "failover_body others ldap_op gs = Inl gs'" "Q gs' rgs" for gs gs' rgs
      using that body_continues [of others ldap_op "fst gs" "snd gs" "fst gs'" "snd gs'"]
      by (auto simp: Q_def failover_inv_def split_def intro: same_servers_trans)
  qed
  then show ?thesis by (auto simp: Q_def run_ldap_op_with_failover_def)
qed

section \<open>The servers are tried in order\<close>

text \<open>What a client of an undisturbed module may think of the loop: the operation on one connection
  after the other until one answers.\<close>

fun try_in_order :: "('c, 'g, 'w) ldap_op \<Rightarrow> 'c list \<Rightarrow> 'g \<times> 'w \<Rightarrow> (VkLdapError, unit) outcome \<times> 'g \<times> 'w" where
  "try_in_order ldap_op [] gw = (Err NoHealthyServerAvailable, gw)"
| "try_in_order ldap_op (c # cs) gw =
     (case ldap_op c gw of
        (Err (LdapConnectionError _), gw) \<Rightarrow> try_in_order ldap_op cs gw
      | r \<Rightarrow> r)"

definition healthy_list :: "('u, 'c, 'w) sys \<Rightarrow> nat list" where
  "healthy_list s = filter (\<lambda>i. is_healthy (servers (ctx s) ! i)) [0..<length (servers (ctx s))]"

definition next_conn :: "('u, 'c, 'w) sys \<Rightarrow> nat \<Rightarrow> 'c" where
  "next_conn s i = last (queue (the_pool s i))"

lemma healthy_list_Nil:
  assumes "healthy_list s = []" "servers (ctx s) \<noteq> []"
  shows "find_server (ctx s) = Inl NoHealthyServerAvailable"
proof -
  have "find is_healthy (servers (ctx s)) = None"
    using assms(1) by (auto simp: healthy_list_def find_None_iff filter_empty_conv in_set_conv_nth)
  with assms(2) show ?thesis by (simp add: find_server_def)
qed

lemma healthy_list_Cons:
  assumes "ctx_ok s" and l: "healthy_list s = i # is"
  shows "find_server (ctx s) = Inr (servers (ctx s) ! i)" "get_id (servers (ctx s) ! i) = i"
    "i < length (servers (ctx s))" "i \<notin> set is" "set is \<subseteq> {0..<length (servers (ctx s))}"
proof -
  have sorted: "sorted (healthy_list s)" and dist: "distinct (healthy_list s)"
    by (simp_all add: healthy_list_def sorted_wrt_filter)
  have mem: "j \<in> set (i # is) \<longleftrightarrow> j < length (servers (ctx s)) \<and> is_healthy (servers (ctx s) ! j)" for j
    unfolding l [symmetric] by (auto simp: healthy_list_def)
  then show i: "i < length (servers (ctx s))" and "set is \<subseteq> {0..<length (servers (ctx s))}" by fastforce+
  show "i \<notin> set is" using dist l by simp
  show "get_id (servers (ctx s) ! i) = i"
    using assms(1) i by (simp add: ctx_ok_def entry_ok_def get_id_def)
  have "\<not> is_healthy (servers (ctx s) ! j)" if "j < i" for j
    using mem [of j] sorted that i l by fastforce
  then have "find is_healthy (servers (ctx s)) = Some (servers (ctx s) ! i)"
    using mem [of i] i by (auto simp: find_Some_iff)
  moreover have "servers (ctx s) \<noteq> []" using i by auto
  ultimately show "find_server (ctx s) = Inr (servers (ctx s) ! i)"
    by (simp add: find_server_def)
qed

lemma take_from_Ok:
  assumes "queue (pool_queue (pools s ! p)) \<noteq> []"
  shows "\<exists>pc q. take_from others p s = (Ok pc, s\<lparr>pools := (pools s)[p := q]\<rparr>)
    \<and> conn pc = last (queue (pool_queue (pools s ! p)))
    \<and> queue (pool_queue q) = butlast (queue (pool_queue (pools s ! p)))"
  using assms
  by (intro exI [of _ "\<lparr>conn = last (queue (pool_queue (pools s ! p))),
        conn_server = pool_server (pools s ! p), from_epoch = epoch (pool_queue (pools s ! p))\<rparr>"]
      exI [of _ "(pools s ! p)\<lparr>pool_queue := (pool_queue (pools s ! p))
        \<lparr>queue := butlast (queue (pool_queue (pools s ! p)))\<rparr>\<rparr>"])
    (simp add: take_from_now take_connection_def queue_take_def queue_is_empty_def)

lemma healthy_list_update:
  assumes "healthy_list s = i # is" "i \<notin> set is" "get_id server = i"
    and "servers (ctx t) = servers (ctx s)"
  shows "healthy_list (update_server_status server (UNHEALTHY msg) None t) = is"
proof -
  have "healthy_list (update_server_status server (UNHEALTHY msg) None t) =
      filter (\<lambda>j. j \<noteq> i) (healthy_list s)"
    using assms(3,4) unfolding healthy_list_def filter_filter
    by (intro filter_cong) (auto simp: update_nth split: if_splits)
  with assms(1,2) show ?thesis by (auto simp: filter_id_conv)
qed

lemma in_order:
  assumes "ctx_ok s" and "servers (ctx s) \<noteq> []" and "healthy_list s = is"
    and "\<And>i. i \<in> set is \<Longrightarrow> queue (the_pool s i) \<noteq> []"
  shows "\<exists>r g' s'. run_ldap_op_with_failover (\<lambda>s. s) ldap_op g s = Some (r, g', s')
    \<and> (r, g', world s') = try_in_order ldap_op (map (next_conn s) is) (g, world s)"
  using assms
proof (induction "is" arbitrary: g s)
  case Nil
  then show ?case
    by (simp add: run_ldap_op_with_failover_def loop.simps failover_body_def healthy_list_Nil)
next
  case (Cons i "is")
  note i = healthy_list_Cons [OF Cons.prems(1,3)]
  let ?p = "conn_pools (ctx s) ! i" and ?server = "servers (ctx s) ! i"
  have p: "get_connection_pool (ctx s) ?server = Ok ?p"
    using pool_of [OF Cons.prems(1) i(3,2)] .
  obtain pc q where take: "take_from (\<lambda>s. s) ?p s = (Ok pc, s\<lparr>pools := (pools s)[?p := q]\<rparr>)"
    and pc: "conn pc = next_conn s i"
    using take_from_Ok [of s ?p "\<lambda>s. s"] Cons.prems(4) [of i] by (auto simp: the_pool_def next_conn_def)
  obtain r g' w where op: "ldap_op (next_conn s i) (g, world s) = (r, g', w)" by (metis prod.collapse)
  let ?t = "spawn (Return_conn ?p pc) (s\<lparr>pools := (pools s)[?p := q], world := w\<rparr>)"
  note body = failover_body_def Let_def i(1) p take pc op
  show ?case
  proof (cases "\<exists>e. r = Err (LdapConnectionError e)")
    case False
    then show ?thesis
      by (cases r) (auto simp: run_ldap_op_with_failover_def loop.simps body
          split: VkLdapError.splits)
  next
    case True
    then obtain e where r: "r = Err (LdapConnectionError e)" ..
    let ?u = "update_server_status ?server (UNHEALTHY (VkLdapError_fmt (LdapConnectionError e))) None ?t"
    have cont: "failover_body (\<lambda>s. s) ldap_op (g, s) = Inl (g', ?u)"
      by (simp add: body r)
    have u: "ctx_ok ?u" using body_continues [OF cont Cons.prems(1)] by simp
    have list: "healthy_list ?u = is"
      using Cons.prems(3) i(4,2) by (rule healthy_list_update) simp
    have other: "the_pool ?u j = the_pool s j" if "j \<in> set is" for j
    proof -
      have "j < length (servers (ctx s))" "j \<noteq> i" using that i(4,5) by auto
      then have "conn_pools (ctx s) ! j \<noteq> ?p"
        using Cons.prems(1) i(3) by (simp add: ctx_ok_def nth_eq_iff_index_eq)
      then show ?thesis by (simp add: the_pool_def)
    qed
    have "servers (ctx ?u) \<noteq> []" using Cons.prems(2) by (metis length_0_conv spawn_simps(1) update_simps(1) sys.select_convs(1) sys.surjective sys.update_convs(2,3))
    with Cons.IH [OF u _ list, of g'] Cons.prems(4) other obtain r2 g2 s2 where
      ih: "run_ldap_op_with_failover (\<lambda>s. s) ldap_op g' ?u = Some (r2, g2, s2)"
      "(r2, g2, world s2) = try_in_order ldap_op (map (next_conn ?u) is) (g', w)"
      by auto
    have "map (next_conn ?u) is = map (next_conn s) is"
      using other by (simp add: next_conn_def)
    with ih op r cont show ?thesis
      by (simp add: run_ldap_op_with_failover_def loop.simps [of _ "(g, s)"])
  qed
qed

section \<open>Properties\<close>

definition demo_two :: "(string, string, nat) sys" where
  "demo_two = demo_sys [''ldap://a'', ''ldap://b''] [''ldap://a'', ''ldap://b'']"

lemma demo_two_simps:
  "servers (ctx demo_two) = [VkLdapServer_new ''ldap://a'' 0 HEALTHY, VkLdapServer_new ''ldap://b'' 1 HEALTHY]"
  "conn_pools (ctx demo_two) = [0, 1]"
  "pools demo_two =
    [\<lparr>pool_queue = \<lparr>queue = [''ldap://a'', ''ldap://a''], epoch = 1, q_size = 2\<rparr>,
      pool_server = VkLdapServer_new ''ldap://a'' 0 HEALTHY\<rparr>,
     \<lparr>pool_queue = \<lparr>queue = [''ldap://b'', ''ldap://b''], epoch = 1, q_size = 2\<rparr>,
      pool_server = VkLdapServer_new ''ldap://b'' 1 HEALTHY\<rparr>]"
  "world demo_two = 4" "spawned demo_two = []" "ldap_settings (ctx demo_two) = VkLdapSettings_default"
  by (simp_all add: demo_two_def demo_sys_def demo_start_def add_server_def VkConnectionPool_new_def
      reset_connections_def close_connections_def ConnectionQueue_new_def demo_settings_def
      VkConnectionSettings_default_def VkLdapContext_new_def VkLdapServer_new_def new_server_def
      fill_queue_numeral demo_connect get_connection_settings_def VkLdapContext_add_server_def Let_def)

lemma demo_two_ok [simp]: "ctx_ok demo_two"
  using ctx_ok_demo by (simp add: demo_two_def)

lemma demo_two_healthy: "healthy_list demo_two = [0, 1]"
  by (simp add: healthy_list_def demo_two_simps VkLdapServer_new_def upt_rec)

lemma demo_two_pool: "i < 2 \<Longrightarrow> queue (the_pool demo_two i) = (if i = 0 then [''ldap://a'', ''ldap://a''] else [''ldap://b'', ''ldap://b''])"
  by (auto simp: the_pool_def demo_two_simps less_2_cases_iff)

text \<open>A directory in which only the second server answers, and knows bob.\<close>

definition demo_dir :: "(string, string, nat) ldap_env" where
  "demo_dir = demo_env [''ldap://b''] [(''bob'', ''pw'')] [[[] \<mapsto> [''bob''], ''valkeyACL'' \<mapsto> [''+@read'']]]"

lemma demo_dir_rules:
  "search_groups_rules demo_dir ''ldap://b'' VkLdapSettings_default dn 0 w = (Inr [''+@read''], Suc w)"
proof -
  have "split_whitespace ''+@read'' = [''+@read'']" by code_simp
  then show ?thesis
    by (simp add: search_groups_rules_def group_request_def prepare_group_search_def demo_dir_def
        admin_bind_def VkLdapSettings_default_def demo_env_def request_def handle_ldap_error_def
        collect_rules_eq fold_remember attr_values_def first_occurrences_def)
qed

lemma demo_dir_bind_op:
  "bind_op demo_dir VkLdapSettings_default ''bob'' ''pw'' ''ldap://a'' w =
    (Err (LdapConnectionError (OtherLdapError ''timeout'')), Suc w)"
  "bind_op demo_dir VkLdapSettings_default ''bob'' ''pw'' ''ldap://b'' w = (Ok ''bob'', Suc w)"
  by (simp_all add: bind_op_def bind_dn_def VkLdapSettings_default_def bind_def request_def
      handle_ldap_error_def demo_dir_def demo_env_def is_ldap_connection_error_def)

lemma demo_dir_search_op:
  "search_and_bind_op demo_dir VkLdapSettings_default ''bob'' ''pw'' ''ldap://a'' w =
    (Err (LdapConnectionError (OtherLdapError ''timeout'')), Suc w)"
  "search_and_bind_op demo_dir VkLdapSettings_default ''bob'' ''pw'' ''ldap://b'' w = (Ok ''bob'', Suc (Suc w))"
  by (simp_all add: search_and_bind_op_def search_def admin_bind_def VkLdapSettings_default_def bind_def
      request_def handle_ldap_error_def demo_dir_def demo_env_def is_ldap_connection_error_def
      user_dn_of_entries_def)

lemma demo_two_run:
  assumes "\<And>w. auth ''ldap://a'' w = (Err (LdapConnectionError (OtherLdapError ''timeout'')), Suc w)"
    and "\<And>w. \<exists>w'. auth ''ldap://b'' w = (Ok ''bob'', w')"
  shows "\<exists>s'. run_ldap_op_with_failover (\<lambda>s. s) (rules_op demo_dir VkLdapSettings_default auth) None demo_two =
    Some (Ok (), Some [''+@read''], s')"
proof -
  let ?op = "rules_op demo_dir VkLdapSettings_default auth"
  obtain w1 where w1: "auth ''ldap://b'' 5 = (Ok ''bob'', w1)" using assms(2) by blast
  have "?op ''ldap://a'' (None, 4) = (Err (LdapConnectionError (OtherLdapError ''timeout'')), None, 5)"
    by (simp add: rules_op_def assms(1))
  moreover have "?op ''ldap://b'' (None, 5) = (Ok (), Some [''+@read''], Suc w1)"
    using demo_dir_rules by (simp add: rules_op_Ok w1 VkLdapSettings_default_def)
  ultimately have "try_in_order ?op (map (next_conn demo_two) (healthy_list demo_two)) (None, world demo_two) =
      (Ok (), Some [''+@read''], Suc w1)"
    by (simp add: demo_two_healthy next_conn_def demo_two_pool demo_two_simps)
  moreover have "servers (ctx demo_two) \<noteq> []" "\<And>i. i \<in> set (healthy_list demo_two) \<Longrightarrow> queue (the_pool demo_two i) \<noteq> []"
    by (auto simp: demo_two_simps demo_two_healthy demo_two_pool)
  ultimately show ?thesis
    using in_order [OF demo_two_ok _ refl, of ?op None] by fastforce
qed

text \<open>Tasks that give a connection back to every pool that has run dry.\<close>

definition demo_refill :: "(string, string, nat) interference" where
  "demo_refill s = s\<lparr>pools := map (\<lambda>p. if queue (pool_queue p) = []
     then p\<lparr>pool_queue := (pool_queue p)\<lparr>queue := [srv_url (pool_server p)]\<rparr>\<rparr> else p) (pools s)\<rparr>"

definition demo_dry :: "(string, string, nat) sys" where
  "demo_dry = demo_two\<lparr>pools := map (\<lambda>p. p\<lparr>pool_queue := (pool_queue p)\<lparr>queue := []\<rparr>\<rparr>) (pools demo_two)\<rparr>"

lemma demo_dry_ok [simp]: "ctx_ok demo_dry"
  unfolding demo_dry_def by (rule ctx_ok_set_pools) simp_all

lemma demo_refill_calm: "others_calm demo_refill" "waits_end demo_refill"
proof -
  have "ctx_ok (demo_refill s)" if "ctx_ok s" for s
    unfolding demo_refill_def using that by (rule ctx_ok_set_pools) simp
  moreover have [simp]: "ctx (demo_refill s) = ctx s" for s by (simp add: demo_refill_def)
  ultimately show "others_calm demo_refill" by (simp add: others_calm_def keeps_servers_def same_servers_def)
  show "waits_end demo_refill"
    unfolding waits_end_def
  proof (intro allI impI ballI exI [of _ 0])
    fix s :: "(string, string, nat) sys" and i assume "ctx_ok s" "i \<in> healthy_ids s"
    then have "conn_pools (ctx s) ! i < length (pools s)"
      by (simp add: ctx_ok_def entry_ok_def healthy_ids_def)
    then show "queue (the_pool ((demo_refill ^^ Suc 0) s) i) \<noteq> []"
      by (simp add: the_pool_def demo_refill_def)
  qed
qed

lemma plain_bind_not_Stuck:
  "fst (plain_op (bind_op env settings username password) c gw) \<noteq> Stuck"
  unfolding plain_op_def bind_op_def Let_def split_def store_Stuck
  by (rule and_then_not_Stuck, rule and_then_not_Stuck) simp_all

text \<open>C6. A request of a client comes back with an answer: the loop ends, and it ends with something other
  than a wait that never ends, provided that the other tasks leave the list of servers alone,
  bring no server back to health meanwhile, and that sooner or later there is a connection in the
  pool of a healthy server, and that the operation on the connection comes back.  Every round that
  continues has marked one more server as unhealthy.  The context stays well-formed, a connection
  error is never what the client gets, and the request panics only if the operation itself does.
  (Without the third condition a request can wait for ever: \<open>empty_pool_waits\<close>.)\<close>

theorem failover_returns:
  assumes "ctx_ok s" and "others_calm others" and "waits_end others"
    and "\<And>c gw. fst (ldap_op c gw) \<noteq> Stuck"
  shows "\<exists>r g' s'. run_ldap_op_with_failover others ldap_op g s = Some (r, g', s') \<and> r \<noteq> Stuck
    \<and> (\<forall>e. r \<noteq> Err (LdapConnectionError e)) \<and> (r = Panic \<longrightarrow> (\<exists>c gw. fst (ldap_op c gw) = Panic))
    \<and> ctx_ok s' \<and> healthy_ids s' \<subseteq> healthy_ids s"
  using failover_result [OF assms(1,2), of ldap_op g] assms(3,4) by blast

theorem failover_returns_witness:
  "\<exists>r g' s'. run_ldap_op_with_failover demo_refill
    (plain_op (bind_op (demo_env [''ldap://b''] [] []) VkLdapSettings_default ''bob'' ''pw'')) () demo_dry = Some (r, g', s')
    \<and> r \<noteq> Stuck"
  using failover_returns [where ldap_op = "plain_op (bind_op (demo_env [''ldap://b''] [] [])
      VkLdapSettings_default ''bob'' ''pw'')" and g = "()", OF demo_dry_ok demo_refill_calm plain_bind_not_Stuck]
  by blast

text \<open>With nobody to give a connection back, a request for a server whose pool is empty waits for ever.\<close>

lemma empty_pool_waits:
  assumes "ctx_ok s" and "find_server (ctx s) = Inr server" and "queue (the_pool s (get_id server)) = []"
  shows "run_ldap_op_with_failover (\<lambda>s. s) ldap_op g s = Some (Stuck, g, s)"
  using find_server_ok(3) [OF assms(1,2)] assms(2,3)
  by (simp add: run_ldap_op_with_failover_def loop.simps failover_body_def take_from_alone the_pool_def)

text \<open>C5. When no other task interferes and every healthy server has a connection to spare, the
  loop is the plain search for the first healthy server, in the order of the list, whose
  connection answers: its answer, good or bad, is the result, and only connection errors move on
  to the next one.\<close>

theorem failover_in_order:
  assumes "ctx_ok s" and "servers (ctx s) \<noteq> []"
    and "list_all (\<lambda>i. queue (the_pool s i) \<noteq> []) (healthy_list s)"
  shows "\<exists>r g' s'. run_ldap_op_with_failover (\<lambda>s. s) ldap_op g s = Some (r, g', s')
    \<and> (r, g', world s') = try_in_order ldap_op (map (next_conn s) (healthy_list s)) (g, world s)"
  using assms by (intro in_order) (auto simp: list_all_iff)

theorem failover_in_order_witness:
  "\<exists>g' s'. run_ldap_op_with_failover (\<lambda>s. s)
      (plain_op (bind_op (demo_env [''ldap://b''] [(''bob'', ''pw'')] []) VkLdapSettings_default ''bob'' ''pw''))
      () demo_two = Some (Ok (), g', s') \<and> world s' = 6"
proof -
  have "list_all (\<lambda>i. queue (the_pool demo_two i) \<noteq> []) (healthy_list demo_two)"
    by (simp add: demo_two_healthy demo_two_pool)
  from failover_in_order [OF demo_two_ok _ this,
      of "plain_op (bind_op (demo_env [''ldap://b''] [(''bob'', ''pw'')] []) VkLdapSettings_default ''bob'' ''pw'')" "()"]
  show ?thesis
    by (simp add: demo_two_simps demo_two_healthy next_conn_def demo_two_pool plain_op_def bind_op_def
        bind_dn_def VkLdapSettings_default_def bind_def request_def handle_ldap_error_def demo_env_def
        is_ldap_connection_error_def)
qed

lemma bind_rules_sound:
  assumes "ldap_bind_and_group_rules others env username password s = Some (Ok rules, s')"
  shows "\<exists>c w0 w1 w2.
    simple_bind env c (timeout_ldap_operation (ldap_settings (ctx s)))
      (bind_db_prefix (ldap_settings (ctx s)) @ username @ bind_db_suffix (ldap_settings (ctx s)))
      password w0 = (Inr (Inr ()), w1)
    \<and> search_groups_rules env c (ldap_settings (ctx s))
      (bind_db_prefix (ldap_settings (ctx s)) @ username @ bind_db_suffix (ldap_settings (ctx s)))
      (timeout_ldap_operation (ldap_settings (ctx s))) w1 = (Inr rules, w2)"
proof -
  obtain g where g: "run_ldap_op_with_failover others
      (rules_op env (ldap_settings (ctx s)) (bind_op env (ldap_settings (ctx s)) username password)) None s =
      Some (Ok (), g, s')" and rules: "rules = (case g of Some l \<Rightarrow> l | None \<Rightarrow> [])"
    using map_option_take_out [OF assms [unfolded ldap_bind_and_group_rules_def get_ldap_settings_def Let_def]]
    by blast
  from failover_Ok [OF g] rules show ?thesis
    by (fastforce simp: rules_op_Ok bind_op_Ok bind_dn_def)
qed

lemma search_rules_sound:
  assumes "ldap_search_bind_and_group_rules others env username password s = Some (Ok rules, s')"
  shows "\<exists>c dn w0 w1 w2 w3.
    search env c (ldap_settings (ctx s)) username (timeout_ldap_operation (ldap_settings (ctx s))) w0 = (Ok dn, w1)
    \<and> simple_bind env c (timeout_ldap_operation (ldap_settings (ctx s))) dn password w1 = (Inr (Inr ()), w2)
    \<and> search_groups_rules env c (ldap_settings (ctx s)) dn
      (timeout_ldap_operation (ldap_settings (ctx s))) w2 = (Inr rules, w3)"
proof -
  obtain g where g: "run_ldap_op_with_failover others
      (rules_op env (ldap_settings (ctx s)) (search_and_bind_op env (ldap_settings (ctx s)) username password)) None s =
      Some (Ok (), g, s')" and rules: "rules = (case g of Some l \<Rightarrow> l | None \<Rightarrow> [])"
    using map_option_take_out [OF assms [unfolded ldap_search_bind_and_group_rules_def get_ldap_settings_def Let_def]]
    by blast
  from failover_Ok [OF g] rules show ?thesis
    by (fastforce simp: rules_op_Ok search_and_bind_op_Ok)
qed

text \<open>In bind mode a user is authenticated only if a server accepted a bind with exactly the DN
  made from the configured prefix, the user name and the configured suffix, and the password of the
  request; the rules are those found for that DN, over the same connection, right after the bind.
  This holds whatever other tasks do meanwhile.\<close>

theorem bind_mode_sound:
  assumes "ldap_bind_and_group_rules others env username password s = Some (Ok rules, s')"
  shows "\<exists>c w0 w1 w2.
    simple_bind env c (timeout_ldap_operation (ldap_settings (ctx s)))
      (bind_db_prefix (ldap_settings (ctx s)) @ username @ bind_db_suffix (ldap_settings (ctx s)))
      password w0 = (Inr (Inr ()), w1)
    \<and> search_groups_rules env c (ldap_settings (ctx s))
      (bind_db_prefix (ldap_settings (ctx s)) @ username @ bind_db_suffix (ldap_settings (ctx s)))
      (timeout_ldap_operation (ldap_settings (ctx s))) w1 = (Inr rules, w2)"
  using assms by (rule bind_rules_sound)

theorem bind_mode_sound_witness:
  "\<exists>c w0 w1. simple_bind demo_dir c 0 ''bob'' ''pw'' w0 = (Inr (Inr ()), w1)"
proof -
  obtain s' where "run_ldap_op_with_failover (\<lambda>s. s) (rules_op demo_dir VkLdapSettings_default
      (bind_op demo_dir VkLdapSettings_default ''bob'' ''pw'')) None demo_two = Some (Ok (), Some [''+@read''], s')"
    using demo_two_run [of "bind_op demo_dir VkLdapSettings_default ''bob'' ''pw''"] demo_dir_bind_op by blast
  then have "ldap_bind_and_group_rules (\<lambda>s. s) demo_dir ''bob'' ''pw'' demo_two = Some (Ok [''+@read''], s')"
    by (simp add: ldap_bind_and_group_rules_def get_ldap_settings_def demo_two_simps)
  from bind_mode_sound [OF this] show ?thesis
    by (auto simp: demo_two_simps VkLdapSettings_default_def)
qed

text \<open>C3. In search mode the DN is the one the directory search found for the user name, and the same
  holds with it.\<close>

theorem search_mode_sound:
  assumes "ldap_search_bind_and_group_rules others env username password s = Some (Ok rules, s')"
  shows "\<exists>c dn w0 w1 w2 w3.
    search env c (ldap_settings (ctx s)) username (timeout_ldap_operation (ldap_settings (ctx s))) w0 = (Ok dn, w1)
    \<and> simple_bind env c (timeout_ldap_operation (ldap_settings (ctx s))) dn password w1 = (Inr (Inr ()), w2)
    \<and> search_groups_rules env c (ldap_settings (ctx s)) dn
      (timeout_ldap_operation (ldap_settings (ctx s))) w2 = (Inr rules, w3)"
  using assms by (rule search_rules_sound)

theorem search_mode_sound_witness:
  "\<exists>c dn w0 w1 w2. search demo_dir c VkLdapSettings_default ''bob'' 0 w0 = (Ok dn, w1)
    \<and> simple_bind demo_dir c 0 dn ''pw'' w1 = (Inr (Inr ()), w2)"
proof -
  obtain s' where "run_ldap_op_with_failover (\<lambda>s. s) (rules_op demo_dir VkLdapSettings_default
      (search_and_bind_op demo_dir VkLdapSettings_default ''bob'' ''pw'')) None demo_two = Some (Ok (), Some [''+@read''], s')"
    using demo_two_run [of "search_and_bind_op demo_dir VkLdapSettings_default ''bob'' ''pw''"] demo_dir_search_op by blast
  then have "ldap_search_bind_and_group_rules (\<lambda>s. s) demo_dir ''bob'' ''pw'' demo_two = Some (Ok [''+@read''], s')"
    by (simp add: ldap_search_bind_and_group_rules_def get_ldap_settings_def demo_two_simps)
  from search_mode_sound [OF this] show ?thesis
    by (fastforce simp: demo_two_simps VkLdapSettings_default_def)
qed

text \<open>Bind mode cannot panic: for any directory, any user name and password, the request comes
  back with the rules or an error, or it waits for a connection.\<close>

theorem bind_mode_never_panics:
  assumes "ctx_ok s" and "others_calm others"
  shows "\<exists>r s'. ldap_bind_and_group_rules others env username password s = Some (r, s') \<and> r \<noteq> Panic"
proof -
  let ?op = "rules_op env (ldap_settings (ctx s)) (bind_op env (ldap_settings (ctx s)) username password)"
  have np: "fst (?op c gw) \<noteq> Panic" for c gw by (rule rules_op_not_Panic) (rule bind_op_not_Panic)
  obtain r g' s' where r: "run_ldap_op_with_failover others ?op None s = Some (r, g', s')" "r \<noteq> Panic"
    using failover_result [OF assms, of ?op None] np by blast
  moreover have "fst (take_out (r, g', s')) \<noteq> Panic" using r(2) by (cases r) simp_all
  ultimately show ?thesis
    by (cases "take_out (r, g', s')")
      (simp add: ldap_bind_and_group_rules_def get_ldap_settings_def)
qed

theorem bind_mode_never_panics_witness:
  "\<exists>r s'. ldap_bind_and_group_rules (run_spawned (demo_env [''ldap://b''] [] []))
      (demo_env [''ldap://b''] [] []) ''bob'' ''pw'' demo_two = Some (r, s') \<and> r \<noteq> Panic"
  by (rule bind_mode_never_panics [OF demo_two_ok others_calm_run_spawned])

text \<open>An operation that panics takes its connection with it: the pool has one connection less and
  no return is under way.  (In search mode an entry whose DN attribute has no value does this.)\<close>

theorem panic_leaks_connection:
  assumes "find_server (ctx s) = Inr server" and "get_connection_pool (ctx s) server = Ok p"
    and "p < length (pools s)" and "queue (pool_queue (pools s ! p)) \<noteq> []"
    and "ldap_op (last (queue (pool_queue (pools s ! p)))) (g, world s) = (Panic, g', w')"
  shows "\<exists>s'. run_ldap_op_with_failover (\<lambda>s. s) ldap_op g s = Some (Panic, g', s')
    \<and> length (queue (pool_queue (pools s' ! p))) < length (queue (pool_queue (pools s ! p)))
    \<and> q_size (pool_queue (pools s' ! p)) = q_size (pool_queue (pools s ! p))
    \<and> spawned s' = spawned s"
  using assms
  by (simp add: run_ldap_op_with_failover_def loop.simps failover_body_def Let_def take_from_now
      take_connection_def queue_take_def queue_is_empty_def)

theorem panic_leaks_connection_witness:
  "\<exists>g' s'. run_ldap_op_with_failover (\<lambda>s. s) (rules_op (demo_env [''ldap://a''] [] [[[] \<mapsto> []]]) VkLdapSettings_default
      (search_and_bind_op (demo_env [''ldap://a''] [] [[[] \<mapsto> []]]) VkLdapSettings_default ''bob'' ''pw'')) None demo_two
      = Some (Panic, g', s') \<and> spawned s' = []"
proof -
  let ?env = "demo_env [''ldap://a''] [] [[[] \<mapsto> []]]"
  let ?op = "rules_op ?env VkLdapSettings_default (search_and_bind_op ?env VkLdapSettings_default ''bob'' ''pw'')"
  have op: "?op (last (queue (pool_queue (pools demo_two ! 0)))) (None, world demo_two) = (Panic, None, 5)"
    by (simp add: rules_op_def search_and_bind_op_def search_def admin_bind_def VkLdapSettings_default_def
        request_def handle_ldap_error_def user_dn_of_entries_def demo_two_simps demo_env_def)
  have find: "find_server (ctx demo_two) = Inr (VkLdapServer_new ''ldap://a'' 0 HEALTHY)"
    "get_connection_pool (ctx demo_two) (VkLdapServer_new ''ldap://a'' 0 HEALTHY) = Ok 0"
    by (simp_all add: find_server_def get_connection_pool_def demo_two_simps get_id_def VkLdapServer_new_def)
  from panic_leaks_connection [where ldap_op = ?op and g = None, OF find _ _ op]
  have "\<exists>s'. run_ldap_op_with_failover (\<lambda>s. s) ?op None demo_two = Some (Panic, None, s') \<and> spawned s' = []"
    by (fastforce simp: demo_two_simps)
  then show ?thesis by blast
qed

end
