(* ===== verification/Scheduler.thy ===== *)
theory Scheduler
  imports Errors "HOL-Library.Multiset"
begin

text \<open>
  The job scheduler (\<open>src/src/vkldap/scheduler.rs\<close>): a thread that receives jobs from a channel and
  spawns them as tasks of the asynchronous runtime, and the two ways to submit a job, with a
  callback or waiting for the result.

  A future that has been run is its value.  The channel of the standard library is first in,
  first out; sending fails when the receiver is gone and receiving fails when all senders are
  gone and the channel is empty.  The runtime (\<open>tokio\<close>) runs each spawned task at most once, and
  drops the unfinished ones when it is shut down.
\<close>

section \<open>Type erasure\<close>

text \<open>
  A \<open>Box<dyn Any>\<close> is a value with the identity of its type.  A task forgets the type of its result
  and of its data, and the wrapper around the callback recovers both.
\<close>

datatype 'v boxed = Box (box_type: nat) (box_val: 'v)

definition coerce_future_output :: "nat \<Rightarrow> 'v \<Rightarrow> 'v boxed" where
  "coerce_future_output ty v = Box ty v"

definition downcast :: "nat \<Rightarrow> 'v boxed \<Rightarrow> 'v option" where
  "downcast ty b = (if box_type b = ty then Some (box_val b) else None)"

type_synonym ('v, 's) callback = "'v option \<Rightarrow> 'v \<Rightarrow> 's \<Rightarrow> (VkLdapError, unit) outcome \<times> 's"

definition downcast_callback_input ::
  "nat \<Rightarrow> nat \<Rightarrow> ('v, 's) callback \<Rightarrow> 'v boxed option \<Rightarrow> 'v boxed \<Rightarrow> 's
   \<Rightarrow> (VkLdapError, unit) outcome \<times> 's"
where
  "downcast_callback_input tyR tyT c data res s =
     (case downcast tyR res of
        None \<Rightarrow> (Panic, s)
      | Some r \<Rightarrow>
          (case data of
             Some d \<Rightarrow>
               (case downcast tyT d of
                  None \<Rightarrow> (Panic, s)
                | Some d \<Rightarrow> c (Some d) r s)
           | None \<Rightarrow> c None r s))"

record ('v, 's) Task =
  task :: "'s \<Rightarrow> (VkLdapError, 'v boxed) outcome \<times> 's"
  callback :: "'v boxed option \<Rightarrow> 'v boxed \<Rightarrow> 's \<Rightarrow> (VkLdapError, unit) outcome \<times> 's"
  data :: "'v boxed option"

definition Task_new ::
  "nat \<Rightarrow> nat \<Rightarrow> ('s \<Rightarrow> (VkLdapError, 'v) outcome \<times> 's) \<Rightarrow> ('v, 's) callback \<Rightarrow> 'v option \<Rightarrow> ('v, 's) Task"
where
  "Task_new tyR tyT fut cb d =
     \<lparr>task = (\<lambda>s. and_then (fut s) (\<lambda>v s. (Ok (coerce_future_output tyR v), s))),
      callback = downcast_callback_input tyR tyT cb,
      data = (case d of Some x \<Rightarrow> Some (Box tyT x) | None \<Rightarrow> None)\<rparr>"

text \<open>The body of the runtime's task: await the future, then call the callback.  A panic of either
  stays within the task.\<close>

definition run_payload :: "('v, 's) Task \<Rightarrow> 's \<Rightarrow> (VkLdapError, unit) outcome \<times> 's" where
  "run_payload t s = and_then (task t s) (\<lambda>res s. callback t (data t) res s)"

lemma run_payload_new:
  "run_payload (Task_new tyR tyT fut cb d) s = and_then (fut s) (\<lambda>v s. cb d v s)"
  by (cases "fut s"; cases "fst (fut s)"; cases d)
    (simp_all add: run_payload_def Task_new_def coerce_future_output_def
      downcast_callback_input_def downcast_def)

section \<open>The scheduler thread\<close>

datatype 'j Job = Shutdown_job | Task_job 'j

text \<open>
  The loop of the thread over the jobs in its channel.  It ends at \<open>Shutdown\<close>, leaving the rest
  unread, and waits when the channel is empty and a sender is left; with no sender left every
  \<open>recv\<close> fails at once, and the loop goes round without end.
\<close>

datatype 'j loop_end = Returned "'j list" | Waiting "'j list"

definition scheduler_loop_body ::
  "bool \<Rightarrow> 'j Job list \<times> 'j list \<Rightarrow> ('j Job list \<times> 'j list) + 'j loop_end"
where
  "scheduler_loop_body senders = (\<lambda>(jobs, started).
     (case jobs of
        Shutdown_job # jobs \<Rightarrow> Inr (Returned started)
      | Task_job j # jobs \<Rightarrow> Inl (jobs, started @ [j])
      | [] \<Rightarrow> if senders then Inr (Waiting started) else Inl ([], started)))"

definition scheduler_loop :: "bool \<Rightarrow> 'j Job list \<Rightarrow> 'j loop_end option" where
  "scheduler_loop senders jobs = loop (scheduler_loop_body senders) (jobs, [])"

fun tasks_before_shutdown :: "'j Job list \<Rightarrow> 'j list" where
  "tasks_before_shutdown [] = []"
| "tasks_before_shutdown (Shutdown_job # jobs) = []"
| "tasks_before_shutdown (Task_job j # jobs) = j # tasks_before_shutdown jobs"

interpretation receive: terminating_loop "scheduler_loop_body senders"
  "\<lambda>(jobs, _). senders \<or> Shutdown_job \<in> set jobs" "\<lambda>(jobs, _). length jobs"
  for senders
  by unfold_locales (auto simp: scheduler_loop_body_def split: list.splits Job.splits if_splits)

lemma scheduler_loop_eq:
  assumes "senders \<or> Shutdown_job \<in> set jobs"
  shows "loop (scheduler_loop_body senders) (jobs, started) =
    Some ((if Shutdown_job \<in> set jobs then Returned else Waiting) (started @ tasks_before_shutdown jobs))"
  using assms
proof (induction jobs arbitrary: started)
  case (Cons job jobs)
  then show ?case
    by (cases job) (simp_all add: loop.simps [of _ "(_ # _, _)"] scheduler_loop_body_def)
qed (simp add: loop.simps scheduler_loop_body_def)

lemma scheduler_loop_disconnected:
  assumes "Shutdown_job \<notin> set jobs"
  shows "loop (scheduler_loop_body False) (jobs, started) = None"
proof (rule ccontr)
  assume "loop (scheduler_loop_body False) (jobs, started) \<noteq> None"
  then obtain r where "loop (scheduler_loop_body False) (jobs, started) = Some r" by blast
  then have "Shutdown_job \<notin> set (fst (jobs, started)) \<longrightarrow> False"
    by (rule loop_partial [where Q = "\<lambda>s _. Shutdown_job \<notin> set (fst s) \<longrightarrow> False"])
      (auto simp: scheduler_loop_body_def split: list.splits Job.splits)
  with assms show False by simp
qed

section \<open>The global scheduler\<close>

text \<open>
  The state behind the read-write lock: whether the lock is poisoned, and, while the scheduler is
  initialized, its channel (\<open>None\<close> of \<open>receiver\<close> is a thread that is gone).
\<close>

record 'j SchedulerState =
  channel :: "'j Job list"
  receiver :: bool

record 'j Scheduler =
  poisoned :: bool
  state :: "'j SchedulerState option"

definition Scheduler_new :: "'j Scheduler" where
  "Scheduler_new = \<lparr>poisoned = False, state = None\<rparr>"

definition is_initialized :: "'j Scheduler \<Rightarrow> bool" where
  "is_initialized sc \<longleftrightarrow> state sc \<noteq> None"

text \<open>That the runtime and its thread can be made is taken for granted (the \<open>unwrap\<close> of the code panics
  otherwise).\<close>

definition initialize :: "'j Scheduler \<Rightarrow> 'j Scheduler" where
  "initialize sc = sc\<lparr>state := Some \<lparr>channel = [], receiver = True\<rparr>\<rparr>"

definition JobSender_send ::
  "'j Job \<Rightarrow> 'j SchedulerState \<Rightarrow> (VkLdapError, unit) outcome \<times> 'j SchedulerState"
where
  "JobSender_send job st =
     (if receiver st then (Ok (), st\<lparr>channel := channel st @ [job]\<rparr>)
      else (Err (FailedToSendJobToScheduler ''sending on a closed channel''), st))"

text \<open>\<open>get_sender\<close> unwraps the state.\<close>

definition send_job ::
  "'j Job \<Rightarrow> 'j Scheduler \<Rightarrow> (VkLdapError, unit) outcome \<times> 'j Scheduler"
where
  "send_job job sc =
     (case state sc of
        None \<Rightarrow> (Panic, sc)
      | Some st \<Rightarrow>
          (let (r, st') = JobSender_send job st in (r, sc\<lparr>state := Some st'\<rparr>)))"

text \<open>
  \<open>shutdown\<close> sends the job, waits for the thread and forgets it; the argument says whether the
  thread came to its end without a panic.
\<close>

definition Scheduler_shutdown ::
  "bool \<Rightarrow> 'j Scheduler \<Rightarrow> (VkLdapError, unit) outcome \<times> 'j Scheduler"
where
  "Scheduler_shutdown join_ok sc =
     and_then (send_job Shutdown_job sc) (\<lambda>_ sc.
       (if join_ok then Ok () else Err FailedToShutdownJobScheduler, sc\<lparr>state := None\<rparr>))"

definition start_job_scheduler :: "'j Scheduler \<Rightarrow> (VkLdapError, unit) outcome \<times> 'j Scheduler" where
  "start_job_scheduler sc = (if poisoned sc then (Panic, sc) else (Ok (), initialize sc))"

text \<open>A panic with the write lock held poisons the lock.\<close>

definition stop_job_scheduler ::
  "bool \<Rightarrow> 'j Scheduler \<Rightarrow> (VkLdapError, unit) outcome \<times> 'j Scheduler"
where
  "stop_job_scheduler join_ok sc =
     (if poisoned sc then (Panic, sc)
      else (case Scheduler_shutdown join_ok sc of
              (Panic, sc) \<Rightarrow> (Panic, sc\<lparr>poisoned := True\<rparr>)
            | r \<Rightarrow> r))"

definition is_scheduler_ready :: "'j Scheduler \<Rightarrow> (VkLdapError, bool) outcome" where
  "is_scheduler_ready sc = (if poisoned sc then Panic else Ok (is_initialized sc))"

text \<open>A task submitted with a callback and its data: sent, and nothing more is waited for.\<close>

definition submit_async_task ::
  "nat \<Rightarrow> nat \<Rightarrow> ('s \<Rightarrow> (VkLdapError, 'v) outcome \<times> 's) \<Rightarrow> ('v, 's) callback \<Rightarrow> 'v
   \<Rightarrow> ('v, 's) Task Scheduler \<Rightarrow> (VkLdapError, unit) outcome \<times> ('v, 's) Task Scheduler"
where
  "submit_async_task tyR tyT fut cb d sc =
     (if poisoned sc then (Panic, sc) else send_job (Task_job (Task_new tyR tyT fut cb (Some d))) sc)"

section \<open>Waiting for a result\<close>

text \<open>
  \<open>Notify\<close>: a slot behind a mutex with a condition variable.  One side puts the result in and wakes
  the other; the other looks, and sleeps when there is nothing yet.  A section under the mutex is
  one step, a sleeping waiter has given up the mutex, and it may also wake up for no reason.
\<close>

datatype 'v waiter = Awake | Sleeping | Got 'v

record 'v Notify =
  slot :: "'v option"
  waiter :: "'v waiter"
  notified :: bool

definition Notify_new :: "'v Notify" where
  "Notify_new = \<lparr>slot = None, waiter = Awake, notified = False\<rparr>"

definition notify :: "'v \<Rightarrow> 'v Notify \<Rightarrow> 'v Notify" where
  "notify res n = n\<lparr>slot := Some res, notified := True,
     waiter := (case waiter n of Sleeping \<Rightarrow> Awake | w \<Rightarrow> w)\<rparr>"

text \<open>One round of the \<open>while\<close> in \<open>wait\<close>, with the take after it.\<close>

definition wait_round :: "'v Notify \<Rightarrow> 'v Notify" where
  "wait_round n = (case slot n of
     None \<Rightarrow> n\<lparr>waiter := Sleeping\<rparr>
   | Some v \<Rightarrow> n\<lparr>slot := None, waiter := Got v\<rparr>)"

inductive notify_step :: "'v \<Rightarrow> 'v Notify \<Rightarrow> 'v Notify \<Rightarrow> bool" for r n where
  notifies: "\<not> notified n \<Longrightarrow> notify_step r n (notify r n)"
| rounds: "waiter n = Awake \<Longrightarrow> notify_step r n (wait_round n)"
| spurious: "waiter n = Sleeping \<Longrightarrow> notify_step r n (n\<lparr>waiter := Awake\<rparr>)"

inductive notify_reach :: "'v \<Rightarrow> 'v Notify \<Rightarrow> bool" for r where
  init: "notify_reach r Notify_new"
| step: "notify_reach r n \<Longrightarrow> notify_step r n n' \<Longrightarrow> notify_reach r n'"

definition notify_inv :: "'v \<Rightarrow> 'v Notify \<Rightarrow> bool" where
  "notify_inv r n \<longleftrightarrow>
     (if notified n then (waiter n = Awake \<and> slot n = Some r) \<or> (waiter n = Got r \<and> slot n = None)
      else slot n = None \<and> (waiter n = Awake \<or> waiter n = Sleeping))"

lemma notify_step_inv: "notify_step r n n' \<Longrightarrow> notify_inv r n \<Longrightarrow> notify_inv r n'"
  by (erule notify_step.cases)
    (auto simp: notify_inv_def notify_def wait_round_def split: waiter.splits if_splits)

lemma notify_reach_inv: "notify_reach r n \<Longrightarrow> notify_inv r n"
  by (induction rule: notify_reach.induct)
    (auto simp: notify_inv_def Notify_new_def dest: notify_step_inv)

section \<open>Submitting and waiting\<close>

text \<open>What a \<open>send\<close> answers, which does not depend on the job.\<close>

definition send_result :: "'j Scheduler \<Rightarrow> (VkLdapError, unit) outcome" where
  "send_result sc =
     (if poisoned sc then Panic
      else (case state sc of
              None \<Rightarrow> Panic
            | Some st \<Rightarrow> if receiver st then Ok ()
                else Err (FailedToSendJobToScheduler ''sending on a closed channel'')))"

lemma send_result_eq: "\<not> poisoned sc \<Longrightarrow> fst (send_job job sc) = send_result sc"
  by (simp add: send_job_def send_result_def JobSender_send_def split: option.splits)

text \<open>
  The payload's callback stores the result and wakes the caller, which waits for it; a task that
  never gets to its callback leaves the caller waiting.  By the time the caller goes on the
  scheduler's thread has received the job.
\<close>

definition submit_sync_task ::
  "nat \<Rightarrow> ('s \<Rightarrow> (VkLdapError, 'v) outcome \<times> 's) \<Rightarrow> 'j Scheduler \<Rightarrow> 's
   \<Rightarrow> (VkLdapError, 'v) outcome \<times> 's"
where
  "submit_sync_task tyR fut sc s =
     and_then (send_result sc, s) (\<lambda>_ s.
       let payload = Task_new tyR 0
             (\<lambda>(s, n). (case fut s of (r, s) \<Rightarrow> (r, s, n)))
             (\<lambda>_ res (s, n). (Ok (), s, notify res n)) None;
           (_, s, n) = run_payload payload (s, Notify_new)
       in (case waiter (wait_round n) of Got v \<Rightarrow> (Ok v, s) | _ \<Rightarrow> (Stuck, s)))"

definition settle :: "(VkLdapError, 'v) outcome \<Rightarrow> (VkLdapError, 'v) outcome" where
  "settle r = (case r of Ok v \<Rightarrow> Ok v | _ \<Rightarrow> Stuck)"

lemma settle_simps [simp]: "settle (Ok v) = Ok v" "settle Panic = Stuck" "settle Stuck = Stuck"
  by (simp_all add: settle_def)

lemma submit_sync_task_eq:
  "submit_sync_task tyR fut sc s = and_then (send_result sc, s) (\<lambda>_ s. (settle (fst (fut s)), snd (fut s)))"
  by (cases "send_result sc"; cases "fut s"; cases "fst (fut s)")
    (simp_all add: submit_sync_task_def run_payload_new notify_def wait_round_def Notify_new_def settle_def)

section \<open>What the rest of the module relies on\<close>

text \<open>
  A place to run tasks: when it is ready a task's value comes back to the caller and its effects
  have happened.
\<close>

locale task_runner =
  fixes ready :: "'q \<Rightarrow> bool"
    and submit :: "('s \<Rightarrow> (VkLdapError, 'v) outcome \<times> 's) \<Rightarrow> 'q \<Rightarrow> 's \<Rightarrow> (VkLdapError, 'v) outcome \<times> 's"
  assumes submit_ready: "ready q \<Longrightarrow> submit fut q s = (settle (fst (fut s)), snd (fut s))"
begin

lemma submit_Ok: "ready q \<Longrightarrow> fut s = (Ok v, s') \<Longrightarrow> submit fut q s = (Ok v, s')"
  by (simp add: submit_ready)

lemma submit_panics: "ready q \<Longrightarrow> fst (fut s) = Panic \<Longrightarrow> fst (submit fut q s) = Stuck"
  by (simp add: submit_ready)

text \<open>A ready runner adds no errors and no panics of its own.\<close>

lemma submit_never_fails: "ready q \<Longrightarrow> fst (submit fut q s) \<noteq> Err e \<and> fst (submit fut q s) \<noteq> Panic"
  by (simp add: submit_ready settle_def split: outcome.splits)

end

definition running :: "'j Scheduler \<Rightarrow> bool" where
  "running sc \<longleftrightarrow> \<not> poisoned sc \<and> (\<exists>st. state sc = Some st \<and> receiver st)"

interpretation jobs: task_runner running "submit_sync_task tyR" for tyR
  by unfold_locales (auto simp: submit_sync_task_eq running_def send_result_def)

lemma running_start: "start_job_scheduler sc = (Ok (), sc') \<Longrightarrow> running sc'"
  by (auto simp: start_job_scheduler_def initialize_def running_def split: if_splits)

section \<open>Properties\<close>

text \<open>The erased types are always recovered: a task runs its future and then its callback, with the
  result and the data it was made with, and neither of the two assertions on the types can fail.\<close>

theorem task_runs_callback:
  "run_payload (Task_new tyR tyT fut cb d) s = and_then (fut s) (\<lambda>v s. cb d v s)"
  by (rule run_payload_new)

text \<open>C25. The scheduler's thread spawns the tasks in the order they were sent, up to the first
  shutdown, and returns then; without a shutdown it waits for more.  When all senders are gone
  without a shutdown it never returns: every \<open>recv\<close> fails at once and the loop goes on.\<close>

theorem scheduler_loop_result:
  "scheduler_loop senders jobs =
     (if Shutdown_job \<in> set jobs then Some (Returned (tasks_before_shutdown jobs))
      else if senders then Some (Waiting (tasks_before_shutdown jobs)) else None)"
  using scheduler_loop_eq [of senders jobs "[]"] scheduler_loop_disconnected [of jobs "[]"]
  by (cases senders) (simp_all add: scheduler_loop_def)

text \<open>C26. The waiting of a synchronous submission loses no wake-up and invents no result: whatever the
  order of the two sides and however often the waiter wakes up for no reason, it only ever gets the
  result of its own task, and once the task has notified, the waiter is awake and its next look
  returns the result.\<close>

theorem notify_no_lost_wakeup:
  assumes "notify_reach r n"
  shows "(\<forall>v. waiter n = Got v \<longrightarrow> v = r)
    \<and> (notified n \<and> waiter n \<noteq> Got r \<longrightarrow> waiter n = Awake \<and> waiter (wait_round n) = Got r)
    \<and> (waiter n = Sleeping \<longrightarrow> \<not> notified n)"
  using notify_reach_inv [OF assms] by (auto simp: notify_inv_def wait_round_def split: if_splits)

theorem notify_no_lost_wakeup_witness:
  "waiter (wait_round (notify (7::nat) (wait_round Notify_new))) = Got 7"
proof -
  let ?n = "notify (7::nat) (wait_round Notify_new)"
  have "notify_reach 7 (wait_round Notify_new)"
    by (rule notify_reach.step [OF notify_reach.init notify_step.rounds]) (simp add: Notify_new_def)
  then have "notify_reach 7 ?n"
    by (rule notify_reach.step) (rule notify_step.notifies, simp add: wait_round_def Notify_new_def)
  from notify_no_lost_wakeup [OF this] show ?thesis
    by (simp add: notify_def wait_round_def Notify_new_def)
qed

text \<open>C27. A synchronous submission to a running scheduler returns the task's value with its effects
  done, and never an error; but if the task panics the caller waits for ever, as nothing tells it.
  Submitting while no scheduler is initialized panics.\<close>

theorem submit_sync_result:
  "(running sc \<longrightarrow> submit_sync_task tyR fut sc s =
      ((case fst (fut s) of Ok v \<Rightarrow> Ok v | _ \<Rightarrow> Stuck), snd (fut s)))
   \<and> (state sc = None \<longrightarrow> submit_sync_task tyR fut sc s = (Panic, s))"
  using jobs.submit_ready [of sc tyR fut s]
  by (auto simp: settle_def submit_sync_task_eq send_result_def)

theorem submit_sync_result_witness:
  "submit_sync_task 0 (\<lambda>s. (Panic :: (VkLdapError, nat) outcome, s)) (initialize (Scheduler_new :: nat Scheduler)) (0::nat) = (Stuck, 0)
   \<and> submit_sync_task 0 (\<lambda>s. (Ok s, s)) (Scheduler_new :: nat Scheduler) (0::nat) = (Panic, 0)"
  using submit_sync_result [of "initialize (Scheduler_new :: nat Scheduler)" 0 "\<lambda>s. (Panic :: (VkLdapError, nat) outcome, s)" 0]
    submit_sync_result [of "Scheduler_new :: nat Scheduler" 0 "\<lambda>s. (Ok s, s)" 0]
  by (simp add: running_def initialize_def Scheduler_new_def)

text \<open>C28. The life of the scheduler: it is ready exactly from its start to its stop, it can be started
  again after a stop, and stopping it when it is not initialized panics with the write lock held,
  which poisons the lock: from then on every operation panics.\<close>

theorem scheduler_life:
  assumes "start_job_scheduler sc = (Ok (), sc1)" and "stop_job_scheduler join_ok sc1 = (r, sc2)"
  shows "is_scheduler_ready sc1 = Ok True \<and> is_scheduler_ready sc2 = Ok False
    \<and> (r = Ok () \<longleftrightarrow> join_ok) \<and> fst (start_job_scheduler sc2) = Ok ()
    \<and> (case stop_job_scheduler join_ok sc2 of (r3, sc3) \<Rightarrow> r3 = Panic
        \<and> is_scheduler_ready sc3 = Panic \<and> fst (start_job_scheduler sc3) = Panic)"
  using assms
  by (auto simp: start_job_scheduler_def stop_job_scheduler_def is_scheduler_ready_def
      Scheduler_shutdown_def send_job_def JobSender_send_def initialize_def is_initialized_def
      split: if_splits)

theorem scheduler_life_witness:
  "is_scheduler_ready (snd (stop_job_scheduler True (initialize (Scheduler_new :: nat Scheduler)))) = Ok False"
proof -
  have "start_job_scheduler (Scheduler_new :: nat Scheduler) = (Ok (), initialize Scheduler_new)"
    by (simp add: start_job_scheduler_def Scheduler_new_def)
  from scheduler_life [OF this prod.collapse [symmetric], of True] show ?thesis by blast
qed

end
