(* ===== verification/Failure_Detector.thy ===== *)
theory Failure_Detector
  imports Failover Scheduler
begin

text \<open>
  The failure detector (\<open>src/src/vkldap/failure_detector.rs\<close>): a thread that checks every server in
  turn through the scheduler, and the flag that stops it.

  \<open>elapsed\<close> is the clock: the time between two states of the world.
\<close>

section \<open>Checking a server\<close>

definition check_server_health ::
  "('u, 'c, 'w) interference \<Rightarrow> ('u, 'c, 'w) ldap_env \<Rightarrow> ('w \<Rightarrow> 'w \<Rightarrow> duration) \<Rightarrow> 'u VkLdapServer
   \<Rightarrow> ('u, 'c, 'w) sys \<Rightarrow> (VkLdapError, unit) outcome \<times> ('u, 'c, 'w) sys"
where
  "check_server_health others env elapsed server s =
     (if is_healthy server then
        and_then (get_pool_connection others server s) (\<lambda>pc s.
        let s = others s;
            (res, w) = ping env (conn pc) (world s);
            ping_time = elapsed (world s) w
        in and_then (return_pool_connection others env pc (others (s\<lparr>world := w\<rparr>))) (\<lambda>_ s.
        let s = others s
        in (Ok (), case res of
              Inl err \<Rightarrow> update_server_status server (UNHEALTHY (VkLdapError_fmt err)) None s
            | Inr _ \<Rightarrow> update_server_status server HEALTHY (Some ping_time) s)))
      else
        (let (conn_res, s) = get_connection others env server s;
             s = others s
         in (case conn_res of
               Inr c \<Rightarrow>
                 (let (res, w) = ping env c (world s);
                      s = others (s\<lparr>world := w\<rparr>)
                  in (case res of
                        Inr _ \<Rightarrow> refresh_pool_connections others env server s
                      | Inl _ \<Rightarrow> (Ok (), s)))
             | Inl err \<Rightarrow>
                 (Ok (), update_server_status server (UNHEALTHY (VkLdapError_fmt err)) None s))))"

text \<open>
  All the checks are joined in one task: a check that waits does not keep the others from running,
  but the whole then waits, and a panic ends the whole.
\<close>

fun check_all ::
  "('u, 'c, 'w) interference \<Rightarrow> ('u, 'c, 'w) ldap_env \<Rightarrow> ('w \<Rightarrow> 'w \<Rightarrow> duration) \<Rightarrow> 'u VkLdapServer list
   \<Rightarrow> ('u, 'c, 'w) sys \<Rightarrow> (VkLdapError, unit) outcome \<times> ('u, 'c, 'w) sys"
where
  "check_all others env elapsed [] s = (Ok (), s)"
| "check_all others env elapsed (server # rest) s =
     (case check_server_health others env elapsed server s of
        (Panic, s) \<Rightarrow> (Panic, s)
      | (Stuck, s) \<Rightarrow>
          (case check_all others env elapsed rest s of
             (Panic, s) \<Rightarrow> (Panic, s)
           | (_, s) \<Rightarrow> (Stuck, s))
      | (_, s) \<Rightarrow> check_all others env elapsed rest s)"

definition failure_detector_iteration ::
  "('u, 'c, 'w) interference \<Rightarrow> ('u, 'c, 'w) ldap_env \<Rightarrow> ('w \<Rightarrow> 'w \<Rightarrow> duration)
   \<Rightarrow> ('u, 'c, 'w) sys \<Rightarrow> (VkLdapError, unit) outcome \<times> ('u, 'c, 'w) sys"
where
  "failure_detector_iteration others env elapsed s =
     (let servers = get_servers_health_status s
      in check_all others env elapsed servers (others s))"

section \<open>The thread\<close>

text \<open>
  \<open>fd_thread\<close>: a thread has been started and not been joined.  A panic with the mutex on it held
  poisons the mutex.
\<close>

record FailureDetector =
  fd_thread :: bool
  fd_poisoned :: bool
  fd_stop :: bool
  fd_interval :: u64

definition FailureDetector_new :: FailureDetector where
  "FailureDetector_new = \<lparr>fd_thread = False, fd_poisoned = False, fd_stop = False, fd_interval = 1\<rparr>"

definition should_stop :: "FailureDetector \<Rightarrow> bool" where
  "should_stop fd = fd_stop fd"

text \<open>
  How the thread ends, if it does: it returns, it panics, or it hangs in a submission that never
  comes back.  \<open>sleep\<close> is what others do to the whole state during the pause, the stop flag included.
\<close>

datatype thread_end = Exits | Dies | Hangs

definition detector_body ::
  "(FailureDetector \<times> ('u, 'c, 'w) sys \<Rightarrow> FailureDetector \<times> ('u, 'c, 'w) sys)
   \<Rightarrow> ('u, 'c, 'w) interference \<Rightarrow> ('u, 'c, 'w) ldap_env \<Rightarrow> ('w \<Rightarrow> 'w \<Rightarrow> duration) \<Rightarrow> 'j Scheduler
   \<Rightarrow> FailureDetector \<times> ('u, 'c, 'w) sys \<Rightarrow> (FailureDetector \<times> ('u, 'c, 'w) sys) + thread_end"
where
  "detector_body sleep others env elapsed sc x =
     (let (fd, s) = sleep x;
          (r, s) = submit_sync_task 0 (failure_detector_iteration others env elapsed) sc s
      in (case r of
            Panic \<Rightarrow> Inr Dies
          | Stuck \<Rightarrow> Inr Hangs
          | _ \<Rightarrow> if should_stop fd then Inr Exits else Inl (fd, s)))"

definition detector_thread ::
  "(FailureDetector \<times> ('u, 'c, 'w) sys \<Rightarrow> FailureDetector \<times> ('u, 'c, 'w) sys)
   \<Rightarrow> ('u, 'c, 'w) interference \<Rightarrow> ('u, 'c, 'w) ldap_env \<Rightarrow> ('w \<Rightarrow> 'w \<Rightarrow> duration) \<Rightarrow> 'j Scheduler
   \<Rightarrow> FailureDetector \<times> ('u, 'c, 'w) sys \<Rightarrow> thread_end option"
where
  "detector_thread sleep others env elapsed sc = loop (detector_body sleep others env elapsed sc)"

definition FailureDetector_start ::
  "FailureDetector \<Rightarrow> (VkLdapError, unit) outcome \<times> FailureDetector"
where
  "FailureDetector_start fd =
     (let fd = fd\<lparr>fd_stop := False\<rparr>
      in if fd_poisoned fd then (Panic, fd) else (Ok (), fd\<lparr>fd_thread := True\<rparr>))"

text \<open>\<open>shutdown\<close> raises the flag and waits for the end of the thread, which its first argument is.\<close>

definition FailureDetector_shutdown ::
  "thread_end option \<Rightarrow> FailureDetector \<Rightarrow> (VkLdapError, unit) outcome \<times> FailureDetector"
where
  "FailureDetector_shutdown ending fd =
     (let fd = fd\<lparr>fd_stop := True\<rparr>
      in if fd_poisoned fd then (Panic, fd)
      else if fd_thread fd then
        (let fd = fd\<lparr>fd_thread := False\<rparr>
         in (case ending of
               Some Exits \<Rightarrow> (Ok (), fd)
             | Some Dies \<Rightarrow> (Err FailedToStopFailuredDetectorThread, fd)
             | _ \<Rightarrow> (Stuck, fd)))
      else (Panic, fd\<lparr>fd_poisoned := True\<rparr>))"

definition set_failure_detector_interval :: "u64 \<Rightarrow> FailureDetector \<Rightarrow> FailureDetector" where
  "set_failure_detector_interval interval fd = fd\<lparr>fd_interval := interval\<rparr>"

section \<open>Checks on a list that stays\<close>

text \<open>A step that keeps the list: what follows holds from the state before it on.\<close>

definition steady :: "('u, 'c, 'w) sys \<Rightarrow> ('u, 'c, 'w) sys \<Rightarrow> bool" where
  "steady s t \<longleftrightarrow> ctx_ok t \<and> same_servers s t"

lemma steady_trans: "steady s t \<Longrightarrow> steady t u \<Longrightarrow> steady s u"
  by (auto simp: steady_def intro: same_servers_trans)

lemma steady_others: "keeps_servers others \<Longrightarrow> steady s t \<Longrightarrow> steady s (others t)"
  using keeps_serversD [of others t] same_servers_trans by (auto simp: steady_def)

lemma steady_world [simp]: "steady s (t\<lparr>world := w\<rparr>) \<longleftrightarrow> steady s t"
  by (simp add: steady_def same_servers_def)

lemma steady_update: "steady s t \<Longrightarrow> steady s (update_server_status server status pt t)"
  using same_servers_trans [OF _ update_same] by (auto simp: steady_def)

lemma steady_give_back: "steady s t \<Longrightarrow> steady s (give_back env p pc t)"
  using give_back_ok [of t env p pc] by (auto simp: steady_def same_servers_def)

lemma steady_length: "steady s t \<Longrightarrow> length (servers (ctx t)) = length (servers (ctx s))"
  by (simp add: steady_def same_servers_length)

lemma check_steady:
  assumes ok: "ctx_ok s" and keep: "keeps_servers others" and i: "get_id server < length (servers (ctx s))"
    and check: "check_server_health others env elapsed server s = (r, t)"
  shows "r \<noteq> Panic \<and> steady s t"
proof -
  note others = steady_others [OF keep]
  have s: "steady s s" using ok by (simp add: steady_def)
  show ?thesis
  proof (cases "is_healthy server")
    case True
    let ?p = "conn_pools (ctx s) ! get_id server"
    have p: "get_connection_pool (ctx s) server = Ok ?p" using pool_of [OF ok i refl] .
    obtain r1 b where take: "take_from others ?p (others s) = (r1, b)" by (metis prod.collapse)
    have b: "steady s b"
      using take_from_ok(1,2) [OF _ keep take] others [OF s] by (auto simp: steady_def intro: same_servers_trans)
    show ?thesis
      using take_from_ok(3) [OF conjunct1 [OF others [OF s, unfolded steady_def]] keep take]
    proof
      assume "r1 = Stuck"
      with True check p take b show ?thesis by (simp add: check_server_health_def get_pool_connection_def)
    next
      assume "\<exists>pc. r1 = Ok pc"
      then obtain pc where pc: "r1 = Ok pc" by blast
      obtain res w where res: "ping env (conn pc) (world (others b)) = (res, w)" by (metis prod.collapse)
      let ?v = "others ((others b)\<lparr>world := w\<rparr>)"
      have v: "steady s ?v" using others [OF b] others [of s "(others b)\<lparr>world := w\<rparr>"] by simp
      have "ctx_ok (others s)" "get_id server < length (servers (ctx (others s)))"
        "conn_pools (ctx (others s)) = conn_pools (ctx s)"
        using others [OF s] i steady_length [OF others [OF s]] by (auto simp: steady_def same_servers_def)
      then have "get_id (conn_server pc) = get_id server"
        using take_from_id [of "others s" others "get_id server" pc b] keep take pc by simp
      moreover have "get_id server < length (servers (ctx ?v))" using i steady_length [OF v] by simp
      ultimately have q: "get_connection_pool (ctx ?v) (conn_server pc) = Ok (conn_pools (ctx ?v) ! get_id server)"
        using v by (intro pool_of) (auto simp: steady_def)
      let ?u = "others (give_back env (conn_pools (ctx ?v) ! get_id server) pc (others ?v))"
      have u: "steady s ?u" using others [OF steady_give_back [OF others [OF v]]] .
      from True check p take pc res q
      have "r = Ok () \<and> (t = update_server_status server HEALTHY (Some (elapsed (world (others b)) w)) ?u
        \<or> (\<exists>err. t = update_server_status server (UNHEALTHY (VkLdapError_fmt err)) None ?u))"
        by (cases res) (auto simp: check_server_health_def get_pool_connection_def return_pool_connection_def Let_def)
      with u steady_update show ?thesis by auto
    qed
  next
    case False
    obtain conn_res a where a: "get_connection others env server s = (conn_res, a)" by (metis prod.collapse)
    then have "steady s a" using others [OF s] by (auto simp: get_connection_def Let_def split: prod.splits)
    then have a2: "steady s (others a)" by (rule others)
    show ?thesis
    proof (cases conn_res)
      case (Inl err)
      with False check a a2 steady_update show ?thesis by (auto simp: check_server_health_def Let_def)
    next
      case (Inr c)
      obtain res w where res: "ping env c (world (others a)) = (res, w)" by (metis prod.collapse)
      let ?v = "others ((others a)\<lparr>world := w\<rparr>)"
      have v: "steady s ?v" using a2 others by simp
      then have "ctx_ok ?v" "get_id server < length (servers (ctx ?v))"
        using i steady_length [OF v] by (auto simp: steady_def)
      from refresh_pool_ok [OF this(1) keep this(2), of env] obtain t' where
        "refresh_pool_connections others env server ?v = (Ok (), t')" "steady ?v t'"
        by (auto simp: steady_def)
      with False check a Inr res v show ?thesis
        by (cases res) (auto simp: check_server_health_def Let_def intro: steady_trans)
    qed
  qed
qed

lemma check_all_steady:
  assumes "keeps_servers others"
    and "ctx_ok s" "\<And>server. server \<in> set l \<Longrightarrow> get_id server < length (servers (ctx s))"
    and "check_all others env elapsed l s = (r, t)"
  shows "r \<noteq> Panic \<and> steady s t"
  using assms(2-)
proof (induction l arbitrary: s r t)
  case Nil
  then show ?case by (auto simp: steady_def)
next
  case (Cons server l)
  obtain r1 u where u: "check_server_health others env elapsed server s = (r1, u)" by (metis prod.collapse)
  have u_ok: "r1 \<noteq> Panic" "steady s u"
    using check_steady [OF Cons.prems(1) assms(1) _ u] Cons.prems(2) by auto
  obtain r2 v where v: "check_all others env elapsed l u = (r2, v)" by (metis prod.collapse)
  have "ctx_ok u" "\<And>x. x \<in> set l \<Longrightarrow> get_id x < length (servers (ctx u))"
    using u_ok(2) steady_length [OF u_ok(2)] Cons.prems(2) by (auto simp: steady_def)
  from Cons.IH [OF this v] have v_ok: "r2 \<noteq> Panic" "steady u v" by auto
  from Cons.prems(3) u u_ok v v_ok(1) have "r \<noteq> Panic" "t = v"
    by (cases r1; cases r2; auto)+
  with steady_trans [OF u_ok(2) v_ok(2)] show ?case by blast
qed

section \<open>Checks on a list that went away\<close>

lemma clear_pools [simp]: "conn_pools (ctx (clear_server_list s)) = []" "servers (ctx (clear_server_list s)) = []"
  by (simp_all add: clear_server_list_def VkLdapContext_clear_server_list_def)

lemma no_pool: "conn_pools (ctx s) = [] \<Longrightarrow> get_connection_pool (ctx s) server = Panic"
  by (simp add: get_connection_pool_def)

lemma check_cleared:
  assumes "conn_pools (ctx s) = []" and "check_server_health clear_server_list env elapsed server s = (r, t)"
  shows "conn_pools (ctx t) = [] \<and> (is_healthy server \<longrightarrow> r = Panic) \<and> r \<noteq> Stuck"
proof (cases "is_healthy server")
  case True
  with assms show ?thesis
    by (simp add: check_server_health_def get_pool_connection_def no_pool)
next
  case False
  with assms show ?thesis
    by (auto simp: check_server_health_def get_connection_def refresh_pool_connections_def no_pool Let_def
        split: prod.splits sum.splits)
qed

lemma check_all_cleared:
  assumes "conn_pools (ctx s) = []" and "server \<in> set l" and "is_healthy server"
  shows "fst (check_all clear_server_list env elapsed l s) = Panic"
  using assms
proof (induction l arbitrary: s)
  case (Cons x l)
  obtain r t where r: "check_server_health clear_server_list env elapsed x s = (r, t)" by (metis prod.collapse)
  with check_cleared [OF Cons.prems(1) this] Cons show ?case by (cases r) auto
qed simp

section \<open>Properties\<close>

text \<open>C21. As long as the list of servers is left alone, whatever other tasks do to the pools and the
  states of the servers, no check of an iteration of the failure detector indexes the list of
  pools out of range, and the iteration leaves the context well-formed with the same servers.
  Under the condition that the log calls on its way return (the lines \<open>connection.rs:186\<close> and
  \<open>context.rs:103\<close>, which are not in the model, and which panic once the logger is poisoned, see
  \<open>nul_username_stops_authentication\<close>), the iteration does not panic.\<close>

theorem iteration_safe:
  assumes "ctx_ok s" and "keeps_servers others"
  shows "fst (failure_detector_iteration others env elapsed s) \<noteq> Panic
    \<and> ctx_ok (snd (failure_detector_iteration others env elapsed s))
    \<and> same_servers s (snd (failure_detector_iteration others env elapsed s))"
proof -
  have s: "ctx_ok (others s)" "same_servers s (others s)" using keeps_serversD [OF assms(2,1)] .
  obtain r t where r: "check_all others env elapsed (servers (ctx s)) (others s) = (r, t)"
    by (metis prod.collapse)
  have "r \<noteq> Panic \<and> steady (others s) t"
    using ctx_ok_get_id [OF assms(1)] same_servers_length [OF s(2)]
    by (intro check_all_steady [OF assms(2) s(1) _ r]) simp
  with r s(2) show ?thesis
    by (auto simp: failure_detector_iteration_def get_servers_health_status_def steady_def
        intro: same_servers_trans)
qed

theorem iteration_safe_witness:
  "ctx_ok (snd (failure_detector_iteration (run_spawned demo_dir) demo_dir (\<lambda>_ _. 0) demo_two))"
  using iteration_safe [OF demo_two_ok keeps_servers_run_spawned, of demo_dir demo_dir] by blast

text \<open>C20. If the list of servers is cleared while an iteration is under way, so that the iteration works
  on a snapshot of the old list with a healthy server in it, the check of that server indexes the
  list of pools out of range and panics; the detector's thread then waits for ever for the result,
  it does not see the stop flag any more, and the shutdown of the detector waits for ever too.\<close>

theorem detector_hangs_after_clear:
  assumes "running sc" and "sleep x = (fd', s)" and "server \<in> set (servers (ctx s))" and "is_healthy server"
    and "fd_thread fd" and "\<not> fd_poisoned fd"
  shows "detector_thread sleep clear_server_list env elapsed sc x = Some Hangs
    \<and> fst (FailureDetector_shutdown (detector_thread sleep clear_server_list env elapsed sc x) fd) = Stuck"
proof -
  have "fst (failure_detector_iteration clear_server_list env elapsed s) = Panic"
    using check_all_cleared [OF clear_pools(1) assms(3,4)]
    by (simp add: failure_detector_iteration_def get_servers_health_status_def)
  then have "fst (submit_sync_task 0 (failure_detector_iteration clear_server_list env elapsed) sc s) = Stuck"
    by (rule jobs.submit_panics [OF assms(1)])
  then have "detector_thread sleep clear_server_list env elapsed sc x = Some Hangs"
    using assms(2) by (cases "submit_sync_task 0 (failure_detector_iteration clear_server_list env elapsed) sc s")
      (simp add: detector_thread_def loop.simps detector_body_def)
  with assms(5,6) show ?thesis by (simp add: FailureDetector_shutdown_def Let_def)
qed

theorem detector_hangs_after_clear_witness:
  "detector_thread (\<lambda>x. x) clear_server_list demo_dir (\<lambda>_ _. 0) (initialize (Scheduler_new :: nat Scheduler))
     (FailureDetector_new, demo_two) = Some Hangs"
proof -
  have "running (initialize (Scheduler_new :: nat Scheduler))"
    by (simp add: running_def initialize_def Scheduler_new_def)
  moreover have "VkLdapServer_new ''ldap://a'' 0 HEALTHY \<in> set (servers (ctx demo_two))"
    by (simp add: demo_two_simps)
  ultimately show ?thesis
    using detector_hangs_after_clear [of "initialize (Scheduler_new :: nat Scheduler)" "\<lambda>x. x"
        "(FailureDetector_new, demo_two)" FailureDetector_new demo_two
        "VkLdapServer_new ''ldap://a'' 0 HEALTHY" "FailureDetector_new\<lparr>fd_thread := True\<rparr>" demo_dir "\<lambda>_ _. 0"]
    by (simp add: VkLdapServer_new_def FailureDetector_new_def)
qed

text \<open>C23. The check of a healthy server, undisturbed: one connection of its pool is pinged and goes back
  to the pool whatever the answer; the server stays healthy with the measured time, or becomes
  unhealthy with the message of the error and without a time.\<close>

theorem healthy_check_result:
  assumes "ctx_ok s" and "i < length (servers (ctx s))" and "is_healthy (servers (ctx s) ! i)"
    and "queue (the_pool s i) \<noteq> []" and "ping env (next_conn s i) (world s) = (res, w)"
  shows "\<exists>t. check_server_health (\<lambda>s. s) env elapsed (servers (ctx s) ! i) s = (Ok (), t)
    \<and> queue (the_pool t i) = next_conn s i # butlast (queue (the_pool s i))
    \<and> srv_status (servers (ctx t) ! i) =
        (case res of Inl err \<Rightarrow> UNHEALTHY (VkLdapError_fmt err) | Inr _ \<Rightarrow> HEALTHY)
    \<and> srv_ping_time (servers (ctx t) ! i) =
        (case res of Inl err \<Rightarrow> None | Inr _ \<Rightarrow> Some (elapsed (world s) w))"
proof -
  let ?p = "conn_pools (ctx s) ! i" and ?server = "servers (ctx s) ! i"
  have id: "get_id ?server = i" and e: "?p < length (pools s)" "get_id (pool_server (pools s ! ?p)) = i"
    using assms(1,2) by (auto simp: ctx_ok_def entry_ok_def get_id_def)
  have pool: "get_connection_pool (ctx s) server = Ok ?p" if "get_id server = i" for server
    using pool_of [OF assms(1,2) that] .
  let ?q = "(pools s ! ?p)\<lparr>pool_queue := (pool_queue (pools s ! ?p))\<lparr>queue := butlast (queue (pool_queue (pools s ! ?p)))\<rparr>\<rparr>"
  let ?pc = "\<lparr>conn = next_conn s i, conn_server = pool_server (pools s ! ?p), from_epoch = epoch (pool_queue (pools s ! ?p))\<rparr>"
  have take: "take_from (\<lambda>s. s) ?p s = (Ok ?pc, s\<lparr>pools := (pools s)[?p := ?q]\<rparr>)"
    using assms(4) by (simp add: take_from_now take_connection_def queue_take_def queue_is_empty_def
        the_pool_def next_conn_def)
  let ?t = "give_back env ?p ?pc (s\<lparr>pools := (pools s)[?p := ?q], world := w\<rparr>)"
  have t: "ctx ?t = ctx s" "queue (the_pool ?t i) = next_conn s i # butlast (queue (the_pool s i))"
    using e by (simp_all add: give_back_def return_connection_def get_epoch_def queue_put_def the_pool_def)
  have "check_server_health (\<lambda>s. s) env elapsed ?server s =
      (Ok (), case res of Inl err \<Rightarrow> update_server_status ?server (UNHEALTHY (VkLdapError_fmt err)) None ?t
        | Inr _ \<Rightarrow> update_server_status ?server HEALTHY (Some (elapsed (world s) w)) ?t)"
    using assms(3,5) e by (cases res) (simp_all add: check_server_health_def get_pool_connection_def
        return_pool_connection_def pool id take)
  with t assms(2) id show ?thesis
    by (cases res) (simp_all add: update_nth the_pool_def)
qed

theorem healthy_check_result_witness:
  "\<exists>t. check_server_health (\<lambda>s. s) demo_dir (\<lambda>v w. w - v) (servers (ctx demo_two) ! 1) demo_two = (Ok (), t)
    \<and> srv_ping_time (servers (ctx t) ! 1) = Some 1"
proof -
  have "ping demo_dir (next_conn demo_two 1) (world demo_two) = (Inr (), 5)"
    by (simp add: next_conn_def demo_two_pool demo_two_simps ping_def request_def handle_ldap_error_def
        demo_dir_def demo_env_def)
  moreover have "is_healthy (servers (ctx demo_two) ! 1)" "queue (the_pool demo_two 1) \<noteq> []"
    by (simp_all add: demo_two_pool demo_two_simps VkLdapServer_new_def)
  ultimately show ?thesis
    using healthy_check_result [OF demo_two_ok, of 1 demo_dir "Inr ()" 5 "\<lambda>v w. w - v"]
    by (fastforce simp: demo_two_simps)
qed

text \<open>C22. The check of an unhealthy server, when no other task runs meanwhile, brings it back only if
  it made a new connection that answered the ping, and then filled the pool completely with new
  connections, in a new epoch.  (This is about the check only: a change of the connection settings
  refreshes every pool too, and brings back a server without a ping, see \<open>refresh_settings_result\<close>.)\<close>

theorem revived_with_full_pool:
  assumes "ctx_ok s" and "i < length (servers (ctx s))" and "\<not> is_healthy (servers (ctx s) ! i)"
    and "check_server_health (\<lambda>s. s) env elapsed (servers (ctx s) ! i) s = (r, t)"
    and "is_healthy (servers (ctx t) ! i)"
  shows "r = Ok () \<and> length (queue (the_pool t i)) = unat (connection_pool_size (connection_settings (ctx s)))
    \<and> epoch (the_pool t i) = epoch (the_pool s i) + 1
    \<and> (\<exists>c w w'. VkLdapConnection_new env (connection_settings (ctx s)) (servers (ctx s) ! i) (world s) = (Inr c, w)
        \<and> ping env c w = (Inr (), w'))"
proof -
  let ?server = "servers (ctx s) ! i"
  have id: "get_id ?server = i" using assms(1,2) by (simp add: ctx_ok_def entry_ok_def get_id_def)
  obtain conn_res w where new: "VkLdapConnection_new env (connection_settings (ctx s)) ?server (world s) = (conn_res, w)"
    by (metis prod.collapse)
  have conn: "get_connection (\<lambda>s. s) env ?server s = (conn_res, s\<lparr>world := w\<rparr>)"
    by (simp add: get_connection_def get_connection_settings_def new)
  show ?thesis
  proof (cases conn_res)
    case (Inl err)
    with assms(3,4) conn have "t = update_server_status ?server (UNHEALTHY (VkLdapError_fmt err)) None (s\<lparr>world := w\<rparr>)"
      by (simp add: check_server_health_def)
    with assms(2,5) id show ?thesis by (simp add: update_nth)
  next
    case (Inr c)
    obtain res w' where res: "ping env c w = (res, w')" by (metis prod.collapse)
    let ?v = "s\<lparr>world := w'\<rparr>"
    show ?thesis
    proof (cases res)
      case (Inl err)
      with assms(3,4) conn Inr res have "t = ?v"
        by (simp add: check_server_health_def)
      with assms(3,5) show ?thesis by simp
    next
      case (Inr u)
      have "ctx_ok ?v" "get_id ?server < length (servers (ctx ?v))" using assms(1,2) id by simp_all
      from refresh_pool_alone [OF this, of env] id obtain t' where
        "refresh_pool_connections (\<lambda>s. s) env ?server ?v = (Ok (), t')" "refreshed_from ?v t' i"
        "differ_at {i} ?v t'"
        by auto
      with assms(3,4,5) conn \<open>conn_res = Inr c\<close> res Inr new show ?thesis
        by (auto simp: check_server_health_def refreshed_from_def differ_at_def the_pool_def)
    qed
  qed
qed

definition demo_down :: "(string, string, nat) sys" where
  "demo_down = demo_sys [] [''ldap://a'']"

lemma demo_down_simps:
  "servers (ctx demo_down) = [(VkLdapServer_new ''ldap://a'' 0 HEALTHY)
     \<lparr>srv_status := UNHEALTHY (VkLdapError_fmt (LdapConnectionError (OtherLdapError ''refused'')))\<rparr>]"
  "conn_pools (ctx demo_down) = [0]" "connection_settings (ctx demo_down) = demo_settings"
  "pools demo_down = [\<lparr>pool_queue = \<lparr>queue = [], epoch = 1, q_size = 2\<rparr>,
     pool_server = VkLdapServer_new ''ldap://a'' 0 HEALTHY\<rparr>]"
  by (simp_all add: demo_down_def demo_sys_def demo_start_def add_server_def VkConnectionPool_new_def
      reset_connections_def close_connections_def ConnectionQueue_new_def demo_settings_def
      VkConnectionSettings_default_def VkLdapContext_new_def VkLdapServer_new_def new_server_def
      fill_queue_numeral demo_connect get_connection_settings_def VkLdapContext_add_server_def Let_def
      set_status_def)

theorem revived_with_full_pool_witness:
  "\<exists>t. check_server_health (\<lambda>s. s) (demo_env [''ldap://a''] [] []) (\<lambda>_ _. 0) (servers (ctx demo_down) ! 0)
      demo_down = (Ok (), t) \<and> length (queue (the_pool t 0)) = 2"
proof -
  let ?env = "demo_env [''ldap://a''] [] []"
  let ?r = "check_server_health (\<lambda>s. s) ?env (\<lambda>_ _. 0) (servers (ctx demo_down) ! 0) demo_down"
  have "ping ?env ''ldap://a'' w = (Inr (), Suc w)" for w
    by (simp add: ping_def request_def handle_ldap_error_def demo_env_def)
  then have healthy: "is_healthy (servers (ctx (snd ?r)) ! 0)"
    by (simp add: check_server_health_def demo_down_simps get_connection_def get_connection_settings_def
        demo_connect VkLdapServer_new_def demo_settings_def VkConnectionSettings_default_def
        refresh_pool_connections_def get_connection_pool_def get_id_def refresh_connections_def
        reset_connections_def close_connections_def fill_queue_numeral update_nth)
  have "ctx_ok demo_down" "0 < length (servers (ctx demo_down))" "\<not> is_healthy (servers (ctx demo_down) ! 0)"
    using ctx_ok_demo by (simp_all add: demo_down_def [symmetric] demo_down_simps) (simp add: demo_down_def)
  from revived_with_full_pool [OF this prod.collapse [symmetric] healthy]
  show ?thesis
    by (intro exI [of _ "snd ?r"]) (simp add: prod_eq_iff demo_down_simps demo_settings_def)
qed

end
