(* ===== verification/Vkldap.thy ===== *)
theory Vkldap
  imports Failover Scheduler
begin

text \<open>
  What the rest of the module calls (\<open>src/src/vkldap/mod.rs\<close>): every function first asks whether the
  scheduler is ready, and then submits a function of the context to it.

  The state has the scheduler, the state of the tasks, and what the callbacks of the asynchronous
  requests work on (\<open>'k\<close>).  The values that go through the scheduler are of the type \<open>any_val\<close>.
\<close>

datatype any_val = Client nat | Unit_result "unit result" | Tokens_result "string list result"

definition ty_client :: nat where "ty_client = 1"
definition ty_unit_result :: nat where "ty_unit_result = 2"
definition ty_tokens_result :: nat where "ty_tokens_result = 3"

type_synonym ('u, 'c, 'w, 'k) request_task = "(any_val, ('u, 'c, 'w) sys \<times> 'k) Task"

record ('u, 'c, 'w, 'k) vk =
  sched :: "('u, 'c, 'w, 'k) request_task Scheduler"
  sys :: "('u, 'c, 'w) sys"
  clients :: 'k

section \<open>Synchronous calls\<close>

definition when_ready ::
  "('u, 'c, 'w, 'k) vk \<Rightarrow> (VkLdapError, 'a) outcome
   \<Rightarrow> (('u, 'c, 'w, 'k) vk \<Rightarrow> (VkLdapError, 'a) outcome \<times> ('u, 'c, 'w, 'k) vk)
   \<Rightarrow> (VkLdapError, 'a) outcome \<times> ('u, 'c, 'w, 'k) vk"
where
  "when_ready v otherwise k =
     and_then (is_scheduler_ready (sched v), v) (\<lambda>ready v. if \<not> ready then (otherwise, v) else k v)"

definition submit ::
  "(('u, 'c, 'w) sys \<Rightarrow> (VkLdapError, 'a) outcome \<times> ('u, 'c, 'w) sys) \<Rightarrow> ('u, 'c, 'w, 'k) vk
   \<Rightarrow> (VkLdapError, 'a) outcome \<times> ('u, 'c, 'w, 'k) vk"
where
  "submit f v = (let (r, s) = submit_sync_task 0 f (sched v) (sys v) in (r, v\<lparr>sys := s\<rparr>))"

text \<open>An error of the submission is logged and dropped by the two refresh functions.\<close>

fun drop_error :: "(VkLdapError, unit) outcome \<times> 's \<Rightarrow> (VkLdapError, unit) outcome \<times> 's" where
  "drop_error (Err err, v) = (Ok (), v)"
| "drop_error p = p"

definition vkldap_refresh_ldap_settings ::
  "VkLdapSettings \<Rightarrow> ('u, 'c, 'w, 'k) vk \<Rightarrow> (VkLdapError, unit) outcome \<times> ('u, 'c, 'w, 'k) vk"
where
  "vkldap_refresh_ldap_settings settings v =
     when_ready v (Ok ()) (\<lambda>v. drop_error (submit (\<lambda>s. (Ok (), refresh_ldap_settings settings s)) v))"

definition vkldap_refresh_ldap_settings_blocking ::
  "bool \<Rightarrow> VkLdapSettings \<Rightarrow> ('u, 'c, 'w, 'k) vk \<Rightarrow> ('u, 'c, 'w, 'k) vk"
where
  "vkldap_refresh_ldap_settings_blocking locked settings v =
     v\<lparr>sys := refresh_ldap_settings_blocking locked settings (sys v)\<rparr>"

definition vkldap_refresh_connection_settings ::
  "('u, 'c, 'w) interference \<Rightarrow> ('u, 'c, 'w) ldap_env \<Rightarrow> VkConnectionSettings \<Rightarrow> ('u, 'c, 'w, 'k) vk
   \<Rightarrow> (VkLdapError, unit) outcome \<times> ('u, 'c, 'w, 'k) vk"
where
  "vkldap_refresh_connection_settings others env settings v =
     when_ready v (Ok ()) (\<lambda>v. drop_error (submit (refresh_connection_settings others env settings) v))"

definition vkldap_refresh_connection_settings_blocking ::
  "bool \<Rightarrow> VkConnectionSettings \<Rightarrow> ('u, 'c, 'w, 'k) vk \<Rightarrow> ('u, 'c, 'w, 'k) vk"
where
  "vkldap_refresh_connection_settings_blocking locked settings v =
     v\<lparr>sys := refresh_connection_settings_blocking locked settings (sys v)\<rparr>"

definition vkldap_clear_server_list ::
  "('u, 'c, 'w, 'k) vk \<Rightarrow> (VkLdapError, unit) outcome \<times> ('u, 'c, 'w, 'k) vk"
where
  "vkldap_clear_server_list v =
     when_ready v (Ok ()) (submit (\<lambda>s. (Ok (), clear_server_list s)))"

definition vkldap_reset_context ::
  "('u, 'c, 'w, 'k) vk \<Rightarrow> (VkLdapError, unit) outcome \<times> ('u, 'c, 'w, 'k) vk"
where
  "vkldap_reset_context v = when_ready v (Ok ()) (submit (\<lambda>s. (Ok (), reset_context s)))"

definition vkldap_add_server ::
  "('u, 'c, 'w) interference \<Rightarrow> ('u, 'c, 'w) ldap_env \<Rightarrow> 'u \<Rightarrow> ('u, 'c, 'w, 'k) vk
   \<Rightarrow> (VkLdapError, unit) outcome \<times> ('u, 'c, 'w, 'k) vk"
where
  "vkldap_add_server others env server_url v =
     when_ready v (Ok ()) (submit (\<lambda>s. (Ok (), add_server others env server_url s)))"

definition vkldap_get_servers_health_status ::
  "('u, 'c, 'w, 'k) vk \<Rightarrow> (VkLdapError, 'u VkLdapServer list) outcome \<times> ('u, 'c, 'w, 'k) vk"
where
  "vkldap_get_servers_health_status v =
     when_ready v (Ok []) (submit (\<lambda>s. (Ok (get_servers_health_status s), s)))"

section \<open>Asynchronous requests\<close>

text \<open>
  The future of a request: the result of the request is the value of the future, good or bad; a
  request that panics or never comes back has no value.
\<close>

fun as_value :: "('a result \<Rightarrow> any_val) \<Rightarrow> (VkLdapError, 'a) outcome \<Rightarrow> (VkLdapError, any_val) outcome" where
  "as_value f (Ok a) = Ok (f (Inr a))"
| "as_value f (Err err) = Ok (f (Inl err))"
| "as_value f Panic = Panic"
| "as_value f Stuck = Stuck"

definition future_of ::
  "('a result \<Rightarrow> any_val) \<Rightarrow> (('u, 'c, 'w) sys \<Rightarrow> ((VkLdapError, 'a) outcome \<times> ('u, 'c, 'w) sys) option)
   \<Rightarrow> ('u, 'c, 'w) sys \<times> 'k \<Rightarrow> (VkLdapError, any_val) outcome \<times> ('u, 'c, 'w) sys \<times> 'k"
where
  "future_of f req = (\<lambda>(s, k).
     (case req s of
        None \<Rightarrow> (Stuck, s, k)
      | Some (r, s) \<Rightarrow> (as_value f r, s, k)))"

type_synonym 'k unit_callback =
  "nat option \<Rightarrow> unit result \<Rightarrow> 'k \<Rightarrow> (VkLdapError, unit) outcome \<times> 'k"

type_synonym 'k tokens_callback =
  "nat option \<Rightarrow> string list result \<Rightarrow> 'k \<Rightarrow> (VkLdapError, unit) outcome \<times> 'k"

definition the_client :: "any_val option \<Rightarrow> nat option" where
  "the_client d = (case d of Some (Client c) \<Rightarrow> Some c | _ \<Rightarrow> None)"

definition unit_callback ::
  "'k unit_callback \<Rightarrow> (any_val, ('u, 'c, 'w) sys \<times> 'k) callback"
where
  "unit_callback cb d r = (\<lambda>(s, k).
     (case r of Unit_result res \<Rightarrow> (let (x, k) = cb (the_client d) res k in (x, s, k)) | _ \<Rightarrow> (Panic, s, k)))"

definition tokens_callback ::
  "'k tokens_callback \<Rightarrow> (any_val, ('u, 'c, 'w) sys \<times> 'k) callback"
where
  "tokens_callback cb d r = (\<lambda>(s, k).
     (case r of Tokens_result res \<Rightarrow> (let (x, k) = cb (the_client d) res k in (x, s, k)) | _ \<Rightarrow> (Panic, s, k)))"

definition submit_unit_request ::
  "(('u, 'c, 'w) sys \<Rightarrow> ((VkLdapError, unit) outcome \<times> ('u, 'c, 'w) sys) option) \<Rightarrow> 'k unit_callback \<Rightarrow> nat
   \<Rightarrow> ('u, 'c, 'w, 'k) vk \<Rightarrow> (VkLdapError, unit) outcome \<times> ('u, 'c, 'w, 'k) vk"
where
  "submit_unit_request req cb client v =
     (let (r, sc) = submit_async_task ty_unit_result ty_client (future_of Unit_result req)
            (unit_callback cb) (Client client) (sched v)
      in (r, v\<lparr>sched := sc\<rparr>))"

definition submit_tokens_request ::
  "(('u, 'c, 'w) sys \<Rightarrow> ((VkLdapError, string list) outcome \<times> ('u, 'c, 'w) sys) option)
   \<Rightarrow> 'k tokens_callback \<Rightarrow> nat
   \<Rightarrow> ('u, 'c, 'w, 'k) vk \<Rightarrow> (VkLdapError, unit) outcome \<times> ('u, 'c, 'w, 'k) vk"
where
  "submit_tokens_request req cb client v =
     (let (r, sc) = submit_async_task ty_tokens_result ty_client (future_of Tokens_result req)
            (tokens_callback cb) (Client client) (sched v)
      in (r, v\<lparr>sched := sc\<rparr>))"

type_synonym ('u, 'c, 'w, 'k, 'r) vk_request =
  "('u, 'c, 'w) interference \<Rightarrow> ('u, 'c, 'w) ldap_env \<Rightarrow> string \<Rightarrow> string
   \<Rightarrow> (nat option \<Rightarrow> 'r result \<Rightarrow> 'k \<Rightarrow> (VkLdapError, unit) outcome \<times> 'k) \<Rightarrow> nat
   \<Rightarrow> ('u, 'c, 'w, 'k) vk \<Rightarrow> (VkLdapError, unit) outcome \<times> ('u, 'c, 'w, 'k) vk"

definition vk_ldap_bind :: "('u, 'c, 'w, 'k, unit) vk_request" where
  "vk_ldap_bind others env username password cb client v =
     when_ready v (Err SchedulerNotReady)
       (submit_unit_request (ldap_bind others env username password) cb client)"

definition vk_ldap_search_and_bind :: "('u, 'c, 'w, 'k, unit) vk_request" where
  "vk_ldap_search_and_bind others env username password cb client v =
     when_ready v (Err SchedulerNotReady)
       (submit_unit_request (ldap_search_and_bind others env username password) cb client)"

definition vk_ldap_bind_and_groups :: "('u, 'c, 'w, 'k, string list) vk_request" where
  "vk_ldap_bind_and_groups others env username password cb client v =
     when_ready v (Err SchedulerNotReady)
       (submit_tokens_request (ldap_bind_and_groups others env username password) cb client)"

definition vk_ldap_search_bind_and_groups :: "('u, 'c, 'w, 'k, string list) vk_request" where
  "vk_ldap_search_bind_and_groups others env username password cb client v =
     when_ready v (Err SchedulerNotReady)
       (submit_tokens_request (ldap_search_bind_and_groups others env username password) cb client)"

definition vk_ldap_bind_and_group_rules :: "('u, 'c, 'w, 'k, string list) vk_request" where
  "vk_ldap_bind_and_group_rules others env username password cb client v =
     when_ready v (Err SchedulerNotReady)
       (submit_tokens_request (ldap_bind_and_group_rules others env username password) cb client)"

definition vk_ldap_search_bind_and_group_rules :: "('u, 'c, 'w, 'k, string list) vk_request" where
  "vk_ldap_search_bind_and_group_rules others env username password cb client v =
     when_ready v (Err SchedulerNotReady)
       (submit_tokens_request (ldap_search_bind_and_group_rules others env username password) cb client)"

text \<open>The scheduler's thread receives what is in the channel, and the runtime runs the tasks.\<close>

definition run_tasks ::
  "('u, 'c, 'w, 'k) request_task list \<Rightarrow> ('u, 'c, 'w, 'k) vk \<Rightarrow> ('u, 'c, 'w, 'k) vk"
where
  "run_tasks ts v =
     (let (s, k) = fold (\<lambda>t x. snd (run_payload t x)) ts (sys v, clients v) in v\<lparr>sys := s, clients := k\<rparr>)"

definition deliver :: "('u, 'c, 'w, 'k) vk \<Rightarrow> ('u, 'c, 'w, 'k) vk" where
  "deliver v =
     (case state (sched v) of
        None \<Rightarrow> v
      | Some st \<Rightarrow>
          (case scheduler_loop True (channel st) of
             Some (Waiting ts) \<Rightarrow> run_tasks ts (v\<lparr>sched := (sched v)\<lparr>state := Some (st\<lparr>channel := []\<rparr>)\<rparr>\<rparr>)
           | Some (Returned ts) \<Rightarrow> run_tasks ts (v\<lparr>sched := (sched v)\<lparr>state := Some (st\<lparr>channel := [], receiver := False\<rparr>)\<rparr>\<rparr>)
           | None \<Rightarrow> v))"

section \<open>Lemmas\<close>

lemma ready_cases:
  "running sc \<Longrightarrow> is_scheduler_ready sc = Ok True"
  by (auto simp: running_def is_scheduler_ready_def is_initialized_def)

lemma when_ready_running: "running (sched v) \<Longrightarrow> when_ready v d k = k v"
  by (simp add: when_ready_def ready_cases)

lemma when_ready_down: "is_scheduler_ready (sched v) = Ok False \<Longrightarrow> when_ready v d k = (d, v)"
  by (simp add: when_ready_def)

lemma submit_running:
  "running (sched v) \<Longrightarrow> submit f v = (settle (fst (f (sys v))), v\<lparr>sys := snd (f (sys v))\<rparr>)"
  by (simp add: submit_def jobs.submit_ready)

lemma submit_tokens_running:
  assumes "running (sched v)" "state (sched v) = Some st"
  shows "submit_tokens_request req cb client v =
    (Ok (), v\<lparr>sched := (sched v)\<lparr>state := Some (st\<lparr>channel := channel st @
      [Task_job (Task_new ty_tokens_result ty_client (future_of Tokens_result req) (tokens_callback cb) (Some (Client client)))]\<rparr>)\<rparr>\<rparr>)"
  using assms by (auto simp: submit_tokens_request_def submit_async_task_def send_job_def JobSender_send_def running_def)

text \<open>A request whose callback gets a result when it is delivered.\<close>

lemma deliver_one:
  assumes "state (sched v) = Some st" "channel st = [Task_job t]"
  shows "deliver v = run_tasks [t] (v\<lparr>sched := (sched v)\<lparr>state := Some (st\<lparr>channel := []\<rparr>)\<rparr>\<rparr>)"
  using assms scheduler_loop_eq [of True "[Task_job t]" "[]"] by (simp add: deliver_def scheduler_loop_def)

text \<open>What the callback makes of the result of a request; without a result it is not called.\<close>

definition answered ::
  "'k tokens_callback \<Rightarrow> nat \<Rightarrow> ((VkLdapError, string list) outcome \<times> 's) option \<Rightarrow> 'k \<Rightarrow> 'k"
where
  "answered cb client x k =
     (case x of
        Some (Ok l, _) \<Rightarrow> snd (cb (Some client) (Inr l) k)
      | Some (Err e, _) \<Rightarrow> snd (cb (Some client) (Inl e) k)
      | _ \<Rightarrow> k)"

lemma run_tokens_request:
  "snd (run_payload (Task_new ty_tokens_result ty_client (future_of Tokens_result req) (tokens_callback cb)
      (Some (Client client))) (s, k)) =
    ((case req s of Some (_, s') \<Rightarrow> s' | None \<Rightarrow> s), answered cb client (req s) k)"
  by (cases "req s"; cases "fst (the (req s))")
    (auto simp: run_payload_new future_of_def tokens_callback_def the_client_def answered_def split: prod.splits)

lemma tokens_delivered:
  assumes "running (sched v)" and "state (sched v) = Some st" and "channel st = []"
  shows "\<exists>v'. submit_tokens_request req cb client v = (Ok (), v') \<and> sys v' = sys v \<and> clients v' = clients v
    \<and> sys (deliver v') = (case req (sys v) of Some (_, s') \<Rightarrow> s' | None \<Rightarrow> sys v)
    \<and> clients (deliver v') = answered cb client (req (sys v)) (clients v)"
proof -
  let ?t = "Task_new ty_tokens_result ty_client (future_of Tokens_result req) (tokens_callback cb) (Some (Client client))"
  let ?v = "v\<lparr>sched := (sched v)\<lparr>state := Some (st\<lparr>channel := [Task_job ?t]\<rparr>)\<rparr>\<rparr>"
  have sub: "submit_tokens_request req cb client v = (Ok (), ?v)"
    using assms(3) by (simp add: submit_tokens_running [OF assms(1,2)])
  have "deliver ?v = run_tasks [?t] (?v\<lparr>sched := (sched ?v)\<lparr>state := Some (st\<lparr>channel := []\<rparr>)\<rparr>\<rparr>)"
    using deliver_one [of ?v "st\<lparr>channel := [Task_job ?t]\<rparr>" ?t] by simp
  then show ?thesis
    using run_tokens_request [of req cb client "sys v" "clients v"] sub
    by (intro exI [of _ ?v]) (simp add: run_tasks_def split_def)
qed

text \<open>The two requests the authentication uses.\<close>

lemma requests_delivered:
  assumes "running (sched v)" and "state (sched v) = Some st" and "channel st = []"
  shows "\<exists>v'. vk_ldap_bind_and_group_rules others env username password cb client v = (Ok (), v')
    \<and> clients (deliver v') =
      answered cb client (ldap_bind_and_group_rules others env username password (sys v)) (clients v)"
    "\<exists>v'. vk_ldap_search_bind_and_group_rules others env username password cb client v = (Ok (), v')
    \<and> clients (deliver v') =
      answered cb client (ldap_search_bind_and_group_rules others env username password (sys v)) (clients v)"
  using tokens_delivered [OF assms]
  by (fastforce simp: vk_ldap_bind_and_group_rules_def vk_ldap_search_bind_and_group_rules_def
      when_ready_running [OF assms(1)])+

section \<open>Properties\<close>

text \<open>Before the scheduler is started and after it is stopped nothing reaches the directory or the
  context: the synchronous calls succeed without an effect and the requests of clients are refused
  as "scheduler not ready", which counts as an unavailable server.\<close>

theorem not_ready_is_inert:
  assumes "is_scheduler_ready (sched v) = Ok False"
  shows "vkldap_clear_server_list v = (Ok (), v) \<and> vkldap_reset_context v = (Ok (), v)
    \<and> vkldap_add_server others env url v = (Ok (), v)
    \<and> vkldap_refresh_ldap_settings ls v = (Ok (), v)
    \<and> vkldap_refresh_connection_settings others env cs v = (Ok (), v)
    \<and> vkldap_get_servers_health_status v = (Ok [], v)
    \<and> vk_ldap_bind_and_group_rules others env username password cb client v = (Err SchedulerNotReady, v)
    \<and> vk_ldap_search_bind_and_group_rules others env username password cb client v = (Err SchedulerNotReady, v)
    \<and> is_server_unavailable SchedulerNotReady"
  using assms
  by (simp add: vkldap_clear_server_list_def vkldap_reset_context_def vkldap_add_server_def
      vkldap_refresh_ldap_settings_def vkldap_refresh_connection_settings_def
      vkldap_get_servers_health_status_def vk_ldap_bind_and_group_rules_def
      vk_ldap_search_bind_and_group_rules_def when_ready_down is_server_unavailable_def)

definition demo_vk :: "(string, string, nat, (nat \<times> string list result) list) vk" where
  "demo_vk = \<lparr>sched = Scheduler_new, sys = demo_two, clients = []\<rparr>"

theorem not_ready_is_inert_witness:
  "vkldap_clear_server_list demo_vk = (Ok (), demo_vk)"
proof -
  have "is_scheduler_ready (sched demo_vk) = Ok False"
    by (simp add: demo_vk_def is_scheduler_ready_def Scheduler_new_def is_initialized_def)
  from not_ready_is_inert [OF this, of "\<lambda>s. s" demo_dir "[]" VkLdapSettings_default VkConnectionSettings_default]
  show ?thesis by blast
qed

text \<open>C24. With a running scheduler a request of a client is accepted at once, and when it is run the
  callback is called exactly once, with the client's own handle and the result of the request; but
  if the request panics or waits for ever the callback is never called, and the client hears
  nothing.\<close>

theorem request_calls_back:
  assumes "running (sched v)" and "state (sched v) = Some st" and "channel st = []"
    and "ldap_bind_and_group_rules others env username password (sys v) = Some (r, s')"
  shows "\<exists>v'. vk_ldap_bind_and_group_rules others env username password cb client v = (Ok (), v')
    \<and> sys v' = sys v \<and> clients v' = clients v \<and> sys (deliver v') = s'
    \<and> clients (deliver v') =
      (case r of
         Ok l \<Rightarrow> snd (cb (Some client) (Inr l) (clients v))
       | Err e \<Rightarrow> snd (cb (Some client) (Inl e) (clients v))
       | _ \<Rightarrow> clients v)"
  using tokens_delivered [OF assms(1-3), of "ldap_bind_and_group_rules others env username password" cb client] assms(4)
  by (auto simp: vk_ldap_bind_and_group_rules_def when_ready_running [OF assms(1)] answered_def split: outcome.splits)

theorem request_calls_back_witness:
  "\<exists>v'. vk_ldap_bind_and_group_rules (\<lambda>s. s) demo_dir ''bob'' ''pw'' (\<lambda>c r k. (Ok (), k @ [(the c, r)])) 5
      (demo_vk\<lparr>sched := initialize Scheduler_new\<rparr>) = (Ok (), v')
    \<and> clients (deliver v') = [(5, Inr [''+@read''])]"
proof -
  let ?v = "demo_vk\<lparr>sched := initialize Scheduler_new\<rparr>"
  obtain s' where "run_ldap_op_with_failover (\<lambda>s. s) (rules_op demo_dir VkLdapSettings_default
      (bind_op demo_dir VkLdapSettings_default ''bob'' ''pw'')) None demo_two = Some (Ok (), Some [''+@read''], s')"
    using demo_two_run [of "bind_op demo_dir VkLdapSettings_default ''bob'' ''pw''"] demo_dir_bind_op by blast
  then have "ldap_bind_and_group_rules (\<lambda>s. s) demo_dir ''bob'' ''pw'' (sys ?v) = Some (Ok [''+@read''], s')"
    by (simp add: ldap_bind_and_group_rules_def get_ldap_settings_def demo_two_simps demo_vk_def)
  moreover have "running (sched ?v)" "state (sched ?v) = Some \<lparr>channel = [], receiver = True\<rparr>"
    by (simp_all add: running_def initialize_def Scheduler_new_def)
  ultimately show ?thesis
    using request_calls_back [of ?v "\<lparr>channel = [], receiver = True\<rparr>" "\<lambda>s. s" demo_dir "''bob''" "''pw''"
        "Ok [''+@read'']" s' "\<lambda>c r k. (Ok (), k @ [(the c, r)])" 5]
    by (auto simp: demo_vk_def)
qed

end
