(* ===== verification/Configs.thy ===== *)
theory Configs
  imports Vkldap Failure_Detector
begin

text \<open>
  The configuration (\<open>src/src/configs.rs\<close>): the settings as the server stores them, the functions
  that read them, the snapshots handed to the LDAP side, and the callbacks that run when a setting
  changes.

  An integer setting is a signed 64-bit word, and the casts \<open>as usize\<close> and \<open>as u64\<close> keep its bits.
  The crates \<open>url\<close> and \<open>regex\<close> are parameters: \<open>url_parse\<close>, \<open>regex_new\<close> and \<open>is_match\<close>.  Logging is
  left out.
\<close>

section \<open>The settings\<close>

type_synonym i64 = "64 word"

record config =
  LDAP_SERVER_LIST :: string
  LDAP_BIND_DN_PREFIX :: string
  LDAP_BIND_DN_SUFFIX :: string
  LDAP_TLS_CA_CERT_PATH :: string
  LDAP_TLS_CERT_PATH :: string
  LDAP_TLS_KEY_PATH :: string
  LDAP_USE_STARTTLS :: bool
  LDAP_AUTH_MODE :: LdapAuthMode
  LDAP_SEARCH_BASE :: string
  LDAP_SEARCH_SCOPE :: LdapSearchScope
  LDAP_SEARCH_FILTER :: string
  LDAP_SEARCH_ATTRIBUTE :: string
  LDAP_SEARCH_BIND_DN :: string
  LDAP_SEARCH_BIND_PASSWD :: string
  LDAP_SEARCH_DN_ATTRIBUTE :: string
  LDAP_CONNECTION_POOL_SIZE :: i64
  LDAP_FAILURE_DETECTOR_INTERVAL :: i64
  LDAP_TIMEOUT_CONNECTION :: i64
  LDAP_TIMEOUT_LDAP_OPERATION :: i64
  LDAP_GROUPS_SEARCH_BASE :: string
  LDAP_GROUPS_FILTER :: string
  LDAP_GROUPS_MEMBER_ATTRIBUTE :: string
  LDAP_GROUPS_NAME_ATTRIBUTE :: string
  LDAP_GROUPS_RULES_ATTRIBUTE :: string
  LDAP_GROUP_TO_ACL_USER_MAP :: string
  LDAP_GROUP_TO_ACL_RULES_MAP :: string
  LDAP_DEFAULT_ACL_RULES :: string
  LDAP_EXEMPTED_USERS_REGEX :: string
  LDAP_ACL_FALLBACK_ENABLED :: bool

text \<open>The values before the server has set the registered defaults.\<close>

definition config_static :: config where
  "config_static = \<lparr>
     LDAP_SERVER_LIST = [],
     LDAP_BIND_DN_PREFIX = [],
     LDAP_BIND_DN_SUFFIX = [],
     LDAP_TLS_CA_CERT_PATH = [],
     LDAP_TLS_CERT_PATH = [],
     LDAP_TLS_KEY_PATH = [],
     LDAP_USE_STARTTLS = False,
     LDAP_AUTH_MODE = Bind,
     LDAP_SEARCH_BASE = [],
     LDAP_SEARCH_SCOPE = SubTree,
     LDAP_SEARCH_FILTER = [],
     LDAP_SEARCH_ATTRIBUTE = [],
     LDAP_SEARCH_BIND_DN = [],
     LDAP_SEARCH_BIND_PASSWD = [],
     LDAP_SEARCH_DN_ATTRIBUTE = [],
     LDAP_CONNECTION_POOL_SIZE = 2,
     LDAP_FAILURE_DETECTOR_INTERVAL = 1,
     LDAP_TIMEOUT_CONNECTION = 2,
     LDAP_TIMEOUT_LDAP_OPERATION = 2,
     LDAP_GROUPS_SEARCH_BASE = [],
     LDAP_GROUPS_FILTER = ''objectClass=groupOfNames'',
     LDAP_GROUPS_MEMBER_ATTRIBUTE = ''member'',
     LDAP_GROUPS_NAME_ATTRIBUTE = ''cn'',
     LDAP_GROUPS_RULES_ATTRIBUTE = ''valkeyACL'',
     LDAP_GROUP_TO_ACL_USER_MAP = [],
     LDAP_GROUP_TO_ACL_RULES_MAP = [],
     LDAP_DEFAULT_ACL_RULES = ''on resetpass'',
     LDAP_EXEMPTED_USERS_REGEX = [],
     LDAP_ACL_FALLBACK_ENABLED = False\<rparr>"

section \<open>Reading them\<close>

definition non_empty :: "string \<Rightarrow> string option" where
  "non_empty s = (if s = [] then None else Some s)"

definition get_bind_dn_prefix :: "config \<Rightarrow> string" where
  "get_bind_dn_prefix cfg = LDAP_BIND_DN_PREFIX cfg"

definition get_bind_dn_suffix :: "config \<Rightarrow> string" where
  "get_bind_dn_suffix cfg = LDAP_BIND_DN_SUFFIX cfg"

definition get_tls_ca_cert_path :: "config \<Rightarrow> string option" where
  "get_tls_ca_cert_path cfg = non_empty (LDAP_TLS_CA_CERT_PATH cfg)"

definition get_tls_cert_path :: "config \<Rightarrow> string option" where
  "get_tls_cert_path cfg = non_empty (LDAP_TLS_CERT_PATH cfg)"

definition get_tls_key_path :: "config \<Rightarrow> string option" where
  "get_tls_key_path cfg = non_empty (LDAP_TLS_KEY_PATH cfg)"

definition is_starttls_enabled :: "config \<Rightarrow> bool" where
  "is_starttls_enabled cfg = LDAP_USE_STARTTLS cfg"

definition is_auth_enabled :: "config \<Rightarrow> bool" where
  "is_auth_enabled cfg = (LDAP_SERVER_LIST cfg \<noteq> [])"

definition is_bind_mode :: "config \<Rightarrow> bool" where
  "is_bind_mode cfg = (LDAP_AUTH_MODE cfg = Bind)"

definition get_search_base :: "config \<Rightarrow> string option" where
  "get_search_base cfg = non_empty (LDAP_SEARCH_BASE cfg)"

definition get_search_scope :: "config \<Rightarrow> LdapSearchScope" where
  "get_search_scope cfg = LDAP_SEARCH_SCOPE cfg"

definition get_search_filter :: "config \<Rightarrow> string option" where
  "get_search_filter cfg = non_empty (LDAP_SEARCH_FILTER cfg)"

definition get_search_attribute :: "config \<Rightarrow> string option" where
  "get_search_attribute cfg = non_empty (LDAP_SEARCH_ATTRIBUTE cfg)"

definition get_search_bind_dn :: "config \<Rightarrow> string option" where
  "get_search_bind_dn cfg = non_empty (LDAP_SEARCH_BIND_DN cfg)"

definition get_search_bind_passwd :: "config \<Rightarrow> string option" where
  "get_search_bind_passwd cfg = non_empty (LDAP_SEARCH_BIND_PASSWD cfg)"

definition get_search_dn_attribute :: "config \<Rightarrow> string" where
  "get_search_dn_attribute cfg = LDAP_SEARCH_DN_ATTRIBUTE cfg"

definition get_groups_search_base :: "config \<Rightarrow> string option" where
  "get_groups_search_base cfg = 
     (if LDAP_GROUPS_SEARCH_BASE cfg = [] then get_search_base cfg else Some (LDAP_GROUPS_SEARCH_BASE cfg))"

definition get_groups_filter :: "config \<Rightarrow> string option" where
  "get_groups_filter cfg = non_empty (LDAP_GROUPS_FILTER cfg)"

definition get_groups_member_attribute :: "config \<Rightarrow> string" where
  "get_groups_member_attribute cfg = LDAP_GROUPS_MEMBER_ATTRIBUTE cfg"

definition get_groups_name_attribute :: "config \<Rightarrow> string" where
  "get_groups_name_attribute cfg = LDAP_GROUPS_NAME_ATTRIBUTE cfg"

definition get_groups_rules_attribute :: "config \<Rightarrow> string" where
  "get_groups_rules_attribute cfg = LDAP_GROUPS_RULES_ATTRIBUTE cfg"

definition get_default_acl_rules :: "config \<Rightarrow> string list" where
  "get_default_acl_rules cfg = 
     filter (\<lambda>t. t \<noteq> []) (map trim (split_whitespace (LDAP_DEFAULT_ACL_RULES cfg)))"

definition get_connection_pool_size :: "config \<Rightarrow> u64" where
  "get_connection_pool_size cfg = LDAP_CONNECTION_POOL_SIZE cfg"

definition get_failure_detector_interval_secs :: "config \<Rightarrow> u64" where
  "get_failure_detector_interval_secs cfg = LDAP_FAILURE_DETECTOR_INTERVAL cfg"

definition get_timeout_connection :: "config \<Rightarrow> duration" where
  "get_timeout_connection cfg = from_secs (LDAP_TIMEOUT_CONNECTION cfg)"

definition get_timeout_ldap_operation :: "config \<Rightarrow> duration" where
  "get_timeout_ldap_operation cfg = from_secs (LDAP_TIMEOUT_LDAP_OPERATION cfg)"

definition get_exempted_users_regex_pattern :: "config \<Rightarrow> string" where
  "get_exempted_users_regex_pattern cfg = LDAP_EXEMPTED_USERS_REGEX cfg"

definition is_acl_fallback_enabled :: "config \<Rightarrow> bool" where
  "is_acl_fallback_enabled cfg = LDAP_ACL_FALLBACK_ENABLED cfg"

section \<open>Snapshots for the LDAP side\<close>

definition ldap_settings_of :: "config \<Rightarrow> VkLdapSettings" where
  "ldap_settings_of cfg =
     VkLdapSettings_new (get_bind_dn_prefix cfg) (get_bind_dn_suffix cfg) (get_search_base cfg)
       (get_search_scope cfg) (get_search_filter cfg) (get_search_attribute cfg)
       (get_search_bind_dn cfg) (get_search_bind_passwd cfg) (get_search_dn_attribute cfg)
       (get_timeout_ldap_operation cfg) (get_groups_search_base cfg) (get_groups_filter cfg)
       (get_groups_member_attribute cfg) (get_groups_name_attribute cfg)
       (get_groups_rules_attribute cfg)"

definition connection_settings_of :: "config \<Rightarrow> VkConnectionSettings" where
  "connection_settings_of cfg =
     VkConnectionSettings_new (is_starttls_enabled cfg) (get_tls_ca_cert_path cfg)
       (get_tls_cert_path cfg) (get_tls_key_path cfg) (get_connection_pool_size cfg)
       (get_timeout_connection cfg)"

definition refresh_ldap_settings_cache ::
  "config \<Rightarrow> ('u, 'c, 'w, 'k) vk \<Rightarrow> (VkLdapError, unit) outcome \<times> ('u, 'c, 'w, 'k) vk"
where
  "refresh_ldap_settings_cache cfg v = vkldap_refresh_ldap_settings (ldap_settings_of cfg) v"

definition refresh_ldap_settings_cache_blocking ::
  "bool \<Rightarrow> config \<Rightarrow> ('u, 'c, 'w, 'k) vk \<Rightarrow> ('u, 'c, 'w, 'k) vk"
where
  "refresh_ldap_settings_cache_blocking locked cfg v =
     vkldap_refresh_ldap_settings_blocking locked (ldap_settings_of cfg) v"

definition refresh_connection_settings_cache ::
  "('u, 'c, 'w) interference \<Rightarrow> ('u, 'c, 'w) ldap_env \<Rightarrow> config \<Rightarrow> ('u, 'c, 'w, 'k) vk
   \<Rightarrow> (VkLdapError, unit) outcome \<times> ('u, 'c, 'w, 'k) vk"
where
  "refresh_connection_settings_cache others env cfg v =
     vkldap_refresh_connection_settings others env (connection_settings_of cfg) v"

definition refresh_connection_settings_cache_blocking ::
  "bool \<Rightarrow> config \<Rightarrow> ('u, 'c, 'w, 'k) vk \<Rightarrow> ('u, 'c, 'w, 'k) vk"
where
  "refresh_connection_settings_cache_blocking locked cfg v =
     vkldap_refresh_connection_settings_blocking locked (connection_settings_of cfg) v"

section \<open>The list of servers\<close>

text \<open>An error of the LDAP side is logged, and the server gets a fixed text.\<close>

fun replace_error :: "ValkeyError \<Rightarrow> (VkLdapError, 'a) outcome \<times> 's \<Rightarrow> (ValkeyError, 'a) outcome \<times> 's" where
  "replace_error e (Ok a, s) = (Ok a, s)"
| "replace_error e (Err err, s) = (Err e, s)"
| "replace_error e (Panic, s) = (Panic, s)"
| "replace_error e (Stuck, s) = (Stuck, s)"

definition servers_error :: ValkeyError where
  "servers_error = ValkeyStr ''Failed to set the LDAP servers. Check the logs for more details.''"

fun parse_urls :: "(string \<Rightarrow> string + 'u) \<Rightarrow> string list \<Rightarrow> 'u list \<Rightarrow> ValkeyError + 'u list" where
  "parse_urls url_parse [] url_list = Inr url_list"
| "parse_urls url_parse (url_str # urls) url_list =
     (case url_parse url_str of
        Inr url \<Rightarrow> parse_urls url_parse urls (url_list @ [url])
      | Inl e \<Rightarrow> Inl (ValkeyString e))"

fun add_servers ::
  "('u, 'c, 'w) interference \<Rightarrow> ('u, 'c, 'w) ldap_env \<Rightarrow> 'u list \<Rightarrow> ('u, 'c, 'w, 'k) vk
   \<Rightarrow> (ValkeyError, unit) outcome \<times> ('u, 'c, 'w, 'k) vk"
where
  "add_servers others env [] v = (Ok (), v)"
| "add_servers others env (url # urls) v =
     and_then (replace_error servers_error (vkldap_add_server others env url v))
       (\<lambda>_ v. add_servers others env urls v)"

definition process_server_list ::
  "('u, 'c, 'w) interference \<Rightarrow> ('u, 'c, 'w) ldap_env \<Rightarrow> (string \<Rightarrow> string + 'u) \<Rightarrow> string
   \<Rightarrow> ('u, 'c, 'w, 'k) vk \<Rightarrow> (ValkeyError, unit) outcome \<times> ('u, 'c, 'w, 'k) vk"
where
  "process_server_list others env url_parse server_list v =
     (if server_list = [] then replace_error servers_error (vkldap_clear_server_list v)
      else (case parse_urls url_parse (split_on (CHR '' '') server_list) [] of
              Inl e \<Rightarrow> (Err e, v)
            | Inr url_list \<Rightarrow>
                and_then (replace_error servers_error (vkldap_clear_server_list v))
                  (\<lambda>_ v. add_servers others env url_list v)))"

section \<open>The exempted users\<close>

record 're regex_cache =
  regex :: "'re option"
  regex_poisoned :: bool

definition EXEMPTED_USERS_REGEX_CACHE :: "'re regex_cache" where
  "EXEMPTED_USERS_REGEX_CACHE = \<lparr>regex = None, regex_poisoned = False\<rparr>"

definition is_user_exempted_from_ldap ::
  "('re \<Rightarrow> string \<Rightarrow> bool) \<Rightarrow> 're regex_cache \<Rightarrow> string \<Rightarrow> bool"
where
  "is_user_exempted_from_ldap is_match cache username =
     (if regex_poisoned cache then False
      else (case regex cache of Some re \<Rightarrow> is_match re username | None \<Rightarrow> False))"

text \<open>Writing recovers the value of a poisoned mutex, which stays poisoned.\<close>

definition exempted_users_regex_set_callback ::
  "(string \<Rightarrow> string + 're) \<Rightarrow> string \<Rightarrow> 're regex_cache \<Rightarrow> (ValkeyError + unit) \<times> 're regex_cache"
where
  "exempted_users_regex_set_callback regex_new pattern_str cache =
     (if pattern_str = [] then (Inr (), cache\<lparr>regex := None\<rparr>)
      else (case regex_new pattern_str of
              Inr re \<Rightarrow> (Inr (), cache\<lparr>regex := Some re\<rparr>)
            | Inl err \<Rightarrow> (Inl (ValkeyString (''Invalid regex pattern: '' @ err)), cache)))"

section \<open>The callbacks of the server\<close>

definition on_ldap_setting_change ::
  "config \<Rightarrow> ('u, 'c, 'w, 'k) vk \<Rightarrow> (VkLdapError, unit) outcome \<times> ('u, 'c, 'w, 'k) vk"
where
  "on_ldap_setting_change cfg v = refresh_ldap_settings_cache cfg v"

definition on_connection_setting_change ::
  "('u, 'c, 'w) interference \<Rightarrow> ('u, 'c, 'w) ldap_env \<Rightarrow> config \<Rightarrow> ('u, 'c, 'w, 'k) vk
   \<Rightarrow> (VkLdapError, unit) outcome \<times> ('u, 'c, 'w, 'k) vk"
where
  "on_connection_setting_change others env cfg v = refresh_connection_settings_cache others env cfg v"

definition failure_detector_interval_changed :: "config \<Rightarrow> FailureDetector \<Rightarrow> FailureDetector" where
  "failure_detector_interval_changed cfg fd =
     set_failure_detector_interval (get_failure_detector_interval_secs cfg) fd"

definition ldap_server_list_set_callback ::
  "('u, 'c, 'w) interference \<Rightarrow> ('u, 'c, 'w) ldap_env \<Rightarrow> (string \<Rightarrow> string + 'u) \<Rightarrow> config
   \<Rightarrow> ('u, 'c, 'w, 'k) vk \<Rightarrow> (ValkeyError, unit) outcome \<times> ('u, 'c, 'w, 'k) vk"
where
  "ldap_server_list_set_callback others env url_parse cfg v =
     process_server_list others env url_parse (LDAP_SERVER_LIST cfg) v"

section \<open>Lemmas\<close>

lemma parse_urls_Inr:
  "parse_urls url_parse us acc = Inr l \<longleftrightarrow>
    (\<exists>urls. l = acc @ urls \<and> list_all2 (\<lambda>s u. url_parse s = Inr u) us urls)"
  by (induction url_parse us acc rule: parse_urls.induct)
    (auto simp: list_all2_Cons1 split: sum.splits)

lemma parse_urls_Inl:
  "s \<in> set us \<Longrightarrow> url_parse s = Inl e \<Longrightarrow> \<exists>e'. parse_urls url_parse us acc = Inl e'"
  by (induction url_parse us acc rule: parse_urls.induct) (auto split: sum.splits)

lemma clear_running:
  "running (sched v) \<Longrightarrow> vkldap_clear_server_list v = (Ok (), v\<lparr>sys := clear_server_list (sys v)\<rparr>)"
  by (simp add: vkldap_clear_server_list_def when_ready_running submit_running)

lemma add_running:
  "running (sched v) \<Longrightarrow> vkldap_add_server others env url v = (Ok (), v\<lparr>sys := add_server others env url (sys v)\<rparr>)"
  by (simp add: vkldap_add_server_def when_ready_running submit_running)

lemma add_servers_running:
  assumes "running (sched v)" "ctx_ok (sys v)" "keeps_servers others"
  shows "\<exists>v'. add_servers others env urls v = (Ok (), v') \<and> ctx_ok (sys v') \<and> sched v' = sched v
    \<and> map srv_url (servers (ctx (sys v'))) = map srv_url (servers (ctx (sys v))) @ urls"
  using assms(1,2)
proof (induction urls arbitrary: v)
  case (Cons url urls)
  let ?v = "v\<lparr>sys := add_server others env url (sys v)\<rparr>"
  have "running (sched ?v)" "ctx_ok (sys ?v)"
    "map srv_url (servers (ctx (sys ?v))) = map srv_url (servers (ctx (sys v))) @ [url]"
    using Cons.prems add_server_ok [OF Cons.prems(2) assms(3), of env url] by simp_all
  with Cons.IH [of ?v] Cons.prems(1) show ?case by (auto simp: add_running)
qed simp

lemma add_servers_settings:
  assumes "keeps_settings others"
  shows "running (sched v) \<Longrightarrow>
    ldap_settings (ctx (sys (snd (add_servers others env urls v)))) = ldap_settings (ctx (sys v))
    \<and> connection_settings (ctx (sys (snd (add_servers others env urls v)))) = connection_settings (ctx (sys v))"
proof (induction urls arbitrary: v)
  case (Cons url urls)
  from Cons.IH [of "v\<lparr>sys := add_server others env url (sys v)\<rparr>"] Cons.prems show ?case
    by (simp add: add_running add_server_settings [OF assms])
qed simp

lemma unat_sint:
  assumes "0 \<le> sint (x :: 64 word)"
  shows "unat x = nat (sint x)"
proof -
  have "sint x < 2 ^ 64" using sint_lt [of x] by simp
  with assms have "take_bit LENGTH(64) (sint x) = sint x" by (intro take_bit_int_eq_self) simp_all
  then have "uint x = sint x" by (simp only: uint_sint)
  then show ?thesis by (simp only: unat_eq_nat_uint)
qed

section \<open>Properties\<close>

text \<open>C17. A list of servers with a URL that does not parse is refused as a whole: the error is
  returned, and the servers, their pools and everything else stay as they were.\<close>

theorem server_list_rejected:
  assumes "url_str \<in> set (split_on (CHR '' '') server_list)" and "url_parse url_str = Inl e"
    and "server_list \<noteq> []"
  shows "\<exists>err. process_server_list others env url_parse server_list v = (Err err, v)"
  using parse_urls_Inl [of url_str "split_on (CHR '' '') server_list" url_parse e "[]"] assms
  by (auto simp: process_server_list_def)

theorem server_list_rejected_witness:
  "\<exists>err. process_server_list (\<lambda>s. s) demo_dir (\<lambda>s. if s = [] then Inl ''empty'' else Inr s) ''ldap://a  ldap://b'' demo_vk
    = (Err err, demo_vk)"
proof -
  have "list_ex (\<lambda>u. u = []) (split_on (CHR '' '') ''ldap://a  ldap://b'')" by code_simp
  then have "[] \<in> set (split_on (CHR '' '') ''ldap://a  ldap://b'')" by (auto simp: list_ex_iff)
  then show ?thesis by (rule server_list_rejected) simp_all
qed

text \<open>C16. A list in which every URL parses replaces the servers: afterwards the list holds exactly those
  URLs, in the order written, and the context is well-formed, whatever other tasks do to the pools
  and states of the servers meanwhile.\<close>

theorem server_list_replaced:
  assumes "running (sched v)" and "keeps_servers others" and "server_list \<noteq> []"
    and "list_all2 (\<lambda>s u. url_parse s = Inr u) (split_on (CHR '' '') server_list) urls"
  shows "\<exists>v'. process_server_list others env url_parse server_list v = (Ok (), v')
    \<and> map srv_url (servers (ctx (sys v'))) = urls \<and> ctx_ok (sys v') \<and> sched v' = sched v"
proof -
  let ?v = "v\<lparr>sys := clear_server_list (sys v)\<rparr>"
  have "parse_urls url_parse (split_on (CHR '' '') server_list) [] = Inr urls"
    using assms(4) by (simp add: parse_urls_Inr)
  moreover obtain v' where "add_servers others env urls ?v = (Ok (), v')" "ctx_ok (sys v')"
    "sched v' = sched v" "map srv_url (servers (ctx (sys v'))) = urls"
    using add_servers_running [of ?v others env urls] assms(1,2) by auto
  ultimately show ?thesis
    using assms(1,3) by (simp add: process_server_list_def clear_running)
qed

theorem server_list_replaced_witness:
  "\<exists>v'. process_server_list (\<lambda>s. s) demo_dir Inr ''ldap://a ldap://b'' (demo_vk\<lparr>sched := initialize Scheduler_new\<rparr>) = (Ok (), v')
    \<and> map srv_url (servers (ctx (sys v'))) = [''ldap://a'', ''ldap://b'']"
proof -
  have "split_on (CHR '' '') ''ldap://a ldap://b'' = [''ldap://a'', ''ldap://b'']" by code_simp
  then have "list_all2 (\<lambda>s u. (Inr s :: string + string) = Inr u) (split_on (CHR '' '') ''ldap://a ldap://b'')
      [''ldap://a'', ''ldap://b'']" by simp
  moreover have "running (sched (demo_vk\<lparr>sched := initialize Scheduler_new\<rparr>))"
    by (simp add: running_def initialize_def Scheduler_new_def)
  ultimately show ?thesis
    using server_list_replaced [of "demo_vk\<lparr>sched := initialize Scheduler_new\<rparr>" "\<lambda>s. s" "''ldap://a ldap://b''"
        Inr "[''ldap://a'', ''ldap://b'']" demo_dir] by auto
qed

text \<open>A change of a setting reaches the tasks: with a running scheduler the next request uses the
  settings built from the configuration, and a change before the scheduler runs is lost there but
  picked up by the blocking refresh at the start, unless another task holds the context's lock.\<close>

theorem settings_reach_context:
  "(running (sched v) \<longrightarrow> (\<exists>v'. on_ldap_setting_change cfg v = (Ok (), v')
      \<and> get_ldap_settings (ctx (sys v')) = ldap_settings_of cfg \<and> servers (ctx (sys v')) = servers (ctx (sys v))))
   \<and> (is_scheduler_ready (sched v) = Ok False \<longrightarrow> on_ldap_setting_change cfg v = (Ok (), v))
   \<and> get_ldap_settings (ctx (sys (refresh_ldap_settings_cache_blocking locked cfg v))) =
      (if locked then get_ldap_settings (ctx (sys v)) else ldap_settings_of cfg)"
  by (simp add: on_ldap_setting_change_def refresh_ldap_settings_cache_def vkldap_refresh_ldap_settings_def
      when_ready_running when_ready_down submit_running refresh_ldap_settings_def
      VkLdapContext_refresh_ldap_settings_def get_ldap_settings_def
      refresh_ldap_settings_cache_blocking_def vkldap_refresh_ldap_settings_blocking_def
      refresh_ldap_settings_blocking_def)

theorem settings_reach_context_witness:
  "\<exists>v'. on_ldap_setting_change config_static (demo_vk\<lparr>sched := initialize Scheduler_new\<rparr>) = (Ok (), v')
    \<and> get_ldap_settings (ctx (sys v')) = ldap_settings_of config_static"
proof -
  have "running (sched (demo_vk\<lparr>sched := initialize Scheduler_new\<rparr>))"
    by (simp add: running_def initialize_def Scheduler_new_def)
  with settings_reach_context show ?thesis by blast
qed

text \<open>C37. Within the ranges the module registers the casts of the integer settings lose nothing: the
  pool size, the interval and the two timeouts are the numbers configured, and a pool always has at
  least one connection.\<close>

theorem integer_settings_exact:
  assumes "1 \<le> sint (LDAP_CONNECTION_POOL_SIZE cfg)" and "sint (LDAP_CONNECTION_POOL_SIZE cfg) \<le> 8192"
    and "0 \<le> sint (LDAP_FAILURE_DETECTOR_INTERVAL cfg)" and "0 \<le> sint (LDAP_TIMEOUT_CONNECTION cfg)"
    and "0 \<le> sint (LDAP_TIMEOUT_LDAP_OPERATION cfg)"
  shows "int (unat (connection_pool_size (connection_settings_of cfg))) = sint (LDAP_CONNECTION_POOL_SIZE cfg)
    \<and> 0 < unat (connection_pool_size (connection_settings_of cfg))
    \<and> int (unat (fd_interval (failure_detector_interval_changed cfg fd))) = sint (LDAP_FAILURE_DETECTOR_INTERVAL cfg)
    \<and> int (timeout_connection (connection_settings_of cfg)) = sint (LDAP_TIMEOUT_CONNECTION cfg) * 1000000000
    \<and> int (timeout_ldap_operation (ldap_settings_of cfg)) = sint (LDAP_TIMEOUT_LDAP_OPERATION cfg) * 1000000000"
proof -
  have "unat (LDAP_CONNECTION_POOL_SIZE cfg) = nat (sint (LDAP_CONNECTION_POOL_SIZE cfg))"
    using assms(1) by (intro unat_sint) simp
  with assms(1) unat_sint [OF assms(3)] unat_sint [OF assms(4)] unat_sint [OF assms(5)] assms(3-5)
  show ?thesis
    by (simp add: connection_settings_of_def VkConnectionSettings_new_def ldap_settings_of_def
        VkLdapSettings_new_def get_connection_pool_size_def failure_detector_interval_changed_def
        set_failure_detector_interval_def get_failure_detector_interval_secs_def from_secs_def
        get_timeout_connection_def get_timeout_ldap_operation_def)
qed

theorem integer_settings_exact_witness:
  "int (timeout_connection (connection_settings_of config_static)) = 2000000000"
proof -
  have "sint (LDAP_CONNECTION_POOL_SIZE config_static) = 2" "sint (LDAP_FAILURE_DETECTOR_INTERVAL config_static) = 1"
    "sint (LDAP_TIMEOUT_CONNECTION config_static) = 2" "sint (LDAP_TIMEOUT_LDAP_OPERATION config_static) = 2"
    by (simp_all add: config_static_def)
  with integer_settings_exact [of config_static FailureDetector_new] show ?thesis by simp
qed

text \<open>The set of exempted users is the one of the last pattern accepted: a pattern that does not
  compile changes nothing, an empty one exempts nobody, and as long as the cache is not poisoned a
  user is exempted exactly when the compiled pattern matches; a poisoned cache exempts nobody, and
  setting a new pattern does not cure it.\<close>

theorem exempted_users:
  "(case exempted_users_regex_set_callback regex_new pattern cache of (r, cache') \<Rightarrow>
      (case r of
         Inl _ \<Rightarrow> cache' = cache \<and> pattern \<noteq> []
       | Inr _ \<Rightarrow> is_user_exempted_from_ldap is_match cache' u =
           (\<not> regex_poisoned cache \<and> pattern \<noteq> []
            \<and> (\<exists>re. regex_new pattern = Inr re \<and> is_match re u))))"
  by (auto simp: exempted_users_regex_set_callback_def is_user_exempted_from_ldap_def split: sum.splits)

end
