(* ===== verification/Auth.thy ===== *)
theory Auth
  imports Configs Logging
begin

text \<open>
  The authentication of clients (\<open>src/src/auth.rs\<close>): the callback of the \<open>AUTH\<close> command, which
  submits a request to the LDAP side and blocks the client, and the callback that replies when the
  result is there.

  The server is the parameter \<open>venv\<close>: the \<open>ACL\<close> command, the authentication of a client as an ACL
  user, and blocked clients with the private data set for them.  A client is a number.  Logging is
  part of the model here, as texts with user names in them are logged.
\<close>

datatype auth_status = AUTH_HANDLED | AUTH_NOT_HANDLED

record ('v, 'k) valkey_env =
  acl_call :: "string list \<Rightarrow> 'v \<Rightarrow> (string + string) \<times> 'v"
  authenticate_client_with_acl_user :: "string \<Rightarrow> 'v \<Rightarrow> bool \<times> 'v"
  block_client_on_auth :: "'k \<Rightarrow> nat \<times> 'k"
  set_blocked_private_data :: "nat \<Rightarrow> string list result \<Rightarrow> 'k \<Rightarrow> (string + unit) \<times> 'k"

record 'v host =
  acl :: 'v
  host_logger :: logger
  host_log :: log_server

type_synonym 'a reply = "(ValkeyError, 'a) outcome"

text \<open>
  A log call hands the record to the logger.  The filter of the \<open>log\<close> crate before it (a logger is
  installed, its level allows the record) is left out: by \<open>logger_log_filtered\<close> the logger does
  nothing with a record that the filter stops, in every state it can get to (\<open>log_ready_always\<close>).
\<close>

definition write_log :: "Level \<Rightarrow> nat \<Rightarrow> string \<Rightarrow> 'v host \<Rightarrow> unit reply \<times> 'v host" where
  "write_log level line msg h =
     (let (r, lg, srv) = logger_log (host_logger h)
            \<lparr>rec_level = level, rec_module = Some ''valkey_ldap::auth'', rec_file = Some ''src/auth.rs'',
             rec_line = Some line, rec_args = msg\<rparr> (host_log h)
      in (if r = Ok () then Ok () else Panic, h\<lparr>host_logger := lg, host_log := srv\<rparr>))"

abbreviation debug :: "nat \<Rightarrow> string \<Rightarrow> 'v host \<Rightarrow> unit reply \<times> 'v host" where
  "debug \<equiv> write_log LevelDebug"

abbreviation error :: "nat \<Rightarrow> string \<Rightarrow> 'v host \<Rightarrow> unit reply \<times> 'v host" where
  "error \<equiv> write_log LevelError"

section \<open>The reply\<close>

definition acl_rule_tokens :: "config \<Rightarrow> string \<Rightarrow> string list \<Rightarrow> string list" where
  "acl_rule_tokens cfg password ldap_tokens =
     [''resetkeys'', ''resetchannels'', ''-@all''] @ get_default_acl_rules cfg @ ldap_tokens @
     (if is_acl_fallback_enabled cfg then [''resetpass'', ''>'' @ password] else [])"

definition apply_ldap_user_acl ::
  "('v, 'k) valkey_env \<Rightarrow> config \<Rightarrow> string \<Rightarrow> string \<Rightarrow> string list \<Rightarrow> 'v host
   \<Rightarrow> auth_status reply \<times> 'v host"
where
  "apply_ldap_user_acl venv cfg username password ldap_tokens h =
     (let args = [''SETUSER'', username] @ acl_rule_tokens cfg password ldap_tokens;
          (r, v) = acl_call venv args (acl h);
          h = h\<lparr>acl := v\<rparr>
      in (case r of
            Inl e \<Rightarrow>
              and_then (error 45 (''failed to set ACL for user '' @ username @ '': '' @ e) h)
                (\<lambda>_ h. (Err (ValkeyStr ''Failed to apply ACL rules''), h))
          | Inr _ \<Rightarrow>
              (let (ok, v) = authenticate_client_with_acl_user venv username (acl h);
                   h = h\<lparr>acl := v\<rparr>
               in if ok then
                    and_then (debug 51 (''successfully authenticated LDAP user '' @ username) h)
                      (\<lambda>_ h. (Ok AUTH_HANDLED, h))
                  else (Err (ValkeyStr ''Failed to authenticate with ACL''), h))))"

definition handle_user_not_found ::
  "('v, 'k) valkey_env \<Rightarrow> ('re \<Rightarrow> string \<Rightarrow> bool) \<Rightarrow> 're regex_cache \<Rightarrow> string \<Rightarrow> 'v host
   \<Rightarrow> auth_status reply \<times> 'v host"
where
  "handle_user_not_found venv is_match cache username h =
     (if is_user_exempted_from_ldap is_match cache username
      then (Err (ValkeyStr ''User not found in LDAP''), h)
      else and_then (debug 64 (''user '' @ username @ '' not found in LDAP, deleting from ACL'') h) (\<lambda>_ h.
        let (r, v) = acl_call venv [''DELUSER'', username] (acl h);
            h = h\<lparr>acl := v\<rparr>
        in and_then
             (case r of
                Inr _ \<Rightarrow> debug 66 (''successfully deleted user '' @ username @ '' from ACL'') h
              | Inl e \<Rightarrow> debug 67 (''could not delete user '' @ username @ '' from ACL: '' @ e) h)
             (\<lambda>_ h. (Err (ValkeyStr ''User not found in LDAP''), h))))"

definition handle_server_unavailable ::
  "config \<Rightarrow> string \<Rightarrow> 'v host \<Rightarrow> auth_status reply \<times> 'v host"
where
  "handle_server_unavailable cfg username h =
     (if is_acl_fallback_enabled cfg then
        and_then (debug 76
            (''LDAP server unavailable, falling back to ACL authentication for user '' @ username) h)
          (\<lambda>_ h. (Ok AUTH_NOT_HANDLED, h))
      else
        and_then (debug 79
            (''LDAP server unavailable and fallback disabled, rejecting authentication for user '' @ username) h)
          (\<lambda>_ h. (Err (ValkeyStr ''LDAP server unavailable''), h)))"

definition handle_credential_rejection ::
  "('v, 'k) valkey_env \<Rightarrow> string \<Rightarrow> 'v host \<Rightarrow> auth_status reply \<times> 'v host"
where
  "handle_credential_rejection venv username h =
     and_then (error 96 (''LDAP rejected credentials for user '' @ username @
         '', attempting to delete from ACL'') h) (\<lambda>_ h.
     let (r, v) = acl_call venv [''DELUSER'', username] (acl h);
         h = h\<lparr>acl := v\<rparr>
     in and_then
          (case r of
             Inr result \<Rightarrow>
               and_then (debug 99 (''ACL DELUSER returned: '' @ result) h)
                 (\<lambda>_ h. debug 100 (''successfully deleted user '' @ username @ '' from ACL'') h)
           | Inl e \<Rightarrow> error 103 (''ACL DELUSER failed for user '' @ username @ '': '' @ e) h)
          (\<lambda>_ h. (Err (ValkeyStr ''LDAP authentication failed''), h)))"

definition auth_reply_callback ::
  "('v, 'k) valkey_env \<Rightarrow> ('re \<Rightarrow> string \<Rightarrow> bool) \<Rightarrow> config \<Rightarrow> 're regex_cache \<Rightarrow> string \<Rightarrow> string
   \<Rightarrow> string list result option \<Rightarrow> 'v host \<Rightarrow> auth_status reply \<times> 'v host"
where
  "auth_reply_callback venv is_match cfg cache username password priv_data h =
     (case priv_data of
        Some (Inr ldap_tokens) \<Rightarrow> apply_ldap_user_acl venv cfg username password ldap_tokens h
      | Some (Inl err) \<Rightarrow>
          and_then (debug 124 (''failed to authenticate LDAP user '' @ username) h) (\<lambda>_ h.
          and_then (error 125 (''LDAP authentication failure: '' @ VkLdapError_fmt err) h) (\<lambda>_ h.
            if is_user_not_found err then handle_user_not_found venv is_match cache username h
            else if is_server_unavailable err then handle_server_unavailable cfg username h
            else handle_credential_rejection venv username h))
      | None \<Rightarrow> (Err (ValkeyStr ''Unknown error during authentication, check the server logs''), h))"

section \<open>The request\<close>

text \<open>The callback given to the scheduler; an error of the server when the result is set is only
  logged.\<close>

definition auth_result_callback :: "('v, 'k) valkey_env \<Rightarrow> 'k tokens_callback" where
  "auth_result_callback venv blocked_client result k =
     (case blocked_client of
        None \<Rightarrow> (Panic, k)
      | Some c \<Rightarrow> (Ok (), snd (set_blocked_private_data venv c result k)))"

definition ldap_auth_blocking_callback ::
  "('v, 'k) valkey_env \<Rightarrow> ('re \<Rightarrow> string \<Rightarrow> bool) \<Rightarrow> ('u, 'c, 'w) interference \<Rightarrow> ('u, 'c, 'w) ldap_env
   \<Rightarrow> config \<Rightarrow> 're regex_cache \<Rightarrow> string \<Rightarrow> string \<Rightarrow> 'v host \<times> ('u, 'c, 'w, 'k) vk
   \<Rightarrow> auth_status reply \<times> 'v host \<times> ('u, 'c, 'w, 'k) vk"
where
  "ldap_auth_blocking_callback venv is_match others env cfg cache username password = (\<lambda>(h, v).
     if \<not> is_auth_enabled cfg then (Ok AUTH_NOT_HANDLED, h, v)
     else if is_user_exempted_from_ldap is_match cache username then
       (let (r, h) = and_then (debug 158 (''user '' @ username @ '' is exempted from LDAP authentication'') h)
              (\<lambda>_ h. (Ok AUTH_NOT_HANDLED, h))
        in (r, h, v))
     else
       (case debug 162 (''starting authentication for user='' @ username) h of
          (Ok _, h) \<Rightarrow>
            (let use_bind_mode = is_bind_mode cfg;
                 (blocked_client, k) = block_client_on_auth venv (clients v);
                 v = v\<lparr>clients := k\<rparr>;
                 (res, v) =
                   (if use_bind_mode then
                      vk_ldap_bind_and_group_rules others env username password
                        (auth_result_callback venv) blocked_client v
                    else
                      vk_ldap_search_bind_and_group_rules others env username password
                        (auth_result_callback venv) blocked_client v)
             in (case res of
                   Ok _ \<Rightarrow> (Ok AUTH_HANDLED, h, v)
                 | Err err \<Rightarrow>
                     (let (r, h) = and_then (error 188 (''failed to submit ldap bind request: '' @ VkLdapError_fmt err) h)
                            (\<lambda>_ h. (Ok AUTH_NOT_HANDLED, h))
                      in (r, h, v))
                 | Panic \<Rightarrow> (Panic, h, v)
                 | Stuck \<Rightarrow> (Stuck, h, v)))
        | (_, h) \<Rightarrow> (Panic, h, v)))"

section \<open>Lemmas on logging\<close>

definition log_ok :: "'v host \<Rightarrow> bool" where
  "log_ok h \<longleftrightarrow> \<not> log_poisoned (host_logger h)
     \<and> (\<forall>c. log_context (host_logger h) = Some c \<longrightarrow> c \<in> set (live (host_log h)))"

lemma write_log_acl: "acl (snd (write_log level line msg h)) = acl h"
  by (simp add: write_log_def split_def Let_def)

lemma write_log_acl' [dest]: "write_log level line msg h = (r, h') \<Longrightarrow> acl h' = acl h"
  using write_log_acl [of level line msg h] by simp

lemma write_log_result: "write_log level line msg h = (r, h') \<Longrightarrow> r = Ok () \<or> r = Panic"
  by (auto simp: write_log_def Let_def split: prod.splits if_splits)

lemma place_no_nul: "nul \<notin> set ''valkey_ldap::auth''" "nul \<notin> set ''src/auth.rs''" "nul \<notin> set (show_nat n)"
  "nul \<notin> set ''Unknown''"
  by (code_simp, code_simp, rule show_nat_no_nul, code_simp)

lemma write_log_ok:
  assumes "log_ok h" and "nul \<notin> set msg"
  shows "\<exists>h'. write_log level line msg h = (Ok (), h') \<and> log_ok h' \<and> acl h' = acl h"
proof -
  let ?r = "\<lparr>rec_level = level, rec_module = Some ''valkey_ldap::auth'', rec_file = Some ''src/auth.rs'',
    rec_line = Some line, rec_args = msg\<rparr>"
  have "nul \<notin> set (log_message ?r)"
    using assms(2) place_no_nul by (cases level) (auto simp: log_message_def verbose_message_def)
  then have cs: "CString_new (log_message ?r) = Some (log_message ?r)"
    "CString_new (ValkeyLogLevel_as_ref l) = Some (ValkeyLogLevel_as_ref l)" for l
    using level_name_no_nul by (simp_all add: CString_new_def)
  show ?thesis
  proof (cases "log_context (host_logger h)")
    case None
    with assms(1) show ?thesis by (simp add: write_log_def logger_log_def log_ok_def)
  next
    case (Some c)
    with assms(1) cs show ?thesis by (simp add: write_log_def logger_log_def log_ok_def log_internal_def Let_def)
  qed
qed

lemma and_then_log:
  assumes "log_ok h" and "nul \<notin> set msg"
  obtains h' where "and_then (write_log level line msg h) k = k () h'" "log_ok h'" "acl h' = acl h"
  using write_log_ok [OF assms, of level line] by auto

lemma unavailable_text: "is_server_unavailable err \<Longrightarrow> nul \<notin> set (VkLdapError_fmt err)"
  by (cases err) (auto simp: is_server_unavailable_def VkLdapError_fmt_def)

lemma log_ok_acl [simp]: "log_ok (h\<lparr>acl := v\<rparr>) = log_ok h"
  by (simp add: log_ok_def)

lemma apply_ldap_user_acl_Ok:
  assumes "log_ok h" and "nul \<notin> set username"
    and "acl_call venv (''SETUSER'' # username # acl_rule_tokens cfg password tokens) (acl h) = (Inr answer, v)"
    and "authenticate_client_with_acl_user venv username v = (True, v')"
  shows "\<exists>h'. apply_ldap_user_acl venv cfg username password tokens h = (Ok AUTH_HANDLED, h') \<and> acl h' = v'"
  using write_log_ok [of "h\<lparr>acl := v'\<rparr>" "''successfully authenticated LDAP user '' @ username" LevelDebug 51] assms
  by (auto simp: apply_ldap_user_acl_def Let_def)

section \<open>A server for the witnesses\<close>

text \<open>The users with their rules, and the results set for blocked clients.\<close>

definition demo_venv :: "((string \<times> string list) list, (nat \<times> string list result) list) valkey_env" where
  "demo_venv =
   \<lparr>acl_call = (\<lambda>args v. (case args of
        op # user # rules \<Rightarrow>
          if op = ''SETUSER'' then (Inr ''OK'', (user, rules) # filter (\<lambda>(u, _). u \<noteq> user) v)
          else (Inr ''1'', filter (\<lambda>(u, _). u \<noteq> user) v)
      | _ \<Rightarrow> (Inl ''wrong number of arguments'', v))),
    authenticate_client_with_acl_user = (\<lambda>user v. (user \<in> fst ` set v, v)),
    block_client_on_auth = (\<lambda>k. (length k, k)),
    set_blocked_private_data = (\<lambda>c r k. (Inr (), k @ [(c, r)]))\<rparr>"

definition demo_host :: "(string \<times> string list) list host" where
  "demo_host = \<lparr>acl = [(''bob'', [''on'']), (''eve'', [''on''])], host_logger = ValkeyGlobalLogger_new\<lparr>log_context := Some 7\<rparr>,
     host_log = \<lparr>live = [7], lines = []\<rparr>\<rparr>"

definition demo_config :: config where
  "demo_config = config_static\<lparr>LDAP_SERVER_LIST := ''ldap://a ldap://b''\<rparr>"

lemma demo_host_ok [simp]: "log_ok demo_host"
  by (simp add: demo_host_def log_ok_def ValkeyGlobalLogger_new_def)

lemma demo_host_acl: "acl demo_host = [(''bob'', [''on'']), (''eve'', [''on''])]"
  by (simp add: demo_host_def)

section \<open>Properties\<close>

lemma reply_handled:
  assumes "auth_reply_callback venv is_match cfg cache username password priv_data h = (Ok AUTH_HANDLED, h')"
  shows "\<exists>tokens answer v. priv_data = Some (Inr tokens)
    \<and> acl_call venv ([''SETUSER'', username, ''resetkeys'', ''resetchannels'', ''-@all''] @ get_default_acl_rules cfg
        @ tokens @ (if is_acl_fallback_enabled cfg then [''resetpass'', ''>'' @ password] else [])) (acl h) = (Inr answer, v)
    \<and> authenticate_client_with_acl_user venv username v = (True, acl h')"
proof -
  have "\<exists>tokens. priv_data = Some (Inr tokens)"
  proof (cases "\<exists>err. priv_data = Some (Inl err)")
    case True
    with assms show ?thesis
      by (auto simp: auth_reply_callback_def handle_user_not_found_def handle_server_unavailable_def
          handle_credential_rejection_def and_then_Ok_iff Let_def split_def split: if_splits)
  next
    case False
    with assms show ?thesis
      by (auto simp: auth_reply_callback_def split: option.splits sum.splits)
  qed
  then obtain tokens where tokens: "priv_data = Some (Inr tokens)" ..
  let ?args = "[''SETUSER'', username] @ acl_rule_tokens cfg password tokens"
  obtain r v where r: "acl_call venv ?args (acl h) = (r, v)" by (metis prod.collapse)
  obtain ok v2 where ok: "authenticate_client_with_acl_user venv username v = (ok, v2)" by (metis prod.collapse)
  from assms tokens r ok have "(\<exists>answer. r = Inr answer) \<and> ok \<and> acl h' = v2"
    by (auto simp: auth_reply_callback_def apply_ldap_user_acl_def and_then_Ok_iff Let_def
        split: sum.splits if_splits)
  with tokens r ok show ?thesis by (auto simp: acl_rule_tokens_def)
qed

text \<open>C4. A client is only authenticated on a success of the LDAP side: then, and only then, the user
  is given exactly the rules that take everything away, the configured default rules, the rules
  found in the directory, and, when the fallback is enabled, the password; and the server
  authenticates the client as that user after the rules were accepted.\<close>

theorem authenticated_only_after_ldap:
  assumes "auth_reply_callback venv is_match cfg cache username password priv_data h = (Ok AUTH_HANDLED, h')"
  shows "\<exists>tokens answer v. priv_data = Some (Inr tokens)
    \<and> acl_call venv ([''SETUSER'', username, ''resetkeys'', ''resetchannels'', ''-@all''] @ get_default_acl_rules cfg
        @ tokens @ (if is_acl_fallback_enabled cfg then [''resetpass'', ''>'' @ password] else [])) (acl h) = (Inr answer, v)
    \<and> authenticate_client_with_acl_user venv username v = (True, acl h')"
  using assms by (rule reply_handled)

theorem authenticated_only_after_ldap_witness:
  "\<exists>v. acl_call demo_venv [''SETUSER'', ''bob'', ''resetkeys'', ''resetchannels'', ''-@all'', ''on'', ''resetpass'', ''+@read'']
     (acl demo_host) = (Inr ''OK'', v)"
proof -
  let ?r = "auth_reply_callback demo_venv (\<lambda>_ _. False) demo_config (EXEMPTED_USERS_REGEX_CACHE :: unit regex_cache)
    ''bob'' ''pw'' (Some (Inr [''+@read''])) demo_host"
  have rules: "get_default_acl_rules demo_config = [''on'', ''resetpass'']" by code_simp
  have "\<exists>h'. ?r = (Ok AUTH_HANDLED, h')"
    using apply_ldap_user_acl_Ok [of demo_host "''bob''" demo_venv demo_config "''pw''" "[''+@read'']" "''OK''"]
    by (auto simp: auth_reply_callback_def demo_venv_def)
  then obtain h' where "?r = (Ok AUTH_HANDLED, h')" ..
  from authenticated_only_after_ldap [OF this] show ?thesis
    by (auto simp: rules demo_config_def config_static_def is_acl_fallback_enabled_def demo_venv_def)
qed

text \<open>C14. When the LDAP servers are unavailable no user is changed or deleted, and the next
  authentication method gets its turn exactly if the fallback is enabled; otherwise the client is
  refused.\<close>

theorem unavailable_reply:
  assumes "is_server_unavailable err" and "log_ok h" and "nul \<notin> set username"
  shows "\<exists>h'. auth_reply_callback venv is_match cfg cache username password (Some (Inl err)) h =
      (if is_acl_fallback_enabled cfg then Ok AUTH_NOT_HANDLED else Err (ValkeyStr ''LDAP server unavailable''), h')
    \<and> acl h' = acl h"
proof -
  have nf: "\<not> is_user_not_found err"
    using assms(1) by (cases err) (simp_all add: is_user_not_found_def is_server_unavailable_def)
  obtain h1 where h1: "debug 124 (''failed to authenticate LDAP user '' @ username) h = (Ok (), h1)" "log_ok h1" "acl h1 = acl h"
    using write_log_ok [OF assms(2), of "''failed to authenticate LDAP user '' @ username" LevelDebug 124] assms(3) by auto
  obtain h2 where h2: "error 125 (''LDAP authentication failure: '' @ VkLdapError_fmt err) h1 = (Ok (), h2)" "log_ok h2" "acl h2 = acl h"
    using write_log_ok [OF h1(2), of "''LDAP authentication failure: '' @ VkLdapError_fmt err" LevelError 125]
      unavailable_text [OF assms(1)] h1(3) by auto
  obtain h3 where h3: "debug 76 (''LDAP server unavailable, falling back to ACL authentication for user '' @ username) h2 = (Ok (), h3)" "acl h3 = acl h"
    using write_log_ok [OF h2(2), of "''LDAP server unavailable, falling back to ACL authentication for user '' @ username" LevelDebug 76]
      assms(3) h2(3) by auto
  obtain h4 where h4: "debug 79 (''LDAP server unavailable and fallback disabled, rejecting authentication for user '' @ username) h2 = (Ok (), h4)" "acl h4 = acl h"
    using write_log_ok [OF h2(2), of "''LDAP server unavailable and fallback disabled, rejecting authentication for user '' @ username" LevelDebug 79]
      assms(3) h2(3) by auto
  show ?thesis
    using nf assms(1) h1(1) h2(1) h3 h4
    by (simp add: auth_reply_callback_def handle_server_unavailable_def)
qed

theorem unavailable_reply_witness:
  "\<exists>h'. auth_reply_callback demo_venv (\<lambda>_ _. False) demo_config (EXEMPTED_USERS_REGEX_CACHE :: unit regex_cache)
     ''bob'' ''pw'' (Some (Inl NoHealthyServerAvailable)) demo_host = (Err (ValkeyStr ''LDAP server unavailable''), h')
   \<and> acl h' = acl demo_host"
  using unavailable_reply [of NoHealthyServerAvailable demo_host "''bob''" demo_venv "\<lambda>_ _. False" demo_config
      "EXEMPTED_USERS_REGEX_CACHE :: unit regex_cache" "''pw''"]
  by (simp add: is_server_unavailable_def demo_config_def config_static_def is_acl_fallback_enabled_def)

lemma write_log_Ok_or_Panic:
  obtains h' where "write_log level line msg h = (Ok (), h')" "acl h' = acl h"
  | h' where "write_log level line msg h = (Panic, h')" "acl h' = acl h"
proof -
  obtain r h' where "write_log level line msg h = (r, h')" by (metis prod.collapse)
  with that write_log_result write_log_acl' show thesis by blast
qed

lemma deletes:
  assumes "log_ok h" and "nul \<notin> set username"
  shows "acl (snd (handle_credential_rejection venv username h)) = snd (acl_call venv [''DELUSER'', username] (acl h))"
    and "\<not> is_user_exempted_from_ldap is_match cache username \<Longrightarrow>
      acl (snd (handle_user_not_found venv is_match cache username h)) = snd (acl_call venv [''DELUSER'', username] (acl h))"
proof -
  have log: "acl (snd (and_then (write_log level line msg h) (\<lambda>_ h. (x, h)))) = acl h"
    "acl (snd (and_then (and_then (write_log level line msg h) (\<lambda>_ h. write_log level line2 msg2 h)) (\<lambda>_ h. (x, h)))) = acl h"
    for level line line2 msg msg2 h and x :: "auth_status reply"
    by (rule write_log_Ok_or_Panic [of level line msg h]; rule write_log_Ok_or_Panic [of level line2 msg2 "snd (write_log level line msg h)"]; simp)+
  obtain r v where r: "acl_call venv [''DELUSER'', username] (acl h) = (r, v)" by (metis prod.collapse)
  obtain h1 where h1: "error 96 (''LDAP rejected credentials for user '' @ username @ '', attempting to delete from ACL'') h = (Ok (), h1)"
    "acl h1 = acl h"
    using write_log_ok [OF assms(1), of "''LDAP rejected credentials for user '' @ username @ '', attempting to delete from ACL''"
        LevelError 96] assms(2) by auto
  then show "acl (snd (handle_credential_rejection venv username h)) = snd (acl_call venv [''DELUSER'', username] (acl h))"
    using r by (cases r) (simp_all add: handle_credential_rejection_def log)
  obtain h2 where h2: "debug 64 (''user '' @ username @ '' not found in LDAP, deleting from ACL'') h = (Ok (), h2)" "acl h2 = acl h"
    using write_log_ok [OF assms(1), of "''user '' @ username @ '' not found in LDAP, deleting from ACL''"
        LevelDebug 64] assms(2) by auto
  show "acl (snd (handle_user_not_found venv is_match cache username h)) = snd (acl_call venv [''DELUSER'', username] (acl h))"
    if "\<not> is_user_exempted_from_ldap is_match cache username"
    using that h2 r by (cases r) (simp_all add: handle_user_not_found_def log)
qed

text \<open>C13. Every other failure deletes the user from the ACL, and with more users than the documentation says: a
  wrong password is such a failure, although the README promises that a user is deleted only when
  the directory confirms that there is no such user; and so is a rejection that arrives for a user
  who has been exempted since the request was made, although the README promises that an exempted user is
  never deleted even if the authentication fails.  Only the reply that there is no such user spares the exempted ones.
  This is what the code does (the comment in \<open>handle_credential_rejection\<close> says that it is meant),
  and where it departs from the README and from the comment on the code \<open>52e\<close> in \<open>errors.rs\<close>.\<close>

theorem failure_deletes_user:
  assumes "\<not> is_server_unavailable err" and "log_ok h" and "nul \<notin> set username"
    and "nul \<notin> set (VkLdapError_fmt err)"
    and "is_user_not_found err \<longrightarrow> \<not> is_user_exempted_from_ldap is_match cache username"
  shows "acl (snd (auth_reply_callback venv is_match cfg cache username password (Some (Inl err)) h)) =
    snd (acl_call venv [''DELUSER'', username] (acl h))"
proof -
  obtain h1 where h1: "debug 124 (''failed to authenticate LDAP user '' @ username) h = (Ok (), h1)" "log_ok h1" "acl h1 = acl h"
    using write_log_ok [OF assms(2), of "''failed to authenticate LDAP user '' @ username" LevelDebug 124] assms(3) by auto
  obtain h2 where h2: "error 125 (''LDAP authentication failure: '' @ VkLdapError_fmt err) h1 = (Ok (), h2)" "log_ok h2" "acl h2 = acl h"
    using write_log_ok [OF h1(2), of "''LDAP authentication failure: '' @ VkLdapError_fmt err" LevelError 125]
      assms(4) h1(3) by auto
  show ?thesis
    using assms(1,5) h1(1) h2 by (simp add: auth_reply_callback_def deletes [OF h2(2) assms(3)])
qed

text \<open>A directory that says, as Active Directory does, that the password is wrong, of a user who has
  become exempted.\<close>

theorem failure_deletes_user_witness:
  "\<not> is_user_not_found (LdapBindError (LdapResultError 49 ''AcceptSecurityContext error, data 52e''))
   \<and> is_user_exempted_from_ldap (\<lambda>re u. u = re) \<lparr>regex = Some ''bob'', regex_poisoned = False\<rparr> ''bob''
   \<and> acl (snd (auth_reply_callback demo_venv (\<lambda>re u. u = re) demo_config \<lparr>regex = Some ''bob'', regex_poisoned = False\<rparr>
     ''bob'' ''wrong'' (Some (Inl (LdapBindError (LdapResultError 49 ''AcceptSecurityContext error, data 52e'')))) demo_host))
   = [(''eve'', [''on''])]"
proof -
  let ?err = "LdapBindError (LdapResultError 49 ''AcceptSecurityContext error, data 52e'')"
  have "\<not> is_user_not_found ?err" by code_simp
  moreover have "\<not> is_server_unavailable ?err" by (simp add: is_server_unavailable_def)
  moreover have "nul \<notin> set (VkLdapError_fmt ?err)" by (simp add: VkLdapError_fmt_def)
  moreover have "is_user_exempted_from_ldap (\<lambda>re u. u = re) \<lparr>regex = Some ''bob'', regex_poisoned = False\<rparr> ''bob''"
    by (simp add: is_user_exempted_from_ldap_def)
  ultimately show ?thesis
    using failure_deletes_user [of ?err demo_host "''bob''" "\<lambda>re u. u = re" "\<lparr>regex = Some ''bob'', regex_poisoned = False\<rparr>"
        demo_venv demo_config "''wrong''"]
    by (simp add: demo_venv_def demo_host_acl)
qed

text \<open>C15. When the module is not in charge, because no server is configured or the user is exempted, the
  next authentication method gets its turn, and nothing is asked of the directory or the ACL.\<close>

theorem not_in_charge:
  assumes "\<not> is_auth_enabled cfg \<or> is_user_exempted_from_ldap is_match cache username"
    and "log_ok h" and "nul \<notin> set username"
  shows "\<exists>h'. ldap_auth_blocking_callback venv is_match others env cfg cache username password (h, v) =
    (Ok AUTH_NOT_HANDLED, h', v) \<and> acl h' = acl h"
proof -
  obtain h1 where "debug 158 (''user '' @ username @ '' is exempted from LDAP authentication'') h = (Ok (), h1)" "acl h1 = acl h"
    using write_log_ok [OF assms(2), of "''user '' @ username @ '' is exempted from LDAP authentication''" LevelDebug 158]
      assms(3) by auto
  with assms(1) show ?thesis by (auto simp: ldap_auth_blocking_callback_def)
qed

theorem not_in_charge_witness:
  "\<exists>h'. ldap_auth_blocking_callback demo_venv (\<lambda>re u. u = re) (\<lambda>s. s) demo_dir demo_config
     \<lparr>regex = Some ''default'', regex_poisoned = False\<rparr> ''default'' ''pw'' (demo_host, demo_vk) = (Ok AUTH_NOT_HANDLED, h', demo_vk)"
proof -
  have "is_user_exempted_from_ldap (\<lambda>re u. u = re) \<lparr>regex = Some ''default'', regex_poisoned = False\<rparr> ''default''"
    by (simp add: is_user_exempted_from_ldap_def)
  from not_in_charge [OF disjI2, OF this demo_host_ok, of demo_venv "\<lambda>s. s" demo_dir demo_config "''pw''" demo_vk]
  show ?thesis by auto
qed

text \<open>A request that cannot be submitted because the scheduler is not running lets the next
  authentication method have its turn even when the fallback is disabled.\<close>

theorem not_ready_falls_back:
  assumes "is_auth_enabled cfg" and "\<not> is_user_exempted_from_ldap is_match cache username"
    and "is_scheduler_ready (sched v) = Ok False" and "log_ok h" and "nul \<notin> set username"
  shows "\<exists>h' v'. ldap_auth_blocking_callback venv is_match others env cfg cache username password (h, v) =
      (Ok AUTH_NOT_HANDLED, h', v') \<and> acl h' = acl h"
proof -
  obtain h1 where h1: "debug 162 (''starting authentication for user='' @ username) h = (Ok (), h1)" "log_ok h1" "acl h1 = acl h"
    using write_log_ok [OF assms(4), of "''starting authentication for user='' @ username" LevelDebug 162] assms(5) by auto
  have "nul \<notin> set (''failed to submit ldap bind request: '' @ VkLdapError_fmt SchedulerNotReady)"
    by (simp add: VkLdapError_fmt_def)
  from write_log_ok [OF h1(2) this, of LevelError 188] obtain h2 where
    "error 188 (''failed to submit ldap bind request: '' @ VkLdapError_fmt SchedulerNotReady) h1 = (Ok (), h2)" "acl h2 = acl h"
    using h1(3) by auto
  with assms(1-3) h1(1) show ?thesis
    by (auto simp: ldap_auth_blocking_callback_def vk_ldap_bind_and_group_rules_def
        vk_ldap_search_bind_and_group_rules_def when_ready_down Let_def split: prod.splits)
qed

theorem not_ready_falls_back_witness:
  "\<not> is_acl_fallback_enabled demo_config \<and>
   (\<exists>h' v'. ldap_auth_blocking_callback demo_venv (\<lambda>_ _. False) (\<lambda>s. s) demo_dir demo_config
      (EXEMPTED_USERS_REGEX_CACHE :: unit regex_cache) ''bob'' ''pw'' (demo_host, demo_vk) = (Ok AUTH_NOT_HANDLED, h', v'))"
proof -
  have "is_auth_enabled demo_config" "\<not> is_acl_fallback_enabled demo_config"
    by (simp_all add: is_auth_enabled_def is_acl_fallback_enabled_def demo_config_def config_static_def)
  moreover have "is_scheduler_ready (sched demo_vk) = Ok False"
    by (simp add: demo_vk_def is_scheduler_ready_def Scheduler_new_def is_initialized_def)
  moreover have "\<not> is_user_exempted_from_ldap (\<lambda>_ _. False) (EXEMPTED_USERS_REGEX_CACHE :: unit regex_cache) ''bob''"
    by (simp add: is_user_exempted_from_ldap_def EXEMPTED_USERS_REGEX_CACHE_def)
  ultimately show ?thesis
    using not_ready_falls_back [of demo_config "\<lambda>_ _. False" "EXEMPTED_USERS_REGEX_CACHE :: unit regex_cache" "''bob''"
        demo_vk demo_host demo_venv "\<lambda>s. s" demo_dir "''pw''"] demo_host_ok by auto
qed

text \<open>C32. A user name with a null character, which any client can send, makes the callback panic at its
  first log line, before anything is known of the client; the logger is poisoned by it, and from
  then on the callback panics for every user who is not exempted.\<close>

theorem nul_username_stops_authentication:
  assumes "is_auth_enabled cfg" and "log_context (host_logger h) = Some c"
    and "\<not> is_user_exempted_from_ldap is_match cache username" and "nul \<in> set username"
    and "\<not> is_user_exempted_from_ldap is_match cache other"
  shows "(case ldap_auth_blocking_callback venv is_match others env cfg cache username password (h, v) of
    (r, h', v') \<Rightarrow> r = Panic
      \<and> fst (ldap_auth_blocking_callback venv is_match others env cfg cache other password' (h', v')) = Panic)"
proof -
  let ?r = "\<lambda>msg. \<lparr>rec_level = LevelDebug, rec_module = Some ''valkey_ldap::auth'', rec_file = Some ''src/auth.rs'',
    rec_line = Some 162, rec_args = msg\<rparr>"
  let ?msg = "''starting authentication for user='' @ username"
  obtain x lg srv where x: "logger_log (host_logger h) (?r ?msg) (host_log h) = (x, lg, srv)" by (metis prod.collapse)
  have "nul \<in> set (log_message (?r ?msg))"
    using assms(4) by (simp add: log_message_def verbose_message_def)
  with assms(2) have "fst (logger_log (host_logger h) (?r ?msg) (host_log h)) = Panic"
    by (simp add: logger_log_Panic)
  with x logger_log_poisons [OF this] have xp: "x = Panic" "log_poisoned lg" by simp_all
  let ?h = "h\<lparr>host_logger := lg, host_log := srv\<rparr>"
  have first: "debug 162 ?msg h = (Panic, ?h)" using x xp by (simp add: write_log_def)
  have poisoned: "debug n m ?h = (Panic, ?h)" for n m
    using xp(2) by (simp add: write_log_def logger_log_def Let_def)
  show ?thesis
    using assms(1,3,5) first poisoned by (simp add: ldap_auth_blocking_callback_def)
qed

theorem nul_username_stops_authentication_witness:
  "fst (ldap_auth_blocking_callback demo_venv (\<lambda>_ _. False) (\<lambda>s. s) demo_dir demo_config
      (EXEMPTED_USERS_REGEX_CACHE :: unit regex_cache) [nul] ''pw'' (demo_host, demo_vk)) = Panic"
proof -
  have "is_auth_enabled demo_config" "log_context (host_logger demo_host) = Some 7"
    "\<not> is_user_exempted_from_ldap (\<lambda>_ _. False) (EXEMPTED_USERS_REGEX_CACHE :: unit regex_cache) [nul]"
    by (simp_all add: is_auth_enabled_def demo_config_def demo_host_def is_user_exempted_from_ldap_def
        EXEMPTED_USERS_REGEX_CACHE_def)
  from nul_username_stops_authentication [OF this _ this(3), where venv = demo_venv
      and others = "\<lambda>s. s" and env = demo_dir and password = "''pw''" and v = demo_vk]
  show ?thesis by (simp add: split_def)
qed

end
