(* ===== verification/Info.thy ===== *)
theory Info
  imports Vkldap
begin

text \<open>
  The section of the \<open>INFO\<close> command (\<open>src/src/commands.rs\<close>): one dictionary per server.

  Adding a field to a dictionary is an operation of the server's library that may fail, the
  parameter \<open>field\<close>; the text of a number of milliseconds is the parameter \<open>ms_text\<close>, a function of
  the microseconds.
\<close>

type_synonym fields = "(string \<times> string) list"

type_synonym field_op = "string \<Rightarrow> string \<Rightarrow> fields \<Rightarrow> ValkeyError + fields"

definition add_field :: "field_op \<Rightarrow> string \<Rightarrow> string \<Rightarrow> ValkeyError + fields \<Rightarrow> ValkeyError + fields" where
  "add_field field k x d = (case d of Inl e \<Rightarrow> Inl e | Inr fs \<Rightarrow> field k x fs)"

definition server_fields ::
  "field_op \<Rightarrow> (nat \<Rightarrow> string) \<Rightarrow> ('u \<Rightarrow> string option) \<Rightarrow> ('u \<Rightarrow> string) \<Rightarrow> 'u VkLdapServer
   \<Rightarrow> ValkeyError + fields"
where
  "server_fields field ms_text url_host url_text server =
     (let dict = add_field field ''host'' (get_host_string url_host url_text server) (Inr [])
      in (case get_status server of
            HEALTHY \<Rightarrow>
              (let dict = add_field field ''status'' ''healthy'' dict
               in (case get_ping_time server of
                     Some time \<Rightarrow> add_field field ''ping_time_ms'' (ms_text (time div 1000)) dict
                   | None \<Rightarrow> dict))
          | UNHEALTHY err_msg \<Rightarrow>
              add_field field ''error'' err_msg (add_field field ''status'' ''unhealthy'' dict)))"

fun server_dicts ::
  "field_op \<Rightarrow> (nat \<Rightarrow> string) \<Rightarrow> ('u \<Rightarrow> string option) \<Rightarrow> ('u \<Rightarrow> string) \<Rightarrow> nat \<Rightarrow> 'u VkLdapServer list
   \<Rightarrow> (string \<times> fields) list \<Rightarrow> ValkeyError + (string \<times> fields) list"
where
  "server_dicts field ms_text url_host url_text idx [] dicts = Inr dicts"
| "server_dicts field ms_text url_host url_text idx (server # rest) dicts =
     (case server_fields field ms_text url_host url_text server of
        Inl e \<Rightarrow> Inl e
      | Inr fs \<Rightarrow> server_dicts field ms_text url_host url_text (Suc idx) rest
                    (dicts @ [(''server_'' @ show_nat idx, fs)]))"

definition add_ldap_status_section ::
  "field_op \<Rightarrow> (nat \<Rightarrow> string) \<Rightarrow> ('u \<Rightarrow> string option) \<Rightarrow> ('u \<Rightarrow> string) \<Rightarrow> ('u, 'c, 'w, 'k) vk
   \<Rightarrow> (ValkeyError, (string \<times> fields) list) outcome \<times> ('u, 'c, 'w, 'k) vk"
where
  "add_ldap_status_section field ms_text url_host url_text v =
     (case vkldap_get_servers_health_status v of
        (Ok servers_health, v) \<Rightarrow>
          (of_result (server_dicts field ms_text url_host url_text 0 servers_health []), v)
      | (Err err, v) \<Rightarrow>
          (Err (ValkeyStr ''Failed to get the list of LDAP servers. Check the logs for more details''), v)
      | (Panic, v) \<Rightarrow> (Panic, v)
      | (Stuck, v) \<Rightarrow> (Stuck, v))"

definition append_field :: field_op where
  "append_field k x fs = Inr (fs @ [(k, x)])"

lemma server_fields_append:
  "server_fields append_field ms_text url_host url_text server =
    Inr ((''host'', get_host_string url_host url_text server) #
      (case srv_status server of
         HEALTHY \<Rightarrow> (''status'', ''healthy'') #
           (case srv_ping_time server of Some t \<Rightarrow> [(''ping_time_ms'', ms_text (t div 1000))] | None \<Rightarrow> [])
       | UNHEALTHY msg \<Rightarrow> [(''status'', ''unhealthy''), (''error'', msg)]))"
  by (simp add: server_fields_def add_field_def append_field_def get_status_def get_ping_time_def
      split: VkLdapServerStatus.splits option.splits)

lemma server_dicts_append:
  "server_dicts append_field ms_text url_host url_text idx l dicts =
    Inr (dicts @ map (\<lambda>(i, server). (''server_'' @ show_nat i,
      (''host'', get_host_string url_host url_text server) #
      (case srv_status server of
         HEALTHY \<Rightarrow> (''status'', ''healthy'') #
           (case srv_ping_time server of Some t \<Rightarrow> [(''ping_time_ms'', ms_text (t div 1000))] | None \<Rightarrow> [])
       | UNHEALTHY msg \<Rightarrow> [(''status'', ''unhealthy''), (''error'', msg)])))
      (zip [idx..<idx + length l] l))"
  by (induction l arbitrary: idx dicts) (simp_all add: server_fields_append upt_conv_Cons del: upt_Suc)

section \<open>Properties\<close>

text \<open>With a running scheduler the section lists every configured server once, numbered in order,
  with its host and its state; the ping time is shown for healthy servers only and the error for
  unhealthy ones only.  Nothing changes by asking.\<close>

theorem info_lists_servers:
  assumes "running (sched v)"
  shows "add_ldap_status_section append_field ms_text url_host url_text v =
    (Ok (map (\<lambda>(i, server). (''server_'' @ show_nat i,
      (''host'', get_host_string url_host url_text server) #
      (case srv_status server of
         HEALTHY \<Rightarrow> (''status'', ''healthy'') #
           (case srv_ping_time server of Some t \<Rightarrow> [(''ping_time_ms'', ms_text (t div 1000))] | None \<Rightarrow> [])
       | UNHEALTHY msg \<Rightarrow> [(''status'', ''unhealthy''), (''error'', msg)])))
      (zip [0..<length (servers (ctx (sys v)))] (servers (ctx (sys v))))), v)"
proof -
  have "vkldap_get_servers_health_status v = (Ok (servers (ctx (sys v))), v)"
    by (simp add: vkldap_get_servers_health_status_def when_ready_running [OF assms]
        submit_running [OF assms] get_servers_health_status_def)
  then show ?thesis
    using server_dicts_append [of ms_text url_host url_text 0 "servers (ctx (sys v))" "[]"]
    by (simp add: add_ldap_status_section_def)
qed

theorem info_lists_servers_witness:
  "add_ldap_status_section append_field show_nat (\<lambda>_. None) (\<lambda>u. u) (demo_vk\<lparr>sched := initialize Scheduler_new\<rparr>) =
    (Ok [(''server_0'', [(''host'', ''ldap://a''), (''status'', ''healthy'')]),
         (''server_1'', [(''host'', ''ldap://b''), (''status'', ''healthy'')])],
     demo_vk\<lparr>sched := initialize Scheduler_new\<rparr>)"
proof -
  have "running (sched (demo_vk\<lparr>sched := initialize Scheduler_new\<rparr>))"
    by (simp add: running_def initialize_def Scheduler_new_def)
  moreover have "show_nat 0 = ''0''" "show_nat 1 = ''1''" by code_simp+
  ultimately show ?thesis
    by (simp add: info_lists_servers demo_vk_def demo_two_simps VkLdapServer_new_def get_host_string_def upt_rec)
qed

end
