(* ===== verification/Module_Init.thy ===== *)
theory Module_Init
  imports Auth Info
begin

text \<open>
  Loading and unloading the module (\<open>src/src/lib.rs\<close>), and the settings it registers with the
  server.

  What the module calls of the server's own logging (\<open>ctx.log_debug\<close> and \<open>ctx.log_warning\<close>) is left
  out.  The names of the settings, of their variables and their callbacks are those of the
  registration.
\<close>

section \<open>The registered settings\<close>

text \<open>
  What runs when a setting has changed, and, per kind of setting, its name, its default value, the
  range of an integer, whether it is hidden, and the variable it is stored in.
\<close>

datatype on_change =
  No_callback | Ldap_setting | Connection_setting | Detector_interval | Server_list | Exempted_users

definition registered_i64 ::
  "(string \<times> i64 \<times> i64 \<times> i64 \<times> on_change \<times> (i64 \<Rightarrow> config \<Rightarrow> config)) list"
where
  "registered_i64 =
     [(''connection_pool_size'', 2, 1, 8192, Connection_setting, (\<lambda>x cfg. cfg\<lparr>LDAP_CONNECTION_POOL_SIZE := x\<rparr>)),
      (''failure_detector_interval'', 1, 0, 0x7FFFFFFFFFFFFFFF, Detector_interval, (\<lambda>x cfg. cfg\<lparr>LDAP_FAILURE_DETECTOR_INTERVAL := x\<rparr>)),
      (''timeout_connection'', 10, 0, 0x7FFFFFFFFFFFFFFF, Connection_setting, (\<lambda>x cfg. cfg\<lparr>LDAP_TIMEOUT_CONNECTION := x\<rparr>)),
      (''timeout_ldap_operation'', 10, 0, 0x7FFFFFFFFFFFFFFF, Ldap_setting, (\<lambda>x cfg. cfg\<lparr>LDAP_TIMEOUT_LDAP_OPERATION := x\<rparr>))]"

definition registered_strings ::
  "(string \<times> string \<times> bool \<times> on_change \<times> (string \<Rightarrow> config \<Rightarrow> config)) list"
where
  "registered_strings =
     [(''servers'', [], False, Server_list, (\<lambda>x cfg. cfg\<lparr>LDAP_SERVER_LIST := x\<rparr>)),
      (''bind_dn_prefix'', ''cn='', False, Ldap_setting, (\<lambda>x cfg. cfg\<lparr>LDAP_BIND_DN_PREFIX := x\<rparr>)),
      (''bind_dn_suffix'', [], False, Ldap_setting, (\<lambda>x cfg. cfg\<lparr>LDAP_BIND_DN_SUFFIX := x\<rparr>)),
      (''tls_ca_cert_path'', [], False, Connection_setting, (\<lambda>x cfg. cfg\<lparr>LDAP_TLS_CA_CERT_PATH := x\<rparr>)),
      (''tls_cert_path'', [], False, Connection_setting, (\<lambda>x cfg. cfg\<lparr>LDAP_TLS_CERT_PATH := x\<rparr>)),
      (''tls_key_path'', [], False, Connection_setting, (\<lambda>x cfg. cfg\<lparr>LDAP_TLS_KEY_PATH := x\<rparr>)),
      (''search_base'', [], False, Ldap_setting, (\<lambda>x cfg. cfg\<lparr>LDAP_SEARCH_BASE := x\<rparr>)),
      (''search_filter'', ''objectClass=*'', False, Ldap_setting, (\<lambda>x cfg. cfg\<lparr>LDAP_SEARCH_FILTER := x\<rparr>)),
      (''search_attribute'', ''uid'', False, Ldap_setting, (\<lambda>x cfg. cfg\<lparr>LDAP_SEARCH_ATTRIBUTE := x\<rparr>)),
      (''search_bind_dn'', [], False, Ldap_setting, (\<lambda>x cfg. cfg\<lparr>LDAP_SEARCH_BIND_DN := x\<rparr>)),
      (''search_bind_passwd'', [], True, Ldap_setting, (\<lambda>x cfg. cfg\<lparr>LDAP_SEARCH_BIND_PASSWD := x\<rparr>)),
      (''search_dn_attribute'', ''entryDN'', False, Ldap_setting, (\<lambda>x cfg. cfg\<lparr>LDAP_SEARCH_DN_ATTRIBUTE := x\<rparr>)),
      (''groups_search_base'', [], False, Ldap_setting, (\<lambda>x cfg. cfg\<lparr>LDAP_GROUPS_SEARCH_BASE := x\<rparr>)),
      (''groups_filter'', ''objectClass=groupOfNames'', False, Ldap_setting, (\<lambda>x cfg. cfg\<lparr>LDAP_GROUPS_FILTER := x\<rparr>)),
      (''groups_member_attribute'', ''member'', False, Ldap_setting, (\<lambda>x cfg. cfg\<lparr>LDAP_GROUPS_MEMBER_ATTRIBUTE := x\<rparr>)),
      (''groups_name_attribute'', ''cn'', False, Ldap_setting, (\<lambda>x cfg. cfg\<lparr>LDAP_GROUPS_NAME_ATTRIBUTE := x\<rparr>)),
      (''groups_rules_attribute'', ''valkeyACL'', False, Ldap_setting, (\<lambda>x cfg. cfg\<lparr>LDAP_GROUPS_RULES_ATTRIBUTE := x\<rparr>)),
      (''group_acl_user_map'', [], False, Ldap_setting, (\<lambda>x cfg. cfg\<lparr>LDAP_GROUP_TO_ACL_USER_MAP := x\<rparr>)),
      (''group_acl_rules_map'', [], False, Ldap_setting, (\<lambda>x cfg. cfg\<lparr>LDAP_GROUP_TO_ACL_RULES_MAP := x\<rparr>)),
      (''default_acl_rules'', ''on resetpass'', False, Ldap_setting, (\<lambda>x cfg. cfg\<lparr>LDAP_DEFAULT_ACL_RULES := x\<rparr>)),
      (''exempted_users_regex'', [], False, Exempted_users, (\<lambda>x cfg. cfg\<lparr>LDAP_EXEMPTED_USERS_REGEX := x\<rparr>))]"

definition registered_bools :: "(string \<times> bool \<times> on_change \<times> (bool \<Rightarrow> config \<Rightarrow> config)) list" where
  "registered_bools =
     [(''use_starttls'', False, Connection_setting, (\<lambda>x cfg. cfg\<lparr>LDAP_USE_STARTTLS := x\<rparr>)),
      (''acl_fallback_enabled'', False, No_callback, (\<lambda>x cfg. cfg\<lparr>LDAP_ACL_FALLBACK_ENABLED := x\<rparr>))]"

definition registered_auth_mode ::
  "string \<times> LdapAuthMode \<times> on_change \<times> (LdapAuthMode \<Rightarrow> config \<Rightarrow> config)"
where
  "registered_auth_mode = (''auth_mode'', Bind, No_callback, (\<lambda>x cfg. cfg\<lparr>LDAP_AUTH_MODE := x\<rparr>))"

definition registered_search_scope ::
  "string \<times> LdapSearchScope \<times> on_change \<times> (LdapSearchScope \<Rightarrow> config \<Rightarrow> config)"
where
  "registered_search_scope = (''search_scope'', SubTree, Ldap_setting, (\<lambda>x cfg. cfg\<lparr>LDAP_SEARCH_SCOPE := x\<rparr>))"

text \<open>The server gives every setting its default when it is registered.\<close>

definition registered_defaults :: "config \<Rightarrow> config" where
  "registered_defaults cfg =
     (case registered_auth_mode of (_, m, _, set_mode) \<Rightarrow>
      case registered_search_scope of (_, sc, _, set_scope) \<Rightarrow>
        set_mode m (set_scope sc
          (fold (\<lambda>(_, d, _, set_it). set_it d) registered_bools
            (fold (\<lambda>(_, d, _, _, set_it). set_it d) registered_strings
              (fold (\<lambda>(_, d, _, _, _, set_it). set_it d) registered_i64 cfg)))))"

section \<open>The state of the module\<close>

record ('u, 'c, 'w, 'k, 'v, 're) module =
  conf :: config
  exempted :: "'re regex_cache"
  vkl :: "('u, 'c, 'w, 'k) vk"
  fdet :: FailureDetector
  hst :: "'v host"

text \<open>An operation of a part of it, and going on after an error, which is only logged.\<close>

definition with_vk ::
  "(('u, 'c, 'w, 'k) vk \<Rightarrow> 'r \<times> ('u, 'c, 'w, 'k) vk) \<Rightarrow> ('u, 'c, 'w, 'k, 'v, 're) module
   \<Rightarrow> 'r \<times> ('u, 'c, 'w, 'k, 'v, 're) module"
where
  "with_vk f m = (let (r, v) = f (vkl m) in (r, m\<lparr>vkl := v\<rparr>))"

definition with_sched ::
  "(('u, 'c, 'w, 'k) request_task Scheduler \<Rightarrow> 'r \<times> ('u, 'c, 'w, 'k) request_task Scheduler)
   \<Rightarrow> ('u, 'c, 'w, 'k, 'v, 're) module \<Rightarrow> 'r \<times> ('u, 'c, 'w, 'k, 'v, 're) module"
where
  "with_sched f m = with_vk (\<lambda>v. let (r, sc) = f (sched v) in (r, v\<lparr>sched := sc\<rparr>)) m"

definition with_fd ::
  "(FailureDetector \<Rightarrow> 'r \<times> FailureDetector) \<Rightarrow> ('u, 'c, 'w, 'k, 'v, 're) module
   \<Rightarrow> 'r \<times> ('u, 'c, 'w, 'k, 'v, 're) module"
where
  "with_fd f m = (let (r, fd) = f (fdet m) in (r, m\<lparr>fdet := fd\<rparr>))"

definition with_logger ::
  "(logger \<Rightarrow> log_server \<Rightarrow> 'r \<times> logger \<times> log_server) \<Rightarrow> ('u, 'c, 'w, 'k, 'v, 're) module
   \<Rightarrow> 'r \<times> ('u, 'c, 'w, 'k, 'v, 're) module"
where
  "with_logger f m =
     (let (r, lg, srv) = f (host_logger (hst m)) (host_log (hst m))
      in (r, m\<lparr>hst := (hst m)\<lparr>host_logger := lg, host_log := srv\<rparr>\<rparr>))"

fun proceed ::
  "('e, 'a) outcome \<times> 's \<Rightarrow> ('e + 'a \<Rightarrow> 's \<Rightarrow> ('f, 'b) outcome \<times> 's) \<Rightarrow> ('f, 'b) outcome \<times> 's"
where
  "proceed (Ok a, s) k = k (Inr a) s"
| "proceed (Err e, s) k = k (Inl e) s"
| "proceed (Panic, s) k = (Panic, s)"
| "proceed (Stuck, s) k = (Stuck, s)"

section \<open>Loading and unloading\<close>

datatype Status = Status_Ok | Status_Err

text \<open>The loop that waits for the scheduler, with the attempts left.\<close>

fun wait_ready :: "nat \<Rightarrow> 'j Scheduler \<Rightarrow> (VkLdapError, bool) outcome" where
  "wait_ready 0 sc = is_scheduler_ready sc"
| "wait_ready (Suc attempts) sc =
     (case is_scheduler_ready sc of
        Ok ready \<Rightarrow> if \<not> ready then wait_ready attempts sc else Ok True
      | r \<Rightarrow> r)"

text \<open>\<open>p\<close> is the context the server hands to the logger, \<open>locked\<close> says whether some task holds the
  lock of the LDAP context, and \<open>others\<close> is what the failure detector's thread does meanwhile.\<close>

definition initializer ::
  "('u, 'c, 'w) interference \<Rightarrow> ('u, 'c, 'w) ldap_env \<Rightarrow> (string \<Rightarrow> string + 'u) \<Rightarrow> nat \<Rightarrow> bool
   \<Rightarrow> ('u, 'c, 'w, 'k, 'v, 're) module
   \<Rightarrow> (VkLdapError, Status) outcome \<times> ('u, 'c, 'w, 'k, 'v, 're) module"
where
  "initializer others env url_parse p locked m =
     proceed (with_logger (setup_for_context p) m) (\<lambda>_ m.
     proceed (with_sched start_job_scheduler m) (\<lambda>_ m.
     proceed (with_fd FailureDetector_start m) (\<lambda>_ m.
     proceed (wait_ready 100 (sched (vkl m)), m) (\<lambda>ready m.
       if ready \<noteq> Inr True then (Ok Status_Err, m)
       else
         proceed (with_vk vkldap_reset_context m) (\<lambda>_ m.
         let m = m\<lparr>vkl := refresh_ldap_settings_cache_blocking locked (conf m) (vkl m)\<rparr>;
             m = m\<lparr>vkl := refresh_connection_settings_cache_blocking locked (conf m) (vkl m)\<rparr>
         in proceed (with_vk (process_server_list others env url_parse (LDAP_SERVER_LIST (conf m))) m)
              (\<lambda>_ m. (Ok Status_Ok, m)))))))"

text \<open>\<open>ending\<close> is how the detector's thread ends, and \<open>join_ok\<close> whether the scheduler's did well.\<close>

definition deinitializer ::
  "thread_end option \<Rightarrow> bool \<Rightarrow> ('u, 'c, 'w, 'k, 'v, 're) module
   \<Rightarrow> (VkLdapError, Status) outcome \<times> ('u, 'c, 'w, 'k, 'v, 're) module"
where
  "deinitializer ending join_ok m =
     proceed (with_fd (FailureDetector_shutdown ending) m) (\<lambda>r m.
       case r of Inl _ \<Rightarrow> (Ok Status_Err, m) | Inr _ \<Rightarrow>
     proceed (with_vk vkldap_clear_server_list m) (\<lambda>r m.
       case r of Inl _ \<Rightarrow> (Ok Status_Err, m) | Inr _ \<Rightarrow>
     proceed (with_sched (stop_job_scheduler join_ok) m) (\<lambda>r m.
       case r of Inl _ \<Rightarrow> (Ok Status_Err, m) | Inr _ \<Rightarrow>
     proceed (with_logger teardown m) (\<lambda>_ m. (Ok Status_Ok, m)))))"

section \<open>Changing a setting\<close>

text \<open>
  The callback registered with a setting, run after the server has stored the new value.  The
  callbacks of the LDAP and the connection settings return nothing; those of the server list and of the
  exempted users can refuse the value.
\<close>

fun no_result :: "(VkLdapError, unit) outcome \<times> 's \<Rightarrow> (ValkeyError, unit) outcome \<times> 's" where
  "no_result (Panic, s) = (Panic, s)"
| "no_result (Stuck, s) = (Stuck, s)"
| "no_result (_, s) = (Ok (), s)"

definition run_on_change ::
  "('u, 'c, 'w) interference \<Rightarrow> ('u, 'c, 'w) ldap_env \<Rightarrow> (string \<Rightarrow> string + 'u) \<Rightarrow> (string \<Rightarrow> string + 're)
   \<Rightarrow> on_change \<Rightarrow> ('u, 'c, 'w, 'k, 'v, 're) module
   \<Rightarrow> (ValkeyError, unit) outcome \<times> ('u, 'c, 'w, 'k, 'v, 're) module"
where
  "run_on_change others env url_parse regex_new cb m =
     (case cb of
        No_callback \<Rightarrow> (Ok (), m)
      | Ldap_setting \<Rightarrow> no_result (with_vk (on_ldap_setting_change (conf m)) m)
      | Connection_setting \<Rightarrow> no_result (with_vk (on_connection_setting_change others env (conf m)) m)
      | Detector_interval \<Rightarrow> (Ok (), m\<lparr>fdet := failure_detector_interval_changed (conf m) (fdet m)\<rparr>)
      | Server_list \<Rightarrow> with_vk (ldap_server_list_set_callback others env url_parse (conf m)) m
      | Exempted_users \<Rightarrow>
          (let (r, cache) = exempted_users_regex_set_callback regex_new
                 (get_exempted_users_regex_pattern (conf m)) (exempted m)
           in (of_result r, m\<lparr>exempted := cache\<rparr>)))"

section \<open>The state follows the configuration\<close>

text \<open>The list of servers and the pattern of the exempted users, as configured.\<close>

definition servers_of :: "(string \<Rightarrow> string + 'u) \<Rightarrow> config \<Rightarrow> 'u list \<Rightarrow> bool" where
  "servers_of url_parse cfg urls \<longleftrightarrow>
     (if LDAP_SERVER_LIST cfg = [] then urls = []
      else list_all2 (\<lambda>s u. url_parse s = Inr u) (split_on (CHR '' '') (LDAP_SERVER_LIST cfg)) urls)"

definition exempted_of :: "(string \<Rightarrow> string + 're) \<Rightarrow> config \<Rightarrow> 're option \<Rightarrow> bool" where
  "exempted_of regex_new cfg re \<longleftrightarrow>
     (if LDAP_EXEMPTED_USERS_REGEX cfg = [] then re = None
      else \<exists>x. regex_new (LDAP_EXEMPTED_USERS_REGEX cfg) = Inr x \<and> re = Some x)"

text \<open>A running module in which everything that was built from the configuration is up to date.\<close>

definition in_sync ::
  "(string \<Rightarrow> string + 'u) \<Rightarrow> (string \<Rightarrow> string + 're) \<Rightarrow> ('u, 'c, 'w, 'k, 'v, 're) module \<Rightarrow> bool"
where
  "in_sync url_parse regex_new m \<longleftrightarrow> running (sched (vkl m)) \<and> ctx_ok (sys (vkl m))
     \<and> ldap_settings (ctx (sys (vkl m))) = ldap_settings_of (conf m)
     \<and> connection_settings (ctx (sys (vkl m))) = connection_settings_of (conf m)
     \<and> fd_interval (fdet m) = get_failure_detector_interval_secs (conf m)
     \<and> servers_of url_parse (conf m) (map srv_url (servers (ctx (sys (vkl m)))))
     \<and> \<not> regex_poisoned (exempted m) \<and> exempted_of regex_new (conf m) (regex (exempted m))"

definition valid_config :: "(string \<Rightarrow> string + 'u) \<Rightarrow> (string \<Rightarrow> string + 're) \<Rightarrow> config \<Rightarrow> bool" where
  "valid_config url_parse regex_new cfg \<longleftrightarrow> (\<exists>urls. servers_of url_parse cfg urls) \<and> (\<exists>re. exempted_of regex_new cfg re)"

text \<open>The change to \<open>cfg\<close>, followed by the callback, succeeds and leaves everything up to date.\<close>

definition takes_effect ::
  "('u, 'c, 'w) interference \<Rightarrow> ('u, 'c, 'w) ldap_env \<Rightarrow> (string \<Rightarrow> string + 'u) \<Rightarrow> (string \<Rightarrow> string + 're)
   \<Rightarrow> ('u, 'c, 'w, 'k, 'v, 're) module \<Rightarrow> on_change \<Rightarrow> config \<Rightarrow> bool"
where
  "takes_effect others env url_parse regex_new m cb cfg \<longleftrightarrow>
     (case run_on_change others env url_parse regex_new cb (m\<lparr>conf := cfg\<rparr>) of
        (r, m') \<Rightarrow> r = Ok () \<and> conf m' = cfg \<and> in_sync url_parse regex_new m')"

text \<open>What a change with a given callback may touch.\<close>

definition confined :: "on_change \<Rightarrow> config \<Rightarrow> config \<Rightarrow> bool" where
  "confined cb cfg cfg' \<longleftrightarrow>
     (cb = Ldap_setting \<or> ldap_settings_of cfg' = ldap_settings_of cfg)
     \<and> (cb = Connection_setting \<or> connection_settings_of cfg' = connection_settings_of cfg)
     \<and> (cb = Detector_interval \<or> LDAP_FAILURE_DETECTOR_INTERVAL cfg' = LDAP_FAILURE_DETECTOR_INTERVAL cfg)
     \<and> (cb = Server_list \<or> LDAP_SERVER_LIST cfg' = LDAP_SERVER_LIST cfg)
     \<and> (cb = Exempted_users \<or> LDAP_EXEMPTED_USERS_REGEX cfg' = LDAP_EXEMPTED_USERS_REGEX cfg)"

lemma servers_processed:
  assumes "running (sched v)" "ctx_ok (sys v)" "keeps_servers others" "keeps_settings others"
    and "servers_of url_parse cfg urls"
  shows "\<exists>v'. process_server_list others env url_parse (LDAP_SERVER_LIST cfg) v = (Ok (), v') \<and> ctx_ok (sys v')
    \<and> sched v' = sched v \<and> map srv_url (servers (ctx (sys v'))) = urls
    \<and> ldap_settings (ctx (sys v')) = ldap_settings (ctx (sys v))
    \<and> connection_settings (ctx (sys v')) = connection_settings (ctx (sys v))"
proof -
  let ?v = "v\<lparr>sys := clear_server_list (sys v)\<rparr>"
  have cleared: "servers (ctx (clear_server_list (sys v))) = []"
    by (simp add: clear_server_list_def VkLdapContext_clear_server_list_def)
  show ?thesis
  proof (cases "LDAP_SERVER_LIST cfg = []")
    case True
    with assms(1,5) cleared show ?thesis
      by (simp add: process_server_list_def clear_running clear_settings servers_of_def)
  next
    case False
    with assms(5) have urls: "parse_urls url_parse (split_on (CHR '' '') (LDAP_SERVER_LIST cfg)) [] = Inr urls"
      by (simp add: parse_urls_Inr servers_of_def)
    obtain v' where v': "add_servers others env urls ?v = (Ok (), v')" "ctx_ok (sys v')" "sched v' = sched v"
      "map srv_url (servers (ctx (sys v'))) = urls"
      using add_servers_running [of ?v others env urls] assms(1,3) cleared by auto
    moreover have "process_server_list others env url_parse (LDAP_SERVER_LIST cfg) v = (Ok (), v')"
      using False urls v'(1) assms(1) by (simp add: process_server_list_def clear_running)
    ultimately show ?thesis
      using add_servers_settings [OF assms(4), of ?v env urls] assms(1) by (simp add: clear_settings)
  qed
qed

lemma change_takes_effect:
  assumes sync: "in_sync url_parse regex_new m" and keep: "keeps_servers others" "keeps_settings others"
    and confined: "confined cb (conf m) cfg" and valid: "valid_config url_parse regex_new cfg"
  shows "takes_effect others env url_parse regex_new m cb cfg"
proof -
  have run: "running (sched (vkl m))" and ok: "ctx_ok (sys (vkl m))" using sync by (simp_all add: in_sync_def)
  show ?thesis
  proof (cases cb)
    case No_callback
    with sync confined show ?thesis
      by (simp add: takes_effect_def run_on_change_def in_sync_def confined_def servers_of_def exempted_of_def
          get_failure_detector_interval_secs_def)
  next
    case Ldap_setting
    have "ctx_ok (refresh_ldap_settings settings (sys (vkl m)))" for settings
      using ok by (simp add: refresh_ldap_settings_def VkLdapContext_refresh_ldap_settings_def ctx_ok_def entry_ok_def)
    with Ldap_setting sync confined run show ?thesis
      by (simp add: takes_effect_def run_on_change_def with_vk_def on_ldap_setting_change_def
          refresh_ldap_settings_cache_def vkldap_refresh_ldap_settings_def when_ready_running submit_running
          in_sync_def confined_def servers_of_def exempted_of_def get_failure_detector_interval_secs_def
          refresh_ldap_settings_def VkLdapContext_refresh_ldap_settings_def)
  next
    case Connection_setting
    from refresh_settings_ok [OF ok keep(1)] obtain t where
      t: "refresh_connection_settings others env (connection_settings_of cfg) (sys (vkl m)) = (Ok (), t)"
      "ctx_ok t" "same_servers (sys (vkl m)) t"
      by blast
    with Connection_setting sync confined run refreshed_settings [OF keep(2) t(1)] show ?thesis
      by (simp add: takes_effect_def run_on_change_def with_vk_def on_connection_setting_change_def
          refresh_connection_settings_cache_def vkldap_refresh_connection_settings_def when_ready_running submit_running
          in_sync_def confined_def servers_of_def exempted_of_def get_failure_detector_interval_secs_def
          same_servers_def)
  next
    case Detector_interval
    with sync confined show ?thesis
      by (simp add: takes_effect_def run_on_change_def in_sync_def confined_def servers_of_def exempted_of_def
          failure_detector_interval_changed_def set_failure_detector_interval_def)
  next
    case Server_list
    obtain urls where "servers_of url_parse cfg urls" using valid by (auto simp: valid_config_def)
    from servers_processed [OF run ok keep this, of env] obtain v where
      "process_server_list others env url_parse (LDAP_SERVER_LIST cfg) (vkl m) = (Ok (), v)" "ctx_ok (sys v)"
      "sched v = sched (vkl m)" "map srv_url (servers (ctx (sys v))) = urls"
      "ldap_settings (ctx (sys v)) = ldap_settings (ctx (sys (vkl m)))"
      "connection_settings (ctx (sys v)) = connection_settings (ctx (sys (vkl m)))"
      by blast
    with Server_list sync confined \<open>servers_of url_parse cfg urls\<close> show ?thesis
      by (simp add: takes_effect_def run_on_change_def with_vk_def ldap_server_list_set_callback_def
          in_sync_def confined_def exempted_of_def get_failure_detector_interval_secs_def)
  next
    case Exempted_users
    obtain re where "exempted_of regex_new cfg re" using valid by (auto simp: valid_config_def)
    with Exempted_users sync confined show ?thesis
      by (auto simp: takes_effect_def run_on_change_def exempted_users_regex_set_callback_def
          get_exempted_users_regex_pattern_def in_sync_def confined_def servers_of_def exempted_of_def
          get_failure_detector_interval_secs_def split: if_splits)
  qed
qed

lemma in_sync_valid: "in_sync url_parse regex_new m \<Longrightarrow> valid_config url_parse regex_new (conf m)"
  by (auto simp: in_sync_def valid_config_def)

text \<open>A change of a setting that is neither the list of servers nor the exempted users is always valid.\<close>

lemma confined_valid:
  assumes "confined cb cfg cfg'" "cb \<noteq> Server_list" "cb \<noteq> Exempted_users" "valid_config url_parse regex_new cfg"
  shows "valid_config url_parse regex_new cfg'"
proof -
  have "servers_of url_parse cfg' = servers_of url_parse cfg" "exempted_of regex_new cfg' = exempted_of regex_new cfg"
    using assms(1-3) by (simp_all add: confined_def servers_of_def exempted_of_def fun_eq_iff)
  with assms(4) show ?thesis by (simp add: valid_config_def)
qed

section \<open>Lemmas\<close>

text \<open>The module is not loaded, and its last life, if it had one, left nothing poisoned.\<close>

definition unloaded :: "('u, 'c, 'w, 'k, 'v, 're) module \<Rightarrow> bool" where
  "unloaded m \<longleftrightarrow> \<not> poisoned (sched (vkl m)) \<and> \<not> fd_poisoned (fdet m)
     \<and> \<not> log_poisoned (host_logger (hst m)) \<and> log_context (host_logger (hst m)) = None"

definition loaded :: "('u, 'c, 'w, 'k, 'v, 're) module \<Rightarrow> bool" where
  "loaded m \<longleftrightarrow> running (sched (vkl m)) \<and> fd_thread (fdet m) \<and> \<not> fd_poisoned (fdet m)
     \<and> \<not> log_poisoned (host_logger (hst m))
     \<and> (\<exists>c. log_context (host_logger (hst m)) = Some c \<and> c \<in> set (live (host_log (hst m))))"

lemma wait_ready_running: "running sc \<Longrightarrow> wait_ready n sc = Ok True"
  by (cases n) (simp_all add: ready_cases)

lemma setup_unloaded:
  assumes "log_context lg = None" "\<not> log_poisoned lg"
  shows "\<exists>b lg'. setup_for_context p lg srv = (Ok b, lg', srv\<lparr>live := p # live srv\<rparr>)
    \<and> log_context lg' = Some p \<and> \<not> log_poisoned lg'"
  using assms by (auto simp: setup_for_context_def logger_init_def detached_context_def)

lemma initializer_steps:
  assumes "unloaded m"
  shows "\<exists>lg. log_context lg = Some p \<and> \<not> log_poisoned lg \<and>
    initializer others env url_parse p False m =
      (let h = (hst m)\<lparr>host_logger := lg, host_log := (host_log (hst m))\<lparr>live := p # live (host_log (hst m))\<rparr>\<rparr>;
           fd = (fdet m)\<lparr>fd_stop := False, fd_thread := True\<rparr>;
           s = reset_context (sys (vkl m));
           s = s\<lparr>ctx := (ctx s)\<lparr>ldap_settings := ldap_settings_of (conf m),
             connection_settings := connection_settings_of (conf m)\<rparr>\<rparr>;
           m' = m\<lparr>hst := h, fdet := fd, vkl := (vkl m)\<lparr>sched := initialize (sched (vkl m)), sys := s\<rparr>\<rparr>
       in proceed (with_vk (process_server_list others env url_parse (LDAP_SERVER_LIST (conf m))) m')
            (\<lambda>_ m. (Ok Status_Ok, m)))"
proof -
  from setup_unloaded [of "host_logger (hst m)" p "host_log (hst m)"] assms obtain b lg where
    lg: "setup_for_context p (host_logger (hst m)) (host_log (hst m)) =
      (Ok b, lg, (host_log (hst m))\<lparr>live := p # live (host_log (hst m))\<rparr>)"
    "log_context lg = Some p" "\<not> log_poisoned lg"
    by (auto simp: unloaded_def)
  have run: "running (initialize (sched (vkl m)))"
    using assms by (simp add: unloaded_def running_def initialize_def)
  show ?thesis
    using assms
    by (intro exI [of _ lg] conjI lg(2,3))
      (simp add: initializer_def with_logger_def lg with_sched_def with_vk_def with_fd_def unloaded_def
        start_job_scheduler_def FailureDetector_start_def wait_ready_running [OF run] vkldap_reset_context_def
        when_ready_running run submit_running Let_def refresh_ldap_settings_cache_blocking_def
        vkldap_refresh_ldap_settings_blocking_def refresh_ldap_settings_blocking_def
        refresh_connection_settings_cache_blocking_def vkldap_refresh_connection_settings_blocking_def
        refresh_connection_settings_blocking_def VkLdapContext_refresh_ldap_settings_def
        VkLdapContext_refresh_connection_settings_def reset_context_def)
qed

section \<open>Properties\<close>

lemmas settings_defs = ldap_settings_of_def connection_settings_of_def VkLdapSettings_new_def
  VkConnectionSettings_new_def get_bind_dn_prefix_def get_bind_dn_suffix_def get_search_base_def
  get_search_scope_def get_search_filter_def get_search_attribute_def get_search_bind_dn_def
  get_search_bind_passwd_def get_search_dn_attribute_def get_timeout_ldap_operation_def
  get_groups_search_base_def get_groups_filter_def get_groups_member_attribute_def
  get_groups_name_attribute_def get_groups_rules_attribute_def is_starttls_enabled_def
  get_tls_ca_cert_path_def get_tls_cert_path_def get_tls_key_path_def get_connection_pool_size_def
  get_timeout_connection_def

text \<open>The callback of every setting covers what depends on it.\<close>

lemma registered_confined:
  "list_all (\<lambda>(name, d, least, greatest, cb, set_it). cb \<noteq> Server_list \<and> cb \<noteq> Exempted_users
      \<and> confined cb cfg (set_it i cfg)) registered_i64"
  "list_all (\<lambda>(name, d, hidden, cb, set_it). confined cb cfg (set_it x cfg)) registered_strings"
  "list_all (\<lambda>(name, d, cb, set_it). cb \<noteq> Server_list \<and> cb \<noteq> Exempted_users
      \<and> confined cb cfg (set_it b cfg)) registered_bools"
  by (simp_all add: registered_strings_def registered_i64_def registered_bools_def confined_def settings_defs)

text \<open>C36. Every setting takes effect: when the value of any registered setting has been changed, to any value
  (for the list of servers and the exempted users, to one that parses), and the callback
  registered with it has run, everything the module has built from its configuration is that of the new
  configuration: the LDAP settings and the connection settings of the context, the interval of
  the failure detector, the list of servers in its order, and the pattern of the exempted users.
  So no setting is registered with the wrong callback, or without the one it needs.  The scheduler
  runs, and the other tasks leave the list of servers and the settings of the context alone.\<close>

theorem settings_take_effect:
  assumes "in_sync url_parse regex_new m" and "keeps_servers others" and "keeps_settings others"
  shows "list_all (\<lambda>(name, d, least, greatest, cb, set_it).
      takes_effect others env url_parse regex_new m cb (set_it i (conf m))) registered_i64
   \<and> list_all (\<lambda>(name, d, hidden, cb, set_it). valid_config url_parse regex_new (set_it x (conf m)) \<longrightarrow>
      takes_effect others env url_parse regex_new m cb (set_it x (conf m))) registered_strings
   \<and> list_all (\<lambda>(name, d, cb, set_it).
      takes_effect others env url_parse regex_new m cb (set_it b (conf m))) registered_bools
   \<and> (case registered_auth_mode of (name, d, cb, set_it) \<Rightarrow>
      takes_effect others env url_parse regex_new m cb (set_it mode (conf m)))
   \<and> (case registered_search_scope of (name, d, cb, set_it) \<Rightarrow>
      takes_effect others env url_parse regex_new m cb (set_it scope (conf m)))"
proof -
  note effect = change_takes_effect [OF assms]
  note valid = confined_valid [OF _ _ _ in_sync_valid [OF assms(1)]]
  have "list_all (\<lambda>(name, d, least, greatest, cb, set_it).
      takes_effect others env url_parse regex_new m cb (set_it i (conf m))) registered_i64"
    using registered_confined(1) [of "conf m" i] by (rule list.pred_mono_strong) (auto intro: effect valid)
  moreover have "list_all (\<lambda>(name, d, hidden, cb, set_it). valid_config url_parse regex_new (set_it x (conf m)) \<longrightarrow>
      takes_effect others env url_parse regex_new m cb (set_it x (conf m))) registered_strings"
    using registered_confined(2) [of "conf m" x] by (rule list.pred_mono_strong) (auto intro: effect)
  moreover have "list_all (\<lambda>(name, d, cb, set_it).
      takes_effect others env url_parse regex_new m cb (set_it b (conf m))) registered_bools"
    using registered_confined(3) [of "conf m" b] by (rule list.pred_mono_strong) (auto intro: effect valid)
  moreover have "confined (fst (snd (snd registered_auth_mode))) (conf m) (snd (snd (snd registered_auth_mode)) mode (conf m))"
    "confined (fst (snd (snd registered_search_scope))) (conf m) (snd (snd (snd registered_search_scope)) scope (conf m))"
    by (simp_all add: registered_auth_mode_def registered_search_scope_def confined_def settings_defs)
  ultimately show ?thesis
    by (auto simp: registered_auth_mode_def registered_search_scope_def intro: effect valid)
qed

text \<open>A running module with two servers and its defaults.\<close>

definition demo_in_sync ::
  "(string, string, nat, (nat \<times> string list result) list, (string \<times> string list) list, string) module"
where
  "demo_in_sync = \<lparr>conf = (registered_defaults config_static)\<lparr>LDAP_SERVER_LIST := ''ldap://a ldap://b''\<rparr>,
     exempted = EXEMPTED_USERS_REGEX_CACHE,
     vkl = demo_vk\<lparr>sched := initialize Scheduler_new,
       sys := demo_two\<lparr>ctx := (ctx demo_two)
         \<lparr>ldap_settings := ldap_settings_of (registered_defaults config_static),
          connection_settings := connection_settings_of (registered_defaults config_static)\<rparr>\<rparr>\<rparr>,
     fdet = FailureDetector_new,
     hst = \<lparr>acl = [], host_logger = ValkeyGlobalLogger_new, host_log = \<lparr>live = [], lines = []\<rparr>\<rparr>\<rparr>"

lemma demo_in_sync_ok: "in_sync Inr (Inr :: string \<Rightarrow> string + string) demo_in_sync"
proof -
  have split: "split_on (CHR '' '') ''ldap://a ldap://b'' = [''ldap://a'', ''ldap://b'']" by code_simp
  have "running (sched (vkl demo_in_sync))"
    by (simp add: running_def demo_in_sync_def initialize_def Scheduler_new_def)
  moreover have "ctx_ok (sys (vkl demo_in_sync))"
    using demo_two_ok by (simp add: demo_in_sync_def ctx_ok_def entry_ok_def)
  moreover have "ldap_settings_of (cfg\<lparr>LDAP_SERVER_LIST := l\<rparr>) = ldap_settings_of cfg"
    "connection_settings_of (cfg\<lparr>LDAP_SERVER_LIST := l\<rparr>) = connection_settings_of cfg" for cfg l
    by (simp_all add: settings_defs)
  moreover have "fd_interval (fdet demo_in_sync) = get_failure_detector_interval_secs (conf demo_in_sync)"
    "LDAP_EXEMPTED_USERS_REGEX (registered_defaults config_static) = []"
    by (simp_all add: demo_in_sync_def FailureDetector_new_def get_failure_detector_interval_secs_def
        registered_defaults_def registered_auth_mode_def registered_search_scope_def registered_bools_def
        registered_strings_def registered_i64_def)
  ultimately show ?thesis
    by (simp add: in_sync_def demo_in_sync_def EXEMPTED_USERS_REGEX_CACHE_def servers_of_def exempted_of_def
        demo_two_simps VkLdapServer_new_def split)
qed

theorem settings_take_effect_witness:
  "takes_effect (\<lambda>s. s) demo_dir Inr (Inr :: string \<Rightarrow> string + string) demo_in_sync Connection_setting
     ((conf demo_in_sync)\<lparr>LDAP_CONNECTION_POOL_SIZE := 5\<rparr>)"
  using settings_take_effect [OF demo_in_sync_ok keeps_servers_id keeps_settings_id, of demo_dir 5]
  by (simp add: registered_i64_def)

text \<open>The registered defaults lie in the registered ranges, and both timeouts are ten seconds by
  default, not the two of the variables' initial values.\<close>

theorem registered_default_values:
  "list_all (\<lambda>(name, d, least, greatest, cb, set_it). sint least \<le> sint d \<and> sint d \<le> sint greatest) registered_i64
   \<and> timeout_connection (connection_settings_of (registered_defaults cfg)) = 10 * 1000000000
   \<and> timeout_ldap_operation (ldap_settings_of (registered_defaults cfg)) = 10 * 1000000000
   \<and> timeout_connection (connection_settings_of config_static) = 2 * 1000000000
   \<and> unat (connection_pool_size (connection_settings_of (registered_defaults cfg))) = 2"
  by (simp add: registered_i64_def registered_defaults_def registered_auth_mode_def registered_search_scope_def
      registered_bools_def registered_strings_def settings_defs from_secs_def config_static_def)

text \<open>A module that has never been loaded.\<close>

definition demo_module ::
  "(string, string, nat, (nat \<times> string list result) list, (string \<times> string list) list, unit) module"
where
  "demo_module = \<lparr>conf = (registered_defaults config_static)\<lparr>LDAP_SERVER_LIST := ''ldap://a ldap://b''\<rparr>,
     exempted = EXEMPTED_USERS_REGEX_CACHE, vkl = demo_vk, fdet = FailureDetector_new,
     hst = \<lparr>acl = [], host_logger = ValkeyGlobalLogger_new, host_log = \<lparr>live = [], lines = []\<rparr>\<rparr>\<rparr>"

text \<open>C34. Loading the module brings it up: the scheduler runs, the detector's thread and the logger are
  there, and the context has the configured servers, in order.  This holds after an unloading as well
  as the first time.\<close>

theorem load_result:
  assumes "unloaded m" and "keeps_servers others" and "LDAP_SERVER_LIST (conf m) \<noteq> []"
    and "list_all2 (\<lambda>s u. url_parse s = Inr u) (split_on (CHR '' '') (LDAP_SERVER_LIST (conf m))) urls"
  shows "\<exists>m'. initializer others env url_parse p False m = (Ok Status_Ok, m') \<and> loaded m'
    \<and> map srv_url (servers (ctx (sys (vkl m')))) = urls \<and> ctx_ok (sys (vkl m'))"
proof -
  obtain lg where lg: "log_context lg = Some p" "\<not> log_poisoned lg"
    and eq: "initializer others env url_parse p False m =
      (let h = (hst m)\<lparr>host_logger := lg, host_log := (host_log (hst m))\<lparr>live := p # live (host_log (hst m))\<rparr>\<rparr>;
           fd = (fdet m)\<lparr>fd_stop := False, fd_thread := True\<rparr>;
           s = reset_context (sys (vkl m));
           s = s\<lparr>ctx := (ctx s)\<lparr>ldap_settings := ldap_settings_of (conf m),
             connection_settings := connection_settings_of (conf m)\<rparr>\<rparr>;
           m' = m\<lparr>hst := h, fdet := fd, vkl := (vkl m)\<lparr>sched := initialize (sched (vkl m)), sys := s\<rparr>\<rparr>
       in proceed (with_vk (process_server_list others env url_parse (LDAP_SERVER_LIST (conf m))) m')
            (\<lambda>_ m. (Ok Status_Ok, m)))"
    using initializer_steps [OF assms(1)] by blast
  let ?s = "(reset_context (sys (vkl m)))\<lparr>ctx := (ctx (reset_context (sys (vkl m))))
    \<lparr>ldap_settings := ldap_settings_of (conf m), connection_settings := connection_settings_of (conf m)\<rparr>\<rparr>"
  let ?v = "(vkl m)\<lparr>sched := initialize (sched (vkl m)), sys := ?s\<rparr>"
  have run: "running (sched ?v)"
    using assms(1) by (simp add: unloaded_def running_def initialize_def)
  then obtain v' where v': "process_server_list others env url_parse (LDAP_SERVER_LIST (conf m)) ?v = (Ok (), v')"
    "map srv_url (servers (ctx (sys v'))) = urls" "ctx_ok (sys v')" "sched v' = sched ?v"
    using server_list_replaced [OF run assms(2-4)] by blast
  have "running (sched v')" unfolding v'(4) using run .
  with v' lg assms(1) show ?thesis
    by (simp add: eq Let_def with_vk_def loaded_def unloaded_def)
qed

theorem load_result_witness:
  "\<exists>m'. initializer (\<lambda>s. s) demo_dir Inr 7 False demo_module = (Ok Status_Ok, m') \<and> loaded m'
    \<and> map srv_url (servers (ctx (sys (vkl m')))) = [''ldap://a'', ''ldap://b''] \<and> ctx_ok (sys (vkl m'))"
proof -
  have "unloaded demo_module"
    by (simp add: unloaded_def demo_module_def demo_vk_def Scheduler_new_def FailureDetector_new_def
        ValkeyGlobalLogger_new_def)
  moreover have "LDAP_SERVER_LIST (conf demo_module) = ''ldap://a ldap://b''"
    by (simp add: demo_module_def)
  moreover have "split_on (CHR '' '') ''ldap://a ldap://b'' = [''ldap://a'', ''ldap://b'']" by code_simp
  ultimately show ?thesis
    using load_result [of demo_module "\<lambda>s. s" Inr "[''ldap://a'', ''ldap://b'']" demo_dir 7] by simp
qed

lemma deinitializer_steps:
  assumes "loaded m" and c: "log_context (host_logger (hst m)) = Some c" "c \<in> set (live (host_log (hst m)))"
  shows "deinitializer (Some Exits) True m = (Ok Status_Ok,
    m\<lparr>fdet := (fdet m)\<lparr>fd_stop := True, fd_thread := False\<rparr>,
      vkl := (vkl m)\<lparr>sched := (sched (vkl m))\<lparr>state := None\<rparr>, sys := clear_server_list (sys (vkl m))\<rparr>,
      hst := (hst m)\<lparr>host_logger := (host_logger (hst m))\<lparr>log_context := None\<rparr>,
        host_log := (host_log (hst m))\<lparr>live := remove1 c (live (host_log (hst m)))\<rparr>\<rparr>\<rparr>)"
proof -
  have run: "running (sched (vkl m))" using assms by (simp add: loaded_def)
  then obtain st where st: "\<not> poisoned (sched (vkl m))" "state (sched (vkl m)) = Some st" "receiver st"
    unfolding running_def by blast
  have "FailureDetector_shutdown (Some Exits) (fdet m) = (Ok (), (fdet m)\<lparr>fd_stop := True, fd_thread := False\<rparr>)"
    using assms by (simp add: FailureDetector_shutdown_def Let_def loaded_def)
  moreover have "vkldap_clear_server_list (vkl m) = (Ok (), (vkl m)\<lparr>sys := clear_server_list (sys (vkl m))\<rparr>)"
    using run by (rule clear_running)
  moreover have "stop_job_scheduler True (sched (vkl m)) = (Ok (), (sched (vkl m))\<lparr>state := None\<rparr>)"
    using st by (simp add: stop_job_scheduler_def Scheduler_shutdown_def send_job_def JobSender_send_def)
  moreover have "teardown (host_logger (hst m)) (host_log (hst m)) =
      (Ok (), (host_logger (hst m))\<lparr>log_context := None\<rparr>,
       (host_log (hst m))\<lparr>live := remove1 c (live (host_log (hst m)))\<rparr>)"
    using assms by (simp add: teardown_def logger_deinit_def free_context_def loaded_def)
  ultimately show ?thesis
    by (simp add: deinitializer_def with_fd_def with_vk_def with_sched_def with_logger_def)
qed

text \<open>C35. Unloading a loaded module whose threads end well leaves it fit to be loaded again: the
  context has no servers and no pools, the pools it had have been handed to one task that is to shut each of
  them down, the scheduler is stopped, and of the contexts the logger got from the server exactly
  the one in use is given back.  The connections themselves are closed by that task, if the runtime still
  runs it; the unloading does not wait for it.  While the detector's thread hangs, the unloading never
  returns.\<close>

theorem unload_result:
  assumes "loaded m"
  shows "(\<exists>m' c. deinitializer (Some Exits) True m = (Ok Status_Ok, m') \<and> unloaded m'
      \<and> servers (ctx (sys (vkl m'))) = [] \<and> conn_pools (ctx (sys (vkl m'))) = []
      \<and> spawned (sys (vkl m')) = spawned (sys (vkl m)) @ [Shutdown_pools (conn_pools (ctx (sys (vkl m))))]
      \<and> pools (sys (vkl m')) = pools (sys (vkl m))
      \<and> state (sched (vkl m')) = None \<and> is_scheduler_ready (sched (vkl m')) = Ok False
      \<and> log_context (host_logger (hst m)) = Some c \<and> c \<in> set (live (host_log (hst m)))
      \<and> live (host_log (hst m')) = remove1 c (live (host_log (hst m))))
    \<and> fst (deinitializer (Some Hangs) True m) = Stuck"
proof -
  obtain c where c: "log_context (host_logger (hst m)) = Some c" "c \<in> set (live (host_log (hst m)))"
    using assms unfolding loaded_def by blast
  have "FailureDetector_shutdown (Some Hangs) (fdet m) = (Stuck, (fdet m)\<lparr>fd_stop := True, fd_thread := False\<rparr>)"
    using assms by (simp add: FailureDetector_shutdown_def Let_def loaded_def)
  then have "fst (deinitializer (Some Hangs) True m) = Stuck"
    by (simp add: deinitializer_def with_fd_def)
  moreover have "\<not> poisoned (sched (vkl m))" "\<not> fd_poisoned (fdet m)" "\<not> log_poisoned (host_logger (hst m))"
    using assms by (auto simp: loaded_def running_def)
  ultimately show ?thesis
    using c unfolding deinitializer_steps [OF assms c]
    by (simp add: unloaded_def is_scheduler_ready_def is_initialized_def clear_server_list_def
        VkLdapContext_clear_server_list_def)
qed

theorem unload_result_witness:
  "(\<exists>m'. deinitializer (Some Exits) True (demo_module\<lparr>vkl := demo_vk\<lparr>sched := initialize Scheduler_new\<rparr>,
      fdet := FailureDetector_new\<lparr>fd_thread := True\<rparr>,
      hst := \<lparr>acl = [], host_logger = ValkeyGlobalLogger_new\<lparr>log_context := Some 7\<rparr>, host_log = \<lparr>live = [7], lines = []\<rparr>\<rparr>\<rparr>)
    = (Ok Status_Ok, m') \<and> unloaded m')"
proof -
  let ?m = "demo_module\<lparr>vkl := demo_vk\<lparr>sched := initialize Scheduler_new\<rparr>,
      fdet := FailureDetector_new\<lparr>fd_thread := True\<rparr>,
      hst := \<lparr>acl = [], host_logger = ValkeyGlobalLogger_new\<lparr>log_context := Some 7\<rparr>, host_log = \<lparr>live = [7], lines = []\<rparr>\<rparr>\<rparr>"
  have "loaded ?m"
    by (simp add: loaded_def running_def initialize_def Scheduler_new_def FailureDetector_new_def
        ValkeyGlobalLogger_new_def)
  from unload_result [OF this] show ?thesis by blast
qed

end
