(* ===== verification/Spec2Isabelle.thy ===== *)
theory Spec2Isabelle
  imports Prelude Text Errors Version Settings Server Logging Connection Pool Pool_Sync Pool_Ownership
    Context Server_Table Failover Scheduler Failure_Detector Vkldap Configs Auth Info Module_Init
begin

text \<open>
  \<^bold>\<open>valkey-ldap\<close>: a module of the Valkey server that answers the \<open>AUTH\<close> command with the help of LDAP
  servers.  A client's name and password go from the callback of the server (\<open>src/src/auth.rs\<close>)
  through the module's interface (\<open>src/src/vkldap/mod.rs\<close>) and its job scheduler
  (\<open>scheduler.rs\<close>) to a task, which takes a connection from the pool of the first healthy server
  (\<open>connection.rs\<close>), binds as the user over it and reads the rules of the user's groups; when the
  connection fails the next server is tried (\<open>context.rs\<close>).  The result goes back to the blocked
  client, whose reply callback gives the user the rules found, or deletes the user, or lets the next
  authentication method have its turn.  A failure detector (\<open>failure_detector.rs\<close>) checks the servers
  in the background, and the settings (\<open>configs.rs\<close>) are pushed to the context when they change.

  \<^bold>\<open>The theories and what they model.\<close>

  \<^item> \<open>Prelude\<close>, \<open>Text\<close>: outcomes of operations that can fail, panic or hang; loops; Rust's string functions
    that the code uses (splitting, trimming, decimal numbers).  No code of the repository.
  \<^item> \<open>Errors\<close> (\<open>vkldap/errors.rs\<close>): the errors, their classification, their messages, and the macros.
  \<^item> \<open>Version\<close> (\<open>version.rs\<close>): the encoding of the version, on 32-bit words.
  \<^item> \<open>Settings\<close>, \<open>Server\<close> (\<open>vkldap/settings.rs\<close>, \<open>vkldap/server.rs\<close>, the enumerations of \<open>configs.rs\<close>).
  \<^item> \<open>Logging\<close> (\<open>logging.rs\<close>): the global logger with its context and its mutex.
  \<^item> \<open>Connection\<close> (\<open>VkLdapConnection\<close> of \<open>vkldap/connection.rs\<close>): setting up a connection, and the requests.
  \<^item> \<open>Pool\<close>, \<open>Pool_Sync\<close>, \<open>Pool_Ownership\<close> (\<open>ConnectionQueue\<close>, \<open>VkConnectionPool\<close>, \<open>notify_wait!\<close>): the
    operations of a pool; any number of tasks on it with their waiting and waking, as a step
    relation; and who has which connection.
  \<^item> \<open>Context\<close>, \<open>Server_Table\<close> (\<open>vkldap/context.rs\<close>): the shared context with the heap of pools; and the
    table of servers it stands for.
  \<^item> \<open>Failover\<close> (\<open>run_ldap_op_with_failover\<close> and the \<open>ldap_\<close> functions of \<open>vkldap/context.rs\<close>).
  \<^item> \<open>Scheduler\<close> (\<open>vkldap/scheduler.rs\<close>), \<open>Failure_Detector\<close> (\<open>vkldap/failure_detector.rs\<close>), \<open>Vkldap\<close>
    (\<open>vkldap/mod.rs\<close>), \<open>Configs\<close> (\<open>configs.rs\<close>), \<open>Auth\<close> (\<open>auth.rs\<close>), \<open>Info\<close> (\<open>commands.rs\<close>),
    \<open>Module_Init\<close> (\<open>lib.rs\<close>).

  Definitions have the names of the functions and types of the source; a prefix tells methods of
  the same name apart (\<open>VkLdapContext_add_server\<close> is the method, \<open>add_server\<close> the function).

  \<^bold>\<open>How the code is read.\<close>

  \<^item> \<^emph>\<open>Errors.\<close>  A \<open>Result\<close> is a sum, \<open>Inl\<close> the error.  Where the code can also panic or wait for ever, the
    result is an \<open>outcome\<close>: \<open>Ok\<close>, \<open>Err\<close>, \<open>Panic\<close> or \<open>Stuck\<close>.  A poisoned mutex is a flag of the state it
    protects, and unwrapping its lock is a panic.
  \<^item> \<^emph>\<open>The world.\<close>  The directory, the files and the client library \<open>ldap3\<close> are the record \<open>ldap_env\<close>, whose
    functions read and change a world of any type.  The server (the \<open>ACL\<close> command, blocked clients) is the
    record \<open>valkey_env\<close>, and the parsers of URLs, regular expressions and version numbers are arguments.
  \<^item> \<^emph>\<open>Other tasks.\<close>  Where an asynchronous function takes a lock, waits for a connection, or comes back from what it does
    over a connection, the argument \<open>others\<close>
    changes the whole shared state; it is any function, and as the world is of any type it can do
    something else every time.  The hypotheses on it are \<open>keeps_servers\<close> (the list of servers stays as it
    is, but for the states and pools), \<open>others_calm\<close> (and no server is brought back to health), \<open>waits_end\<close>
    (a healthy server's pool gets a connection sooner or later) and \<open>keeps_settings\<close>.
    What is done under a lock is atomic.  The requests of one operation over one connection (the bind, then
    the search for the groups) run on one world without others in between: they touch no shared
    state of the module, only the connection, which the task has to itself.
  \<^item> \<^emph>\<open>Loops.\<close>  A loop that need not end is \<open>loop\<close>, a partial function whose value is \<open>None\<close> if it does not
    return; the locale \<open>terminating_loop\<close> proves termination from a variant, and is interpreted for the
    failover loop (the number of healthy servers) and the scheduler's (the jobs left).  The wait for a
    connection of an empty pool (\<open>take_from\<close>) is a loop too, and \<open>Stuck\<close> is a wait that does not end.  The wait for
    the scheduler at the start of the module has the 100 attempts of the code.
  \<^item> \<^emph>\<open>Numbers.\<close>  Settings, epochs and the version are words of their width; lengths are natural numbers.

  \<^bold>\<open>What is proved.\<close>  \<open>end_to_end\<close> below follows a request through all the parts: nobody is authenticated
  unless a directory server accepted the password for the right name.  It rests on the soundness of
  the two kinds of requests (\<open>Failover\<close>) and of the reply (\<open>Auth\<close>).  The failover loop comes back with an
  answer if every wait for a connection ends, and tries the
  servers in order; a pool never shares a connection and loses none but to a task that panics, and wakes its waiting tasks; the
  context keeps its invariant under every operation and refines the table of servers; a secure connection is made
  of exactly the configured files, and TLS is never
  dropped on an error; a change of any setting takes effect; loading and unloading leave the
  module fit to be loaded again.  Other properties state where the code does not do what one
  would wish, at a concrete input: a failed pool that can never be shut down, the failure
  detector hanging after a change of the list of servers, a user name that stops the logger, and more.

  \<^bold>\<open>Not modelled.\<close>  The build script (\<open>build.rs\<close>), the tests and the packaging, which are not part of the
  running module.  The expansion of \<open>valkey_module!\<close>, the runtime \<open>tokio\<close> beyond the order in which tasks run,
  and real time: timeouts are passed on to the client library, and an answer that comes too late is one
  of its errors.  The ping has no timeout in the code and can wait for ever; in the model \<open>who_am_i\<close> always
  answers.  That the thread or the runtime of the scheduler cannot be made: \<open>initialize\<close> would panic with
  its lock held.  The log calls of the parts other than \<open>auth.rs\<close>, which is the file where the text
  comes from clients, and logging it can panic.  The other calls (in \<open>VkLdapConnection::new\<close>, line 186 of
  \<open>connection.rs\<close>, in \<open>update_server_status\<close>, line 103 of \<open>context.rs\<close>, and more) are taken to return; they
  do so as long as the logger is not poisoned, and panic afterwards.  So what is proved of those parts (that an
  iteration of the failure detector does not panic, for one) holds for a logger that is not poisoned.
\<close>

section \<open>From the request of a client to its authentication\<close>

text \<open>
  What the server promises for blocked clients: a client that was just blocked has no private data,
  and the data that has been set is what the reply callback is given.  \<open>private\<close> reads it.
\<close>

definition blocked_client_data ::
  "('v, 'k) valkey_env \<Rightarrow> (nat \<Rightarrow> 'k \<Rightarrow> string list result option) \<Rightarrow> bool"
where
  "blocked_client_data venv private \<longleftrightarrow>
     (\<forall>k. private (fst (block_client_on_auth venv k)) (snd (block_client_on_auth venv k)) = None)
     \<and> (\<forall>c r k. private c (snd (set_blocked_private_data venv c r k)) =
          (case fst (set_blocked_private_data venv c r k) of Inr _ \<Rightarrow> Some r | Inl _ \<Rightarrow> private c k))"

text \<open>A server of the directory accepted the name and the password, and \<open>tokens\<close> are the rules it has
  for that name.\<close>

definition directory_accepts ::
  "('u, 'c, 'w) ldap_env \<Rightarrow> VkLdapSettings \<Rightarrow> string \<Rightarrow> string \<Rightarrow> string list \<Rightarrow> bool"
where
  "directory_accepts env settings dn password tokens \<longleftrightarrow>
     (\<exists>c w0 w1 w2. simple_bind env c (timeout_ldap_operation settings) dn password w0 = (Inr (Inr ()), w1)
       \<and> search_groups_rules env c settings dn (timeout_ldap_operation settings) w1 = (Inr tokens, w2))"

definition directory_names ::
  "('u, 'c, 'w) ldap_env \<Rightarrow> VkLdapSettings \<Rightarrow> string \<Rightarrow> string \<Rightarrow> bool"
where
  "directory_names env settings username dn \<longleftrightarrow>
     (\<exists>c w0 w1. search env c settings username (timeout_ldap_operation settings) w0 = (Ok dn, w1))"

lemma answered_private:
  assumes "blocked_client_data venv private" "private client k = None"
    and "private client (answered (auth_result_callback venv) client x k) = Some (Inr tokens)"
  shows "\<exists>s. x = Some (Ok tokens, s)"
proof -
  have set: "r' = r" if "private client (snd (set_blocked_private_data venv client r k)) = Some r'" for r r'
    using assms(1,2) that by (cases "fst (set_blocked_private_data venv client r k)") (auto simp: blocked_client_data_def)
  from assms(2,3) set show ?thesis
    by (force simp: answered_def auth_result_callback_def split: option.splits outcome.splits prod.splits)
qed

lemma submitted:
  assumes "ldap_auth_blocking_callback venv is_match others env cfg cache username password (h, v) =
      (Ok AUTH_HANDLED, h1, v1)"
  obtains client k where "block_client_on_auth venv (clients v) = (client, k)"
    and "fst ((if is_bind_mode cfg then vk_ldap_bind_and_group_rules else vk_ldap_search_bind_and_group_rules)
      others env username password (auth_result_callback venv) client (v\<lparr>clients := k\<rparr>)) = Ok ()"
    and "snd ((if is_bind_mode cfg then vk_ldap_bind_and_group_rules else vk_ldap_search_bind_and_group_rules)
      others env username password (auth_result_callback venv) client (v\<lparr>clients := k\<rparr>)) = v1"
  using assms
  by (auto simp: ldap_auth_blocking_callback_def Let_def and_then_Ok_iff split: if_splits prod.splits outcome.splits)


text \<open>C1. The whole way of a request, undisturbed by other requests in the scheduler's channel: a client whose
  \<open>AUTH\<close> command was taken over is authenticated by the reply only if a server of the directory
  accepted the password of that command, in bind mode for exactly the configured DN of the user name,
  in search mode for a DN that a search of the directory gave for it; and the user then has exactly
  the rules that take everything away, the default rules, the rules of that DN, and, if the fallback
  is on, the password.  Neither an error, a panic, nor a request that never comes back can
  authenticate anyone, whatever other tasks do to the context, and whatever changes in the
  configuration meanwhile.\<close>

theorem end_to_end:
  assumes "blocked_client_data venv private"
    and "running (sched v)" and "state (sched v) = Some st" and "channel st = []"
    and "ldap_auth_blocking_callback venv is_match others env cfg cache username password (h, v) =
      (Ok AUTH_HANDLED, h1, v1)"
    and "auth_reply_callback venv is_match cfg' cache' username password
      (private (fst (block_client_on_auth venv (clients v))) (clients (deliver v1))) h2 = (Ok AUTH_HANDLED, h3)"
  shows "\<exists>dn tokens answer a.
    directory_accepts env (ldap_settings (ctx (sys v))) dn password tokens
    \<and> (if is_bind_mode cfg then dn = bind_dn (ldap_settings (ctx (sys v))) username
       else directory_names env (ldap_settings (ctx (sys v))) username dn)
    \<and> acl_call venv ([''SETUSER'', username, ''resetkeys'', ''resetchannels'', ''-@all''] @ get_default_acl_rules cfg'
        @ tokens @ (if is_acl_fallback_enabled cfg' then [''resetpass'', ''>'' @ password] else [])) (acl h2) = (Inr answer, a)
    \<and> authenticate_client_with_acl_user venv username a = (True, acl h3)"
proof -
  let ?settings = "ldap_settings (ctx (sys v))"
  let ?req = "(if is_bind_mode cfg then ldap_bind_and_group_rules else ldap_search_bind_and_group_rules)
    others env username password (sys v)"
  from submitted [OF assms(5)] obtain client k where client: "block_client_on_auth venv (clients v) = (client, k)"
    and v1: "snd ((if is_bind_mode cfg then vk_ldap_bind_and_group_rules else vk_ldap_search_bind_and_group_rules)
      others env username password (auth_result_callback venv) client (v\<lparr>clients := k\<rparr>)) = v1"
    by metis
  have "clients (deliver v1) = answered (auth_result_callback venv) client ?req k"
    using requests_delivered [of "v\<lparr>clients := k\<rparr>" st others env username password "auth_result_callback venv" client]
      assms(2-4) v1 by (auto split: if_splits)
  moreover obtain tokens answer a where reply:
    "private client (clients (deliver v1)) = Some (Inr tokens)"
    "acl_call venv ([''SETUSER'', username, ''resetkeys'', ''resetchannels'', ''-@all''] @ get_default_acl_rules cfg'
        @ tokens @ (if is_acl_fallback_enabled cfg' then [''resetpass'', ''>'' @ password] else [])) (acl h2) = (Inr answer, a)"
    "authenticate_client_with_acl_user venv username a = (True, acl h3)"
    using reply_handled [OF assms(6)] client by auto
  moreover have "private client k = None"
    using assms(1) client by (simp add: blocked_client_data_def) (metis fst_conv snd_conv)
  ultimately obtain s' where req: "?req = Some (Ok tokens, s')"
    using answered_private [OF assms(1)] by metis
  have "\<exists>dn. directory_accepts env ?settings dn password tokens
    \<and> (if is_bind_mode cfg then dn = bind_dn ?settings username else directory_names env ?settings username dn)"
    using req bind_rules_sound [of others env username password "sys v" tokens s']
      search_rules_sound [of others env username password "sys v" tokens s']
    by (fastforce simp: directory_accepts_def directory_names_def bind_dn_def split: if_splits)
  with reply(2,3) show ?thesis by blast
qed

text \<open>A server that gives every blocked client a new number, and keeps what was set for them.\<close>

definition demo_blocking :: "((string \<times> string list) list, (nat \<times> string list result) list) valkey_env" where
  "demo_blocking = demo_venv\<lparr>block_client_on_auth := (\<lambda>k. (Suc (foldr max (map fst k) 0), k))\<rparr>"

definition demo_private :: "nat \<Rightarrow> (nat \<times> string list result) list \<Rightarrow> string list result option" where
  "demo_private c k = map_of (rev k) c"

lemma demo_blocking_data: "blocked_client_data demo_blocking demo_private"
proof -
  have "map_of (rev k) (Suc (foldr max (map fst k) 0)) = None" for k :: "(nat \<times> string list result) list"
    using above_all [of "map fst k"] by (auto simp: map_of_eq_None_iff)
  then show ?thesis
    by (simp add: blocked_client_data_def demo_blocking_def demo_venv_def demo_private_def)
qed

abbreviation demo_running :: "(string, string, nat, (nat \<times> string list result) list) vk" where
  "demo_running \<equiv> demo_vk\<lparr>sched := initialize Scheduler_new\<rparr>"

lemma demo_running_simps:
  "running (sched demo_running)" "state (sched demo_running) = Some \<lparr>channel = [], receiver = True\<rparr>"
  "clients demo_running = []" "sys demo_running = demo_two"
  by (simp_all add: running_def initialize_def Scheduler_new_def demo_vk_def)

lemma demo_bob: "\<exists>s'. ldap_bind_and_group_rules (\<lambda>s. s) demo_dir ''bob'' ''pw'' demo_two = Some (Ok [''+@read''], s')"
  using demo_two_run [of "bind_op demo_dir VkLdapSettings_default ''bob'' ''pw''"] demo_dir_bind_op
  by (fastforce simp: ldap_bind_and_group_rules_def get_ldap_settings_def demo_two_simps)

lemma demo_request:
  "\<exists>h1 v1. ldap_auth_blocking_callback demo_blocking (\<lambda>_ _. False) (\<lambda>s. s) demo_dir demo_config
      (EXEMPTED_USERS_REGEX_CACHE :: unit regex_cache) ''bob'' ''pw'' (demo_host, demo_running) = (Ok AUTH_HANDLED, h1, v1)
    \<and> demo_private 1 (clients (deliver v1)) = Some (Inr [''+@read''])"
proof -
  obtain v1 where v1: "vk_ldap_bind_and_group_rules (\<lambda>s. s) demo_dir ''bob'' ''pw'' (auth_result_callback demo_blocking) 1
      demo_running = (Ok (), v1)"
    "clients (deliver v1) = answered (auth_result_callback demo_blocking) 1
      (ldap_bind_and_group_rules (\<lambda>s. s) demo_dir ''bob'' ''pw'' demo_two) []"
    using requests_delivered(1) [OF demo_running_simps(1,2), of "\<lambda>s. s" demo_dir "''bob''" "''pw''"
        "auth_result_callback demo_blocking" 1] by (auto simp: demo_running_simps)
  have "demo_private 1 (clients (deliver v1)) = Some (Inr [''+@read''])"
    using demo_bob v1(2)
    by (auto simp: answered_def auth_result_callback_def demo_blocking_def demo_venv_def demo_private_def)
  moreover have "clients_update (\<lambda>_. []) demo_running = demo_running"
    by (simp add: demo_vk_def)
  moreover have "is_auth_enabled demo_config" "is_bind_mode demo_config"
    by (simp_all add: is_auth_enabled_def is_bind_mode_def demo_config_def config_static_def)
  moreover obtain h1 where "debug 162 (''starting authentication for user='' @ ''bob'') demo_host = (Ok (), h1)"
    using write_log_ok [OF demo_host_ok, of "''starting authentication for user='' @ ''bob''" LevelDebug 162] by auto
  ultimately show ?thesis
    using v1(1)
    by (simp add: ldap_auth_blocking_callback_def is_user_exempted_from_ldap_def EXEMPTED_USERS_REGEX_CACHE_def
        demo_blocking_def demo_running_simps)
qed

theorem end_to_end_witness:
  "\<exists>tokens. directory_accepts demo_dir VkLdapSettings_default ''bob'' ''pw'' tokens"
proof -
  obtain h1 v1 where req: "ldap_auth_blocking_callback demo_blocking (\<lambda>_ _. False) (\<lambda>s. s) demo_dir demo_config
      (EXEMPTED_USERS_REGEX_CACHE :: unit regex_cache) ''bob'' ''pw'' (demo_host, demo_running) = (Ok AUTH_HANDLED, h1, v1)"
    and answer: "demo_private 1 (clients (deliver v1)) = Some (Inr [''+@read''])"
    using demo_request by blast
  have client: "fst (block_client_on_auth demo_blocking (clients demo_running)) = 1"
    by (simp add: demo_blocking_def demo_running_simps)
  have "\<exists>h3. auth_reply_callback demo_blocking (\<lambda>_ _. False) demo_config (EXEMPTED_USERS_REGEX_CACHE :: unit regex_cache)
      ''bob'' ''pw'' (Some (Inr [''+@read''])) demo_host = (Ok AUTH_HANDLED, h3)"
    using apply_ldap_user_acl_Ok [of demo_host "''bob''" demo_blocking demo_config "''pw''" "[''+@read'']" "''OK''"]
    by (auto simp: auth_reply_callback_def demo_blocking_def demo_venv_def)
  then obtain h3 where "auth_reply_callback demo_blocking (\<lambda>_ _. False) demo_config
      (EXEMPTED_USERS_REGEX_CACHE :: unit regex_cache) ''bob'' ''pw''
      (demo_private (fst (block_client_on_auth demo_blocking (clients demo_running))) (clients (deliver v1))) demo_host =
      (Ok AUTH_HANDLED, h3)"
    unfolding client answer by blast
  from end_to_end [OF demo_blocking_data demo_running_simps(1,2) _ req this]
  show ?thesis
    by (auto simp: demo_running_simps demo_two_simps bind_dn_def is_bind_mode_def demo_config_def config_static_def
        VkLdapSettings_default_def)
qed

end
